(* ===== verification/Prelude.thy ===== *)
theory Prelude
  imports Main
begin

text \<open>
  What every component of the model shares: the result type that stands for Go's pair of a
  value and an error, the loops over slices that return at the first error, maps built by
  assigning in a loop, and the functions of package strings that the sources call.
\<close>

named_theorems result_simps \<open>equations and inversions of results and of loops over them\<close>
named_theorems string_simps \<open>equations of the modelled functions of package strings\<close>

section \<open>Results\<close>

text \<open>
  A Go function returning \<open>(T, error)\<close> is modelled as \<open>'e + 'a\<close>: \<open>Inl e\<close> where the
  error is not nil, \<open>Inr x\<close> otherwise. A function returning only an error gives
  \<open>'e option\<close>, with \<open>None\<close> for nil.
\<close>

fun and_then :: "'e + 'a \<Rightarrow> ('a \<Rightarrow> 'e + 'b) \<Rightarrow> 'e + 'b" where
  "and_then (Inl e) f = Inl e"
| "and_then (Inr x) f = f x"

fun map_error :: "('e \<Rightarrow> 'f) \<Rightarrow> 'e + 'a \<Rightarrow> 'f + 'a" where
  "map_error w (Inl e) = Inl (w e)"
| "map_error w (Inr x) = Inr x"

fun is_ok :: "'e + 'a \<Rightarrow> bool" where
  "is_ok (Inl e) = False"
| "is_ok (Inr x) = True"

fun guarded :: "'e option \<Rightarrow> 'e + 'a \<Rightarrow> 'e + 'a" where
  "guarded (Some e) r = Inl e"
| "guarded None r = r"

text \<open>The same for a computation that may not return, with \<open>None\<close> where it does not.\<close>

fun returns_then :: "('e + 'a) option \<Rightarrow> ('a \<Rightarrow> ('e + 'b) option) \<Rightarrow> ('e + 'b) option" where
  "returns_then None f = None"
| "returns_then (Some (Inl e)) f = Some (Inl e)"
| "returns_then (Some (Inr x)) f = f x"

lemma returns_then_Inr [result_simps]:
  "returns_then m f = Some (Inr y) \<longleftrightarrow> (\<exists>x. m = Some (Inr x) \<and> f x = Some (Inr y))"
  by (cases "(m, f)" rule: returns_then.cases) auto

lemma returns_then_None [result_simps]:
  "returns_then m f = None \<longleftrightarrow> m = None \<or> (\<exists>x. m = Some (Inr x) \<and> f x = None)"
  by (cases "(m, f)" rule: returns_then.cases) auto

lemma and_then_cong [fundef_cong]:
  "m = n \<Longrightarrow> (\<And>x. n = Inr x \<Longrightarrow> f x = g x) \<Longrightarrow> and_then m f = and_then n g"
  by (cases n) auto

lemma and_then_Inr [result_simps]:
  "and_then m f = Inr y \<longleftrightarrow> (\<exists>x. m = Inr x \<and> f x = Inr y)"
  by (cases m) auto

lemma and_then_Inl [result_simps]:
  "and_then m f = Inl e \<longleftrightarrow> m = Inl e \<or> (\<exists>x. m = Inr x \<and> f x = Inl e)"
  by (cases m) auto

lemma map_error_Inr [result_simps]: "map_error w m = Inr y \<longleftrightarrow> m = Inr y"
  by (cases m) auto

lemma map_error_Inl [result_simps]: "map_error w m = Inl e \<longleftrightarrow> (\<exists>e'. m = Inl e' \<and> e = w e')"
  by (cases m) auto

lemma guarded_Inr [result_simps]: "guarded c r = Inr y \<longleftrightarrow> c = None \<and> r = Inr y"
  by (cases c) auto

lemma guarded_Inl [result_simps]: "guarded c r = Inl e \<longleftrightarrow> c = Some e \<or> c = None \<and> r = Inl e"
  by (cases c) auto

lemma is_ok_iff [result_simps]: "is_ok m \<longleftrightarrow> (\<exists>x. m = Inr x)"
  by (cases m) auto

section \<open>Loops that return at the first error\<close>

fun traverse :: "('a \<Rightarrow> 'e + 'b) \<Rightarrow> 'a list \<Rightarrow> 'e + 'b list" where
  "traverse f [] = Inr []"
| "traverse f (x # xs) = and_then (f x) (\<lambda>y. and_then (traverse f xs) (\<lambda>ys. Inr (y # ys)))"

fun first_error :: "('a \<Rightarrow> 'e option) \<Rightarrow> 'a list \<Rightarrow> 'e option" where
  "first_error f [] = None"
| "first_error f (x # xs) = (case f x of Some e \<Rightarrow> Some e | None \<Rightarrow> first_error f xs)"

lemma traverse_cong [fundef_cong]:
  "xs = ys \<Longrightarrow> (\<And>x. x \<in> set ys \<Longrightarrow> f x = g x) \<Longrightarrow> traverse f xs = traverse g ys"
  by (induction ys arbitrary: xs) auto

lemma traverse_Inr_iff [result_simps]:
  "traverse f xs = Inr ys \<longleftrightarrow> list_all2 (\<lambda>x y. f x = Inr y) xs ys"
  by (induction xs arbitrary: ys) (auto simp: and_then_Inr list_all2_Cons1)

lemma traverse_length: "traverse f xs = Inr ys \<Longrightarrow> length ys = length xs"
  by (simp add: traverse_Inr_iff list_all2_lengthD)

lemma traverse_nth: "traverse f xs = Inr ys \<Longrightarrow> i < length xs \<Longrightarrow> f (xs ! i) = Inr (ys ! i)"
  by (simp add: traverse_Inr_iff list_all2_conv_all_nth)

lemma traverse_Inl_iff [result_simps]:
  "traverse f xs = Inl e \<longleftrightarrow>
     (\<exists>us x vs. xs = us @ x # vs \<and> f x = Inl e \<and> (\<forall>u\<in>set us. is_ok (f u)))"
proof (induction xs)
  case Nil
  then show ?case by simp
next
  case (Cons a xs)
  show ?case
  proof (cases "f a")
    case (Inl d)
    then show ?thesis
      by (force simp: Cons_eq_append_conv)
  next
    case (Inr y)
    have "traverse f (a # xs) = Inl e \<longleftrightarrow> traverse f xs = Inl e"
      using Inr by (auto simp: and_then_Inl)
    also have "\<dots> \<longleftrightarrow> (\<exists>us x vs. a # xs = us @ x # vs \<and> f x = Inl e \<and> (\<forall>u\<in>set us. is_ok (f u)))"
      (is "_ \<longleftrightarrow> ?R")
    proof
      assume "traverse f xs = Inl e"
      then obtain us x vs where "xs = us @ x # vs" "f x = Inl e" "\<forall>u\<in>set us. is_ok (f u)"
        using Cons.IH by auto
      then show ?R using Inr by (intro exI[of _ "a # us"] exI[of _ x] exI[of _ vs]) simp
    next
      assume ?R
      then obtain us x vs where "a # xs = us @ x # vs" "f x = Inl e" "\<forall>u\<in>set us. is_ok (f u)"
        by blast
      with Inr obtain us' where "xs = us' @ x # vs" "\<forall>u\<in>set us'. is_ok (f u)"
        by (cases us) auto
      with \<open>f x = Inl e\<close> show "traverse f xs = Inl e"
        unfolding Cons.IH by blast
    qed
    finally show ?thesis .
  qed
qed

lemma list_all2_right: "list_all2 P xs ys \<Longrightarrow> y \<in> set ys \<Longrightarrow> \<exists>x\<in>set xs. P x y"
  by (induction rule: list_all2_induct) auto

lemma traverse_error: "traverse f xs = Inl e \<Longrightarrow> \<exists>x\<in>set xs. f x = Inl e"
  by (auto simp: traverse_Inl_iff)

lemma traverse_ok: "(\<And>x. x \<in> set xs \<Longrightarrow> is_ok (f x)) \<Longrightarrow> is_ok (traverse f xs)"
  by (induction xs) (auto simp: is_ok_iff, force)

lemma traverse_map_key:
  assumes "traverse f xs = Inr ys" and "\<And>x y. f x = Inr y \<Longrightarrow> h y = g x"
  shows "map h ys = map g xs"
  using assms by (induction xs arbitrary: ys) (auto simp: and_then_Inr)

lemma first_error_None [result_simps]: "first_error f xs = None \<longleftrightarrow> (\<forall>x\<in>set xs. f x = None)"
  by (induction xs) (auto split: option.splits)

lemma first_error_Some: "first_error f xs = Some e \<Longrightarrow> \<exists>x\<in>set xs. f x = Some e"
  by (induction xs) (auto split: option.splits)

lemma map_filter_Nil: "List.map_filter f xs = [] \<longleftrightarrow> (\<forall>x\<in>set xs. f x = None)"
  by (induction xs) (auto simp: List.map_filter_def split: option.splits)

lemma map_filter_cong:
  "(\<And>x. x \<in> set xs \<Longrightarrow> f x = g x) \<Longrightarrow> List.map_filter f xs = List.map_filter g xs"
  by (induction xs) (auto simp: List.map_filter_def)

section \<open>Loops with an index\<close>

definition traverse_indexed :: "(nat \<Rightarrow> 'a \<Rightarrow> 'e + 'b) \<Rightarrow> 'a list \<Rightarrow> 'e + 'b list" where
  "traverse_indexed f xs = traverse (\<lambda>(i, x). f i x) (List.enumerate 0 xs)"

lemma traverse_indexed_cong [fundef_cong]:
  assumes "xs = ys" and "\<And>i x. x \<in> set ys \<Longrightarrow> f i x = g i x"
  shows "traverse_indexed f xs = traverse_indexed g ys"
  unfolding traverse_indexed_def assms(1)
  by (rule traverse_cong) (auto simp: in_set_enumerate_eq assms(2))

lemma traverse_indexed_Inr [result_simps]:
  "traverse_indexed f xs = Inr ys \<longleftrightarrow> length ys = length xs \<and> (\<forall>i<length xs. f i (xs ! i) = Inr (ys ! i))"
  by (auto simp: traverse_indexed_def traverse_Inr_iff list_all2_conv_all_nth nth_enumerate_eq)

lemma traverse_indexed_Inl:
  assumes "traverse_indexed f xs = Inl e"
  shows "\<exists>i<length xs. f i (xs ! i) = Inl e"
proof -
  have "\<exists>p\<in>set (List.enumerate 0 xs). (\<lambda>(i, x). f i x) p = Inl e"
    using assms by (fastforce simp: traverse_indexed_def traverse_Inl_iff)
  then show ?thesis by (auto simp: in_set_enumerate_eq split: prod.splits)
qed

section \<open>Maps filled in a loop\<close>

text \<open>
  \<open>for _, x := range xs { m[key(x)] = x }\<close>: a later element replaces an earlier one of the
  same key.
\<close>

definition index_by :: "('a \<Rightarrow> 'k) \<Rightarrow> 'a list \<Rightarrow> 'k \<Rightarrow> 'a option" where
  "index_by key xs = map_of (rev (map (\<lambda>x. (key x, x)) xs))"

lemma index_by_Nil [simp]: "index_by key [] = Map.empty"
  by (simp add: index_by_def)

lemma index_by_Some_set: "index_by key xs k = Some x \<Longrightarrow> x \<in> set xs \<and> key x = k"
  by (auto simp: index_by_def dest!: map_of_SomeD)

lemma index_by_None: "index_by key xs k = None \<longleftrightarrow> k \<notin> key ` set xs"
  by (auto simp: index_by_def map_of_eq_None_iff image_iff)

lemma index_by_distinct:
  assumes "distinct (map key xs)" and "x \<in> set xs"
  shows "index_by key xs (key x) = Some x"
proof -
  have "distinct (map fst (rev (map (\<lambda>x. (key x, x)) xs)))"
    using assms(1) by (simp add: o_def rev_map[symmetric])
  moreover have "(key x, x) \<in> set (rev (map (\<lambda>x. (key x, x)) xs))"
    using assms(2) by simp
  ultimately show ?thesis unfolding index_by_def by (rule map_of_is_SomeI)
qed

lemma index_by_distinct_iff:
  "distinct (map key xs) \<Longrightarrow> index_by key xs k = Some x \<longleftrightarrow> x \<in> set xs \<and> key x = k"
  using index_by_Some_set index_by_distinct by fastforce

lemma index_by_cong_set:
  assumes "distinct (map key xs)" and "distinct (map key ys)" and "set xs = set ys"
  shows "index_by key xs = index_by key ys"
proof (rule ext)
  fix k
  have iff: "index_by key xs k = Some x \<longleftrightarrow> index_by key ys k = Some x" for x
    using assms by (simp add: index_by_distinct_iff)
  show "index_by key xs k = index_by key ys k"
  proof (cases "index_by key ys k")
    case None
    then show ?thesis using iff by (cases "index_by key xs k") auto
  next
    case (Some x)
    then show ?thesis using iff[of x] by simp
  qed
qed

lemma index_by_filter:
  "index_by key (filter (\<lambda>x. P (key x)) xs) k = (if P k then index_by key xs k else None)"
proof -
  have "map_of (rev (map (\<lambda>x. (key x, x)) (filter (\<lambda>x. P (key x)) xs))) k
      = (if P k then map_of (rev (map (\<lambda>x. (key x, x)) xs)) k else None)"
    by (induction xs rule: rev_induct) auto
  then show ?thesis by (simp add: index_by_def)
qed

lemma distinct_key_eq: "distinct (map key xs) \<Longrightarrow> x \<in> set xs \<Longrightarrow> y \<in> set xs \<Longrightarrow> key x = key y \<Longrightarrow> x = y"
  by (metis index_by_distinct option.inject)

section \<open>Package strings\<close>

text \<open>A Go string is a sequence of bytes, a HOL \<open>string\<close> a list of 8-bit characters.\<close>

fun go_split :: "char \<Rightarrow> string \<Rightarrow> string list" where
  "go_split c [] = [[]]"
| "go_split c (x # xs) =
     (if x = c then [] # go_split c xs
      else (case go_split c xs of [] \<Rightarrow> [[x]] | p # ps \<Rightarrow> (x # p) # ps))"

fun go_join :: "string \<Rightarrow> string list \<Rightarrow> string" where
  "go_join sep [] = []"
| "go_join sep [x] = x"
| "go_join sep (x # y # xs) = x @ sep @ go_join sep (y # xs)"

text \<open>\<open>strings.Cut\<close> with a one-byte separator: before, after and whether it was found.\<close>

definition go_cut :: "char \<Rightarrow> string \<Rightarrow> string \<times> string \<times> bool" where
  "go_cut c s = (takeWhile (\<lambda>x. x \<noteq> c) s, drop 1 (dropWhile (\<lambda>x. x \<noteq> c) s), c \<in> set s)"

definition has_prefix :: "string \<Rightarrow> string \<Rightarrow> bool" where
  "has_prefix s p \<longleftrightarrow> take (length p) s = p"

definition trim_suffix :: "string \<Rightarrow> string \<Rightarrow> string" where
  "trim_suffix s p =
     (if length p \<le> length s \<and> drop (length s - length p) s = p
      then take (length s - length p) s else s)"

text \<open>
  \<open>strings.ToLower\<close>, as far as a comparison of its result with an ASCII word can tell: the
  ASCII capitals, and the two code points outside ASCII whose lower case is an ASCII letter,
  U+0130 (bytes C4 B0) and U+212A (bytes E2 84 AA). Every other code point outside ASCII has
  its lower case outside ASCII, so it is left as it is here.
\<close>

definition ascii_lower :: "char \<Rightarrow> char" where
  "ascii_lower c = (if 65 \<le> (of_char c :: nat) \<and> (of_char c :: nat) \<le> 90 then char_of (of_char c + 32 :: nat) else c)"

fun to_lower :: "string \<Rightarrow> string" where
  "to_lower (a # b # c # s) =
     (if of_char a = (196 :: nat) \<and> of_char b = (176 :: nat) then CHR ''i'' # to_lower (c # s)
      else if of_char a = (226 :: nat) \<and> of_char b = (132 :: nat) \<and> of_char c = (170 :: nat) then CHR ''k'' # to_lower s
      else ascii_lower a # to_lower (b # c # s))"
| "to_lower [a, b] =
     (if of_char a = (196 :: nat) \<and> of_char b = (176 :: nat) then ''i''
      else [ascii_lower a, ascii_lower b])"
| "to_lower [a] = [ascii_lower a]"
| "to_lower [] = []"

lemma go_split_not_Nil [simp]: "go_split c s \<noteq> []"
  by (induction s) (auto split: list.splits)

lemma go_split_no_sep [string_simps]: "c \<notin> set s \<Longrightarrow> go_split c s = [s]"
  by (induction s) auto

lemma go_split_append [string_simps]: "c \<notin> set s \<Longrightarrow> go_split c (s @ c # t) = s # go_split c t"
  by (induction s) auto

lemma go_split_parts: "p \<in> set (go_split c s) \<Longrightarrow> c \<notin> set p"
  by (induction s arbitrary: p) (auto split: list.splits if_splits)

lemma go_join_split: "go_join [c] (go_split c s) = s"
proof (induction s)
  case Nil
  then show ?case by simp
next
  case (Cons x s)
  obtain p ps where split: "go_split c s = p # ps"
    by (cases "go_split c s") auto
  with Cons show ?case by (cases ps) auto
qed

lemma go_split_join:
  "ps \<noteq> [] \<Longrightarrow> (\<And>p. p \<in> set ps \<Longrightarrow> c \<notin> set p) \<Longrightarrow> go_split c (go_join [c] ps) = ps"
  by (induction "[c]" ps rule: go_join.induct) (auto simp: string_simps)

lemma go_cut_length: "s \<noteq> [] \<Longrightarrow> length (fst (snd (go_cut c s))) < length s"
  using length_dropWhile_le[of "\<lambda>x. x \<noteq> c" s]
  by (cases s) (simp_all add: go_cut_def less_Suc_eq_le)

lemma go_cut_no_sep [string_simps]: "c \<notin> set s \<Longrightarrow> go_cut c s = (s, [], False)"
  by (induction s) (auto simp: go_cut_def)

lemma go_cut_append [string_simps]: "c \<notin> set s \<Longrightarrow> go_cut c (s @ c # t) = (s, t, True)"
  by (induction s) (auto simp: go_cut_def)

lemma go_cut_split: "fst (go_cut c s) = hd (go_split c s)"
  by (induction s) (auto simp: go_cut_def split: list.splits)

text \<open>The decimal text of a number.\<close>

fun show_nat :: "nat \<Rightarrow> string" where
  "show_nat n = (if n < 10 then [char_of (48 + n)] else show_nat (n div 10) @ [char_of (48 + n mod 10)])"

declare show_nat.simps [simp del]

definition show_int :: "int \<Rightarrow> string" where
  "show_int i = (if i < 0 then ''-'' @ show_nat (nat (- i)) else show_nat (nat i))"

end
