(* ===== verification/GoErrors.thy ===== *)
theory GoErrors
  imports Prelude
begin

text \<open>
  Error values. A Go error is a tree: \<open>fmt.Errorf\<close> with a \<open>%w\<close> verb wraps one error,
  \<open>errors.Join\<close> wraps several, and \<open>errors.Is\<close> and \<open>errors.As\<close> walk the tree in
  pre-order. The text of a message is replaced by a \<open>site\<close>: one constructor for each
  \<open>errors.New\<close> or \<open>fmt.Errorf\<close> of the sources, holding what its verbs print.
\<close>

section \<open>Types as messages print them\<close>

text \<open>
  A \<open>reflect.Type\<close>: a pointer, a defined type whose underlying type is a pointer, or any
  other type, known by its number in the program's universe of types (theory GoTypes).
\<close>

datatype rtype = Ptr rtype | DefPtr nat rtype | Ty nat

section \<open>Sites\<close>

datatype relation_site =
    NotATableReference string
  | RelationHasNoDataset
  | RelationHasNoTable
  | QuotedInput string
  | NotATableParent string

datatype tag_site =
    UnknownTagOption string
  | OptionsConflict string string
  | RequiredNullIfZeroConflict
  | ClusterNotAPosition string
  | ClusterOutOfRange int
  | PartitionGranularity string
  | PartitionUnknownOption string
  | TableMetaCarries string
  | LabelNotKeyValue string
  | LabelKeyEmpty string
  | LabelTwice string

datatype plan_site =
    InField string
  | InType rtype
  | NotAStruct rtype
  | NoUsableFields rtype
  | TwoPartitionColumns string string
  | ClusterPositionTaken string string nat
  | ClusterPositionMissing nat nat
  | PartitionColumnType string
  | PartitionColumnRepeated string
  | PartitionDateByHour string
  | ClusterColumnType string
  | ClusterColumnRepeated string
  | RegisteredRecord rtype
  | FieldMarshalerRecord rtype
  | RecordNeedsStruct rtype
  | TimeOptionNeedsTime string rtype
  | TimeOptionAndMarshaler string
  | MapKeyNotString rtype
  | UnsupportedType rtype
  | MarshalFuncPointer rtype
  | MarshalFuncNil rtype

datatype marshal_site =
    InColumn string
  | InElement nat
  | NilRow rtype
  | ExpectedType rtype
  | CannotEncodeJSON "rtype option"
  | CannotConvert rtype
  | NotFieldMarshaler rtype
  | NilMapRow
  | NotAMapRow rtype
  | UndeclaredColumn string
  | RequiredNull
  | RepeatedNeedsSlice rtype
  | NullElement nat
  | RegisteredTypeMismatch rtype string string
  | FieldMarshalerMismatch rtype string string
  | ColumnNeeds string rtype
  | CannotWriteInto rtype string
  | RecordNeedsMap rtype
  | RecordWithoutPlan string
  | Uint64Overflow
  | NaNInteger
  | InfInteger
  | FloatOverflow
  | FloatFraction
  | MarshalerGivenOther rtype
  | MarshalerGivenNil rtype
  | ReflectPanics

datatype encode_site =
    NoSuchColumn string
  | EncodeRow
  | RequiredColumnNull
  | RepeatedNeedsValues
  | RecordNeedsValues
  | JSONNeedsText
  | JSONInvalid string
  | NilRat

datatype migration_site =
    ConflictList "string list"
  | IgnoreColumnEmpty nat
  | ReadMetadata
  | MigrateRelation
  | TableMissing
  | CreateRelation
  | CannotAddRequired "string list"
  | UpdateSchema
  | RefuseToDrop
  | DropColumnsFrom "string list"
  | ColumnNameEmpty
  | ColumnNameChar string char
  | RunStatement
  | WaitForJob
  | JobFailed

datatype writer_site =
    NegativeFlushRows int
  | InLoadJobs
  | ClientIsNil
  | InNewWriter
  | NoColumnsInSchema
  | SchemaAlreadyBound
  | InStorageWriter
  | NoSchemaBound
  | RowsDidNotLand nat
  | SubmitLoadJob
  | WaitForLoadJob
  | LoadJobFailed
  | StageRows
  | StreamNameAndType
  | StreamTypeUnsupported string
  | StreamTypeUnknown string
  | StreamNameSite string
  | StreamBelongsElsewhere string string string
  | ConvertSchema
  | DeriveDescriptor
  | NotAMessageDescriptor
  | NormalizeDescriptor
  | OpenClient string
  | OpenStream string
  | OpenStreamAndClose string
  | AppendRowsSite nat string
  | FitRow
  | MarshalTheRow
  | RowsRejected nat string "(string \<times> string \<times> string) list"
  | CloseStream
  | CloseClient

datatype sinker_site =
    InSinker
  | WriterIsNil
  | DeclarationSaysNothing
  | RelationOfWriter
  | StrategyIsNil
  | InOption string
  | LoggerIsNil
  | NotReconcilable
  | NotCreatable
  | MetadataIsNil
  | MetadataHasNoSchema
  | MissingColumns rtype "string list"
  | SetsAlready rtype string
  | ValueReceiver_FillRow rtype
  | RowsIsNil
  | RowIsNil nat
  | MixedTypes nat rtype rtype
  | WrongRowType rtype rtype
  | NoResult nat
  | ShortWrite int nat
  | CannotWriteNil rtype
  | NoLongerFiller rtype
  | FillARow rtype
  | GenerateID

datatype staging_site =
    StagingClientNil
  | StagingBucketEmpty
  | StagingBucketScheme string
  | WriteObject string
  | FinishObject string
  | DeleteObject string

datatype site =
    RelationSite relation_site
  | TagSite tag_site
  | PlanSite plan_site
  | MarshalSite marshal_site
  | EncodeSite encode_site
  | MigrationSite migration_site
  | WriterSite writer_site
  | SinkerSite sinker_site
  | StagingSite staging_site

section \<open>Error values\<close>

text \<open>The sentinels of bqsink.go.\<close>

datatype sentinel = ErrSchemaConflict | ErrTableMissing | ErrWriterClosed

text \<open>The codes of package grpc/codes.\<close>

datatype grpc_code =
    OK | Canceled | Unknown | InvalidArgument | DeadlineExceeded | NotFound | AlreadyExists
  | PermissionDenied | ResourceExhausted | FailedPrecondition | Aborted | OutOfRange
  | Unimplemented | Internal | Unavailable | DataLoss | Unauthenticated

text \<open>
  \<open>EApi c\<close> is a \<open>*googleapi.Error\<close> with HTTP code \<open>c\<close>, \<open>EGrpc c\<close> an error carrying a
  gRPC status, \<open>EOther\<close> any other error that comes from outside the package.
\<close>

datatype gerr =
    EMsg site
  | ESentinel sentinel
  | EApi int
  | EGrpc grpc_code
  | EOther string
  | EWrap site gerr
  | EJoin "gerr list"

fun error_chain :: "gerr \<Rightarrow> gerr list" where
  "error_chain (EWrap s e) = EWrap s e # error_chain e"
| "error_chain (EJoin es) = EJoin es # concat (map error_chain es)"
| "error_chain e = [e]"

text \<open>\<open>errors.Is(err, sentinel)\<close>.\<close>

definition errors_Is :: "gerr \<Rightarrow> sentinel \<Rightarrow> bool" where
  "errors_Is e s \<longleftrightarrow> ESentinel s \<in> set (error_chain e)"

text \<open>\<open>errors.As(err, &apiErr)\<close> with a \<open>*googleapi.Error\<close>: its code.\<close>

fun api_code_of :: "gerr \<Rightarrow> int option" where
  "api_code_of (EApi c) = Some c"
| "api_code_of e = None"

fun first_Some :: "('a \<Rightarrow> 'b option) \<Rightarrow> 'a list \<Rightarrow> 'b option" where
  "first_Some f [] = None"
| "first_Some f (x # xs) = (case f x of Some y \<Rightarrow> Some y | None \<Rightarrow> first_Some f xs)"

definition errors_As_api :: "gerr \<Rightarrow> int option" where
  "errors_As_api e = first_Some api_code_of (error_chain e)"

text \<open>
  \<open>status.Code(err)\<close>: the code of the first error of the tree carrying a status, and
  \<open>Unknown\<close> where there is none.
\<close>

fun grpc_code_of :: "gerr \<Rightarrow> grpc_code option" where
  "grpc_code_of (EGrpc c) = Some c"
| "grpc_code_of e = None"

definition status_Code :: "gerr \<Rightarrow> grpc_code" where
  "status_Code e = (case first_Some grpc_code_of (error_chain e) of Some c \<Rightarrow> c | None \<Rightarrow> Unknown)"

text \<open>\<open>errors.Join\<close> of errors that may be nil: nil when all of them are.\<close>

definition errors_Join :: "gerr option list \<Rightarrow> gerr option" where
  "errors_Join es =
     (case List.map_filter id es of [] \<Rightarrow> None | x # xs \<Rightarrow> Some (EJoin (x # xs)))"

lemma errors_Is_wrap [simp]: "errors_Is (EWrap s e) k \<longleftrightarrow> errors_Is e k"
  by (simp add: errors_Is_def)

lemma errors_Is_sentinel [simp]: "errors_Is (ESentinel a) k \<longleftrightarrow> a = k"
  by (auto simp: errors_Is_def)

lemma errors_Is_other [simp]:
  "\<not> errors_Is (EMsg s) k" "\<not> errors_Is (EApi c) k" "\<not> errors_Is (EGrpc g) k" "\<not> errors_Is (EOther t) k"
  by (auto simp: errors_Is_def)

lemma errors_Is_join [simp]: "errors_Is (EJoin es) k \<longleftrightarrow> (\<exists>e\<in>set es. errors_Is e k)"
  by (auto simp: errors_Is_def)

lemma errors_As_api_simps [simp]:
  "errors_As_api (EApi c) = Some c"
  "errors_As_api (EWrap s e) = errors_As_api e"
  "errors_As_api (EMsg s) = None"
  "errors_As_api (ESentinel k) = None"
  "errors_As_api (EGrpc g) = None"
  "errors_As_api (EOther t) = None"
  by (simp_all add: errors_As_api_def)

lemma status_Code_simps [simp]:
  "status_Code (EGrpc c) = c"
  "status_Code (EWrap s e) = status_Code e"
  "status_Code (EMsg s) = Unknown"
  "status_Code (ESentinel k) = Unknown"
  "status_Code (EApi a) = Unknown"
  "status_Code (EOther t) = Unknown"
  by (simp_all add: status_Code_def)

lemma errors_Join_None: "errors_Join es = None \<longleftrightarrow> (\<forall>e\<in>set es. e = None)"
  by (induction es) (auto simp: errors_Join_def List.map_filter_def split: list.splits)

lemma errors_Join_Some:
  "errors_Join es = Some e \<longleftrightarrow>
     e = EJoin (List.map_filter id es) \<and> List.map_filter id es \<noteq> []"
  by (auto simp: errors_Join_def split: list.splits)

end
