(* ===== verification/Relations.thy ===== *)
theory Relations
  imports GoErrors
begin

text \<open>
  relation.go: the reference to the destination table, its two textual forms and the parser
  of standard SQL notation; and the parser of a stream's table parent in storagewrite.go.
\<close>

record Relation =
  ProjectID :: string
  DatasetID :: string
  TableID :: string

definition validate_relation :: "Relation \<Rightarrow> gerr option" where
  "validate_relation r =
     (if DatasetID r = [] then Some (EMsg (RelationSite RelationHasNoDataset))
      else if TableID r = [] then Some (EMsg (RelationSite RelationHasNoTable))
      else None)"

fun relation_of_parts :: "string list \<Rightarrow> Relation option" where
  "relation_of_parts [p, d, t] = Some \<lparr>ProjectID = p, DatasetID = d, TableID = t\<rparr>"
| "relation_of_parts [d, t] = Some \<lparr>ProjectID = [], DatasetID = d, TableID = t\<rparr>"
| "relation_of_parts parts = None"

definition ParseRelation :: "string \<Rightarrow> gerr + Relation" where
  "ParseRelation s =
     (case relation_of_parts (go_split CHR ''.'' s) of
        None \<Rightarrow> Inl (EMsg (RelationSite (NotATableReference s)))
      | Some r \<Rightarrow>
          (case validate_relation r of
             Some e \<Rightarrow> Inl (EWrap (RelationSite (QuotedInput s)) e)
           | None \<Rightarrow> Inr r))"

definition relation_String :: "Relation \<Rightarrow> string" where
  "relation_String r =
     (if ProjectID r = [] then DatasetID r @ ''.'' @ TableID r
      else ProjectID r @ ''.'' @ DatasetID r @ ''.'' @ TableID r)"

text \<open>The backquote, CHR 0x60.\<close>

abbreviation backquote :: char where "backquote \<equiv> CHR 0x60"

definition quoted :: "Relation \<Rightarrow> string" where
  "quoted r =
     [backquote] @ ProjectID r @ ''.'' @ DatasetID r @ ''.'' @ TableID r @ [backquote]"

fun table_parent_parts :: "string list \<Rightarrow> Relation option" where
  "table_parent_parts [a, p, b, d, c, t] =
     (if a = ''projects'' \<and> b = ''datasets'' \<and> c = ''tables''
      then Some \<lparr>ProjectID = p, DatasetID = d, TableID = t\<rparr> else None)"
| "table_parent_parts parts = None"

definition parseTableParent :: "string \<Rightarrow> gerr + Relation" where
  "parseTableParent parent =
     (case table_parent_parts (go_split CHR ''/'' parent) of
        None \<Rightarrow> Inl (EMsg (RelationSite (NotATableParent parent)))
      | Some r \<Rightarrow> Inr r)"

section \<open>What a name may hold\<close>

definition dot_free :: "Relation \<Rightarrow> bool" where
  "dot_free r \<longleftrightarrow> CHR ''.'' \<notin> set (ProjectID r) \<and> CHR ''.'' \<notin> set (DatasetID r)
     \<and> CHR ''.'' \<notin> set (TableID r)"

lemma relation_of_parts_Some:
  "relation_of_parts ps = Some r \<longleftrightarrow>
     ps = [ProjectID r, DatasetID r, TableID r] \<or> ps = [DatasetID r, TableID r] \<and> ProjectID r = []"
  by (cases ps rule: relation_of_parts.cases) auto

lemma table_parent_parts_Some:
  "table_parent_parts ps = Some r \<longleftrightarrow>
     ps = [''projects'', ProjectID r, ''datasets'', DatasetID r, ''tables'', TableID r]"
  by (cases ps rule: table_parent_parts.cases) auto

lemma ParseRelation_Inr:
  "ParseRelation s = Inr r \<longleftrightarrow>
     relation_of_parts (go_split CHR ''.'' s) = Some r \<and> validate_relation r = None"
  by (auto simp: ParseRelation_def split: option.splits)

lemma relation_of_split_String:
  "dot_free r \<Longrightarrow> relation_of_parts (go_split CHR ''.'' (relation_String r)) = Some r"
  by (auto simp: relation_String_def dot_free_def relation_of_parts_Some string_simps)

text \<open>
  A valid reference whose names hold no dot, which BigQuery's own naming rules
  guarantee, survives being printed in standard SQL notation and parsed back.
\<close>

theorem ParseRelation_String:
  assumes "validate_relation r = None" and "dot_free r"
  shows "ParseRelation (relation_String r) = Inr r"
  using assms by (simp add: ParseRelation_Inr relation_of_split_String)

theorem ParseRelation_String_witness:
  "ParseRelation (relation_String \<lparr>ProjectID = ''p'', DatasetID = ''d'', TableID = ''t''\<rparr>)
     = Inr \<lparr>ProjectID = ''p'', DatasetID = ''d'', TableID = ''t''\<rparr>"
  by (rule ParseRelation_String) (simp_all add: validate_relation_def dot_free_def)

text \<open>
  Whatever is accepted names a dataset and a table, holds no dot in any part, and is
  the text it was parsed from, up to the dot in front of an empty project.
\<close>

theorem ParseRelation_sound:
  "ParseRelation s = Inr r \<Longrightarrow>
     validate_relation r = None \<and> dot_free r
     \<and> (s = relation_String r \<or> s = ''.'' @ relation_String r \<and> ProjectID r = [])"
proof -
  assume "ParseRelation s = Inr r"
  then have parts: "relation_of_parts (go_split CHR ''.'' s) = Some r"
    and valid: "validate_relation r = None"
    by (simp_all add: ParseRelation_Inr)
  have free: "CHR ''.'' \<notin> set p" if "p \<in> set (go_split CHR ''.'' s)" for p
    using that by (rule go_split_parts)
  have "s = go_join ''.'' (go_split CHR ''.'' s)"
    by (simp add: go_join_split)
  with parts valid free show ?thesis
    unfolding relation_of_parts_Some by (auto simp: relation_String_def dot_free_def)
qed

theorem ParseRelation_sound_witness:
  "relation_String \<lparr>ProjectID = [], DatasetID = ''d'', TableID = ''t''\<rparr> = ''d.t''"
proof -
  have parsed: "ParseRelation ''d.t'' = Inr \<lparr>ProjectID = [], DatasetID = ''d'', TableID = ''t''\<rparr>"
    by (simp add: ParseRelation_def validate_relation_def)
  show ?thesis using ParseRelation_sound [OF parsed] by (simp add: relation_String_def)
qed

lemma parseTableParent_Inr:
  "parseTableParent parent = Inr r \<longleftrightarrow>
     go_split CHR ''/'' parent = [''projects'', ProjectID r, ''datasets'', DatasetID r, ''tables'', TableID r]"
  by (auto simp: parseTableParent_def table_parent_parts_Some split: option.splits)

end
