(* ===== verification/Schemas.thy ===== *)
theory Schemas
  imports Relations
begin

text \<open>
  The parts of the BigQuery client's data that the sources read and write: column types,
  column schemas and table metadata; the log records the package emits; and the functions of
  migration.go on a schema or on metadata alone.
\<close>

section \<open>Column types and schemas\<close>

text \<open>\<open>bigquery.FieldType\<close> is a string; its constants are constructors here.\<close>

datatype FieldType =
    StringFieldType | BytesFieldType | IntegerFieldType | FloatFieldType | BooleanFieldType
  | TimestampFieldType | RecordFieldType | DateFieldType | TimeFieldType | DateTimeFieldType
  | NumericFieldType | GeographyFieldType | BigNumericFieldType | IntervalFieldType
  | JSONFieldType | RangeFieldType | OtherFieldType string

text \<open>The text of each constant, which is what a message prints.\<close>

fun FieldType_text :: "FieldType \<Rightarrow> string" where
  "FieldType_text StringFieldType = ''STRING''"
| "FieldType_text BytesFieldType = ''BYTES''"
| "FieldType_text IntegerFieldType = ''INTEGER''"
| "FieldType_text FloatFieldType = ''FLOAT''"
| "FieldType_text BooleanFieldType = ''BOOLEAN''"
| "FieldType_text TimestampFieldType = ''TIMESTAMP''"
| "FieldType_text RecordFieldType = ''RECORD''"
| "FieldType_text DateFieldType = ''DATE''"
| "FieldType_text TimeFieldType = ''TIME''"
| "FieldType_text DateTimeFieldType = ''DATETIME''"
| "FieldType_text NumericFieldType = ''NUMERIC''"
| "FieldType_text GeographyFieldType = ''GEOGRAPHY''"
| "FieldType_text BigNumericFieldType = ''BIGNUMERIC''"
| "FieldType_text IntervalFieldType = ''INTERVAL''"
| "FieldType_text JSONFieldType = ''JSON''"
| "FieldType_text RangeFieldType = ''RANGE''"
| "FieldType_text (OtherFieldType s) = s"

text \<open>
  \<open>bigquery.FieldSchema\<close>, with the fields the sources use; the others (policy tags,
  precision, collation and so on) are copied along with the whole struct and never looked at.
\<close>

datatype FieldSchema =
  FieldSchema (fs_Name: string) (fs_Type: FieldType) (fs_Required: bool) (fs_Repeated: bool)
    (fs_Description: string) (fs_Scale: int) (fs_Schema: "FieldSchema list")

type_synonym Schema = "FieldSchema list"

fun with_Required :: "bool \<Rightarrow> FieldSchema \<Rightarrow> FieldSchema" where
  "with_Required b (FieldSchema n t r p d c s) = FieldSchema n t b p d c s"

lemma with_Required_sel [simp]:
  "fs_Name (with_Required b f) = fs_Name f"
  "fs_Type (with_Required b f) = fs_Type f"
  "fs_Required (with_Required b f) = b"
  "fs_Repeated (with_Required b f) = fs_Repeated f"
  "fs_Description (with_Required b f) = fs_Description f"
  "fs_Scale (with_Required b f) = fs_Scale f"
  "fs_Schema (with_Required b f) = fs_Schema f"
  by (cases f; simp)+

lemma with_Required_same: "fs_Required f = b \<Longrightarrow> with_Required b f = f"
  by (cases f) auto

lemma size_fs_Schema [termination_simp]: "size_list size (fs_Schema f) < size f"
  by (cases f) simp

lemma size_in_schema [termination_simp]:
  "f \<in> set s \<Longrightarrow> size_list size (fs_Schema f) < size_list size s"
  using size_fs_Schema[of f] size_list_estimation[of f s "size_list size (fs_Schema f)" size]
  by simp

text \<open>\<open>namesOf\<close> of migration.go.\<close>

definition namesOf :: "Schema \<Rightarrow> string list" where
  "namesOf schema = map fs_Name schema"

definition requiredNames :: "Schema \<Rightarrow> string list" where
  "requiredNames schema = map fs_Name (filter fs_Required schema)"

lemma set_namesOf [simp]: "set (namesOf s) = fs_Name ` set s"
  by (simp add: namesOf_def)

lemma namesOf_append [simp]: "namesOf (s @ t) = namesOf s @ namesOf t"
  by (simp add: namesOf_def)

lemma requiredNames_Nil: "requiredNames s = [] \<longleftrightarrow> (\<forall>f\<in>set s. \<not> fs_Required f)"
  by (simp add: requiredNames_def filter_empty_conv)

text \<open>
  A schema BigQuery can hold names no column twice, at any depth.
\<close>

fun wf_schema :: "Schema \<Rightarrow> bool" where
  "wf_schema s \<longleftrightarrow> distinct (map fs_Name s) \<and> (\<forall>f\<in>set s. wf_schema (fs_Schema f))"

declare wf_schema.simps [simp del]

lemma wf_schema_Nil [simp]: "wf_schema []"
  by (simp add: wf_schema.simps[of "[]"])

lemma wf_schema_Cons [simp]:
  "wf_schema (f # s) \<longleftrightarrow> fs_Name f \<notin> fs_Name ` set s \<and> wf_schema (fs_Schema f) \<and> wf_schema s"
  by (auto simp: wf_schema.simps[of "f # s"] wf_schema.simps[of s])

lemma wf_schemaD:
  "wf_schema s \<Longrightarrow> distinct (namesOf s)"
  "wf_schema s \<Longrightarrow> f \<in> set s \<Longrightarrow> wf_schema (fs_Schema f)"
  by (simp_all add: wf_schema.simps[of s] namesOf_def)

section \<open>Table metadata\<close>

datatype partitioning_type =
  DayPartitioningType | HourPartitioningType | MonthPartitioningType | YearPartitioningType

record TimePartitioning =
  tp_Field :: string
  tp_Type :: partitioning_type

text \<open>
  \<open>bigquery.TableMetadata\<close>. \<open>md_Schema\<close> is \<open>None\<close> for a nil slice; a time is \<open>None\<close> for
  the zero time and the pointers to definitions and to the streaming buffer are \<open>None\<close> for
  nil, what they hold being of no interest here; \<open>md_Other\<close> stands for the fields no line of
  the sources mentions.
\<close>

record TableMetadata =
  md_Schema :: "Schema option"
  md_Description :: string
  md_Labels :: "(string \<times> string) list"
  md_TimePartitioning :: "TimePartitioning option"
  md_RangePartitioning :: "string option"
  md_Clustering :: "string list option"
  md_RequirePartitionFilter :: bool
  md_FullID :: string
  md_Type :: string
  md_CreationTime :: "int option"
  md_LastModifiedTime :: "int option"
  md_NumBytes :: int
  md_NumLongTermBytes :: int
  md_NumRows :: int
  md_SnapshotDefinition :: "string option"
  md_CloneDefinition :: "string option"
  md_StreamingBuffer :: "string option"
  md_ETag :: string
  md_Other :: string

definition empty_metadata :: TableMetadata where
  "empty_metadata =
     \<lparr>md_Schema = None, md_Description = [], md_Labels = [], md_TimePartitioning = None,
      md_RangePartitioning = None, md_Clustering = None, md_RequirePartitionFilter = False,
      md_FullID = [], md_Type = [], md_CreationTime = None, md_LastModifiedTime = None,
      md_NumBytes = 0, md_NumLongTermBytes = 0, md_NumRows = 0, md_SnapshotDefinition = None,
      md_CloneDefinition = None, md_StreamingBuffer = None, md_ETag = [], md_Other = []\<rparr>"

definition columns_of :: "TableMetadata \<Rightarrow> Schema" where
  "columns_of md = (case md_Schema md of None \<Rightarrow> [] | Some s \<Rightarrow> s)"

definition clearReadOnlyTableMetadata :: "TableMetadata \<Rightarrow> TableMetadata" where
  "clearReadOnlyTableMetadata md =
     md\<lparr>md_FullID := [], md_Type := [], md_CreationTime := None, md_LastModifiedTime := None,
        md_NumBytes := 0, md_NumLongTermBytes := 0, md_NumRows := 0,
        md_SnapshotDefinition := None, md_CloneDefinition := None, md_StreamingBuffer := None,
        md_ETag := []\<rparr>"

text \<open>\<open>(*Sinker).newTableMetadata\<close>, given the Sinker's metadata and schema.\<close>

definition newTableMetadata :: "TableMetadata option \<Rightarrow> Schema \<Rightarrow> TableMetadata" where
  "newTableMetadata metadata schema =
     (let md = (case metadata of None \<Rightarrow> empty_metadata | Some m \<Rightarrow> m)
      in clearReadOnlyTableMetadata (md\<lparr>md_Schema := Some schema\<rparr>))"

lemma newTableMetadata_columns [simp]: "columns_of (newTableMetadata m s) = s"
  by (simp add: newTableMetadata_def clearReadOnlyTableMetadata_def columns_of_def Let_def)

section \<open>Log records\<close>

text \<open>
  One constructor per call of the logger, holding its attributes; the relation every record
  carries is left out.
\<close>

datatype level = LevelDebug | LevelInfo | LevelWarn

datatype log_event =
    LeavesAsItIs "string list" "string list" "string list"
  | KeepsUndeclared "string list"
  | IgnoredDiffer "string list"
  | Compared "string list" "string list" "string list" nat
  | DoesNotExistYet
  | NeedsNoChange
  | CreatedTable "string list"
  | BroughtUp "string list" "string list"
  | DroppedColumns "string list"
  | Retrying string nat gerr
  | NeverChecked
  | LoadingRows nat nat
  | SubmittedLoadJob string
  | LoadJobFinished string
  | StagedRows string nat
  | CouldNotRemoveStaged string gerr
  | OpenedStream string
  | AppendedRows nat
  | CouldNotCloseClient gerr

fun level_of :: "log_event \<Rightarrow> level" where
  "level_of (LeavesAsItIs _ _ _) = LevelWarn"
| "level_of (KeepsUndeclared _) = LevelInfo"
| "level_of (IgnoredDiffer _) = LevelWarn"
| "level_of (Compared _ _ _ _) = LevelDebug"
| "level_of DoesNotExistYet = LevelDebug"
| "level_of NeedsNoChange = LevelDebug"
| "level_of (CreatedTable _) = LevelInfo"
| "level_of (BroughtUp _ _) = LevelInfo"
| "level_of (DroppedColumns _) = LevelWarn"
| "level_of (Retrying _ _ _) = LevelWarn"
| "level_of NeverChecked = LevelWarn"
| "level_of (LoadingRows _ _) = LevelDebug"
| "level_of (SubmittedLoadJob _) = LevelInfo"
| "level_of (LoadJobFinished _) = LevelInfo"
| "level_of (StagedRows _ _) = LevelDebug"
| "level_of (CouldNotRemoveStaged _ _) = LevelWarn"
| "level_of (OpenedStream _) = LevelDebug"
| "level_of (AppendedRows _) = LevelDebug"
| "level_of (CouldNotCloseClient _) = LevelWarn"

end
