(* ===== verification/GoTypes.thy ===== *)
theory GoTypes
  imports Schemas
begin

text \<open>
  The part of package reflect the sources look at. A type that is not a pointer is a number in a
  universe, which gives what \<open>reflect.Type\<close> answers about it: its kind, element and key types,
  its fields, and which of the package's interfaces its values or pointers to them implement.
  Pointers are constructors, so that following them ends; a pointer type defined as a pointer
  to itself, which Go allows and no value can usefully have, is left out.
\<close>

section \<open>Types\<close>

datatype kind =
    KBool | KInt | KInt8 | KInt16 | KInt32 | KInt64 | KUint | KUint8 | KUint16 | KUint32 | KUint64
  | KUintptr | KFloat32 | KFloat64 | KComplex64 | KComplex128 | KArray | KChan | KFunc | KInterface
  | KMap | KPointer | KSlice | KString | KStruct | KUnsafePointer

text \<open>
  \<open>reflect.StructField\<close>. The tag is given by what its \<open>Lookup\<close> finds under each key.
\<close>

record StructField =
  sf_Name :: string
  sf_Type :: rtype
  sf_Anonymous :: bool
  sf_Exported :: bool
  sf_Tag :: "(string \<times> string) list"

definition tag_Lookup :: "(string \<times> string) list \<Rightarrow> string \<Rightarrow> string option" where
  "tag_Lookup tag key = map_of tag key"

definition tag_Get :: "(string \<times> string) list \<Rightarrow> string \<Rightarrow> string" where
  "tag_Get tag key = (case map_of tag key of None \<Rightarrow> [] | Some v \<Rightarrow> v)"

text \<open>
  Where a type implements an interface, its methods have value receivers, and then pointers
  implement it as well, or only pointers do.
\<close>

datatype receiver = ValueReceiver | PointerReceiver

text \<open>
  \<open>ti_FieldMarshaler\<close> and \<open>ti_TableDefiner\<close> carry what the methods \<open>BigQueryFieldType\<close> and
  \<open>BigQueryTableMetadata\<close> answer on a zero value.
\<close>

record type_info =
  ti_kind :: kind
  ti_elem :: rtype
  ti_key :: rtype
  ti_fields :: "StructField list"
  ti_RowFiller :: "receiver option"
  ti_FieldMarshaler :: "(receiver \<times> FieldType) option"
  ti_TableDefiner :: "(receiver \<times> TableMetadata option) option"
  ti_IsZero :: "receiver option"

type_synonym types = "nat \<Rightarrow> type_info"

text \<open>The types the sources name.\<close>

definition typeTime :: rtype where "typeTime = Ty 0"
definition typeDate :: rtype where "typeDate = Ty 1"
definition typeCivilTime :: rtype where "typeCivilTime = Ty 2"
definition typeDateTime :: rtype where "typeDateTime = Ty 3"
definition typeRat :: rtype where "typeRat = Ty 4"
definition typeRawMessage :: rtype where "typeRawMessage = Ty 5"
definition typeTableMeta :: rtype where "typeTableMeta = Ty 6"
definition typeMapStringAny :: rtype where "typeMapStringAny = Ty 7"
definition typeByteSlice :: rtype where "typeByteSlice = Ty 8"
definition typeAnySlice :: rtype where "typeAnySlice = Ty 9"

lemmas named_types = typeTime_def typeDate_def typeCivilTime_def typeDateTime_def typeRat_def
  typeRawMessage_def typeTableMeta_def typeMapStringAny_def typeByteSlice_def typeAnySlice_def

fun kind_of :: "types \<Rightarrow> rtype \<Rightarrow> kind" where
  "kind_of u (Ty n) = ti_kind (u n)"
| "kind_of u (Ptr t) = KPointer"
| "kind_of u (DefPtr n t) = KPointer"

text \<open>\<open>Elem\<close> and \<open>Key\<close>; the former of a pointer is what it points to.\<close>

fun elem_of :: "types \<Rightarrow> rtype \<Rightarrow> rtype" where
  "elem_of u (Ty n) = ti_elem (u n)"
| "elem_of u (Ptr t) = t"
| "elem_of u (DefPtr n t) = t"

fun key_of :: "types \<Rightarrow> rtype \<Rightarrow> rtype" where
  "key_of u (Ty n) = ti_key (u n)"
| "key_of u t = t"

fun fields_of :: "types \<Rightarrow> rtype \<Rightarrow> StructField list" where
  "fields_of u (Ty n) = ti_fields (u n)"
| "fields_of u t = []"

text \<open>\<open>deref\<close> of schema.go.\<close>

fun deref :: "rtype \<Rightarrow> rtype" where
  "deref (Ptr t) = deref t"
| "deref (DefPtr n t) = deref t"
| "deref (Ty n) = Ty n"

lemma deref_idem [simp]: "deref (deref t) = deref t"
  by (induction t) auto

lemma deref_Ty: "\<exists>n. deref t = Ty n"
  by (induction t) auto

lemma deref_not_pointer: "deref t \<noteq> Ptr t'" "deref t \<noteq> DefPtr n t'"
  using deref_Ty[of t] by auto

definition isByteSequence :: "types \<Rightarrow> rtype \<Rightarrow> bool" where
  "isByteSequence u t \<longleftrightarrow> kind_of u (elem_of u t) = KUint8"

definition isRepeated :: "types \<Rightarrow> rtype \<Rightarrow> bool" where
  "isRepeated u t \<longleftrightarrow>
     (case kind_of u t of KSlice \<Rightarrow> \<not> isByteSequence u t | KArray \<Rightarrow> \<not> isByteSequence u t | _ \<Rightarrow> False)"

section \<open>Method sets\<close>

text \<open>
  Whether values of a type implement an interface, given where the methods of the numbered types
  are: a pointer to such a type has the methods of both receivers, a pointer to a pointer and a
  defined pointer type have none.
\<close>

fun implements :: "(type_info \<Rightarrow> receiver option) \<Rightarrow> types \<Rightarrow> rtype \<Rightarrow> bool" where
  "implements m u (Ty n) \<longleftrightarrow> m (u n) = Some ValueReceiver"
| "implements m u (Ptr (Ty n)) \<longleftrightarrow> m (u n) \<noteq> None"
| "implements m u t \<longleftrightarrow> False"

lemma implements_pointer: "implements m u (Ty n) \<Longrightarrow> implements m u (Ptr (Ty n))"
  by simp

definition fieldMarshalerOf :: "types \<Rightarrow> rtype \<Rightarrow> FieldType option" where
  "fieldMarshalerOf u t =
     (case deref t of Ty n \<Rightarrow> map_option snd (ti_FieldMarshaler (u n)) | _ \<Rightarrow> None)"

text \<open>\<open>tableMetadataOf\<close> of bqsink.go: asked of a zero value, or of a pointer to one.\<close>

fun tableMetadataOf :: "types \<Rightarrow> rtype \<Rightarrow> TableMetadata option" where
  "tableMetadataOf u (Ptr (Ty n)) = (case ti_TableDefiner (u n) of Some (_, md) \<Rightarrow> md | None \<Rightarrow> None)"
| "tableMetadataOf u (DefPtr k (Ty n)) = (case ti_TableDefiner (u n) of Some (_, md) \<Rightarrow> md | None \<Rightarrow> None)"
| "tableMetadataOf u (Ty n) = (case ti_TableDefiner (u n) of Some (_, md) \<Rightarrow> md | None \<Rightarrow> None)"
| "tableMetadataOf u t = None"

text \<open>
  \<open>checkRowFiller\<close> of fill.go: \<open>Elem\<close> is taken once, so a pointer to a pointer is seen as a
  pointer.
\<close>

definition checkRowFiller :: "types \<Rightarrow> rtype \<Rightarrow> gerr + bool" where
  "checkRowFiller u rt =
     (let elem = (if kind_of u rt = KPointer then elem_of u rt else rt)
      in if \<not> implements ti_RowFiller u (Ptr elem) then Inr False
         else if implements ti_RowFiller u elem then Inl (EMsg (SinkerSite (ValueReceiver_FillRow rt)))
         else Inr True)"

end
