(* ===== verification/Tags.thy ===== *)
theory Tags
  imports GoTypes
begin

text \<open>
  The struct tags of schema.go: what a column's tag says, where the table is partitioned and
  clustered, and the labels and description an embedded TableMeta carries.
\<close>

section \<open>What tags say\<close>

text \<open>
  \<open>fieldTag\<close>. \<open>tag_partition\<close> is \<open>None\<close> for the empty granularity, \<open>tag_cluster\<close> 0 for no
  position, \<open>tag_timeType\<close> empty for none.
\<close>

record fieldTag =
  tag_name :: string
  tag_required :: bool
  tag_nullIfZero :: bool
  tag_record :: bool
  tag_skip :: bool
  tag_timeType :: string
  tag_partition :: "partitioning_type option"
  tag_requireFilter :: bool
  tag_cluster :: nat
  tag_description :: string

definition empty_tag :: fieldTag where
  "empty_tag = \<lparr>tag_name = [], tag_required = False, tag_nullIfZero = False, tag_record = False,
     tag_skip = False, tag_timeType = [], tag_partition = None, tag_requireFilter = False,
     tag_cluster = 0, tag_description = []\<rparr>"

definition TagKey :: string where "TagKey = ''bqsink''"
definition PartitionTagKey :: string where "PartitionTagKey = ''partition''"
definition ClusterTagKey :: string where "ClusterTagKey = ''cluster''"
definition DescriptionTagKey :: string where "DescriptionTagKey = ''description''"
definition LabelsTagKey :: string where "LabelsTagKey = ''labels''"

lemmas tag_keys = TagKey_def PartitionTagKey_def ClusterTagKey_def DescriptionTagKey_def LabelsTagKey_def

text \<open>The keys of \<open>timeColumnTypes\<close> and the column each asks for.\<close>

definition time_column :: "string \<Rightarrow> FieldType option" where
  "time_column opt =
     (if opt = ''date'' then Some DateFieldType
      else if opt = ''datetime'' then Some DateTimeFieldType
      else if opt = ''time'' then Some TimeFieldType
      else None)"

section \<open>The column's own tag\<close>

definition tag_option :: "string \<Rightarrow> fieldTag \<Rightarrow> gerr + fieldTag" where
  "tag_option opt tag =
     (if opt = [] then Inr tag
      else if opt = ''required'' then Inr (tag\<lparr>tag_required := True\<rparr>)
      else if opt = ''nullifzero'' then Inr (tag\<lparr>tag_nullIfZero := True\<rparr>)
      else if opt = ''record'' then Inr (tag\<lparr>tag_record := True\<rparr>)
      else if time_column opt = None then Inl (EMsg (TagSite (UnknownTagOption opt)))
      else if tag_timeType tag \<noteq> [] then Inl (EMsg (TagSite (OptionsConflict (tag_timeType tag) opt)))
      else Inr (tag\<lparr>tag_timeType := opt\<rparr>))"

lemma cut_rest_shorter: "(opt, rest, found) = go_cut c s \<Longrightarrow> s \<noteq> [] \<Longrightarrow> length rest < length s"
  using go_cut_length[of s c] by (metis fst_conv snd_conv)

text \<open>\<open>for opts != ""\<close>, cutting one option off at a time.\<close>

function tag_options :: "string \<Rightarrow> fieldTag \<Rightarrow> gerr + fieldTag" where
  "tag_options opts tag =
     (if opts = [] then Inr tag
      else (let (opt, rest, _) = go_cut CHR '','' opts
            in and_then (tag_option opt tag) (tag_options rest)))"
  by pat_completeness auto

termination
  by (relation "measure (\<lambda>(opts, tag). length opts)") (auto dest: cut_rest_shorter)

declare tag_options.simps [simp del]

definition parseTag :: "string \<Rightarrow> gerr + fieldTag" where
  "parseTag s =
     (if s = ''-'' then Inr (empty_tag\<lparr>tag_skip := True\<rparr>)
      else (let (name, opts, _) = go_cut CHR '','' s
            in and_then (tag_options opts (empty_tag\<lparr>tag_name := name\<rparr>)) (\<lambda>tag.
                 if tag_required tag \<and> tag_nullIfZero tag then Inl (EMsg (TagSite RequiredNullIfZeroConflict))
                 else if tag_record tag \<and> tag_timeType tag \<noteq> []
                   then Inl (EMsg (TagSite (OptionsConflict ''record'' (tag_timeType tag))))
                 else Inr tag)))"

section \<open>Partitioning and clustering\<close>

definition granularity :: "string \<Rightarrow> partitioning_type option" where
  "granularity g =
     (let l = to_lower g
      in if l = [] \<or> l = ''day'' then Some DayPartitioningType
         else if l = ''hour'' then Some HourPartitioningType
         else if l = ''month'' then Some MonthPartitioningType
         else if l = ''year'' then Some YearPartitioningType
         else None)"

function partition_options :: "string \<Rightarrow> fieldTag \<Rightarrow> gerr + fieldTag" where
  "partition_options opts tag =
     (if opts = [] then Inr tag
      else (let (opt, rest, _) = go_cut CHR '','' opts; l = to_lower opt
            in if l = [] then partition_options rest tag
               else if l = ''require'' then partition_options rest (tag\<lparr>tag_requireFilter := True\<rparr>)
               else Inl (EMsg (TagSite (PartitionUnknownOption opt)))))"
  by pat_completeness auto

termination
  by (relation "measure (\<lambda>(opts, tag). length opts)") (auto dest: cut_rest_shorter)

declare partition_options.simps [simp del]

definition parsePartition :: "string \<Rightarrow> fieldTag \<Rightarrow> gerr + fieldTag" where
  "parsePartition v tag =
     (let (g, rest, _) = go_cut CHR '','' v
      in case granularity g of
           None \<Rightarrow> Inl (EMsg (TagSite (PartitionGranularity g)))
         | Some p \<Rightarrow> partition_options rest (tag\<lparr>tag_partition := Some p\<rparr>))"

text \<open>
  \<open>strconv.Atoi\<close> on a 64-bit platform: an optional sign and decimal digits; \<open>None\<close> for a text
  that is not such a number or whose number does not fit.
\<close>

fun digits_value :: "string \<Rightarrow> int \<Rightarrow> int option" where
  "digits_value [] acc = Some acc"
| "digits_value (c # s) acc =
     (let n = of_char c :: nat
      in if 48 \<le> n \<and> n \<le> 57 then digits_value s (10 * acc + int (n - 48)) else None)"

definition unsigned_value :: "string \<Rightarrow> int option" where
  "unsigned_value s = (if s = [] then None else digits_value s 0)"

definition go_atoi :: "string \<Rightarrow> int option" where
  "go_atoi s =
     (let v = (case s of
                 [] \<Rightarrow> None
               | c # t \<Rightarrow> if c = CHR ''-'' then map_option uminus (unsigned_value t)
                          else if c = CHR ''+'' then unsigned_value t
                          else unsigned_value s)
      in case v of None \<Rightarrow> None | Some n \<Rightarrow> if - (2 ^ 63) \<le> n \<and> n < 2 ^ 63 then Some n else None)"

definition maxClusteringColumns :: int where
  "maxClusteringColumns = 4"

definition parseCluster :: "string \<Rightarrow> gerr + nat" where
  "parseCluster v =
     (case go_atoi v of
        None \<Rightarrow> Inl (EMsg (TagSite (ClusterNotAPosition v)))
      | Some position \<Rightarrow>
          if position < 1 \<or> position > maxClusteringColumns
          then Inl (EMsg (TagSite (ClusterOutOfRange position)))
          else Inr (nat position))"

definition parseFieldTags :: "(string \<times> string) list \<Rightarrow> gerr + fieldTag" where
  "parseFieldTags tag =
     and_then (parseTag (tag_Get tag TagKey)) (\<lambda>f.
       if tag_skip f then Inr f
       else and_then (case tag_Lookup tag PartitionTagKey of None \<Rightarrow> Inr f | Some v \<Rightarrow> parsePartition v f) (\<lambda>f.
         and_then (case tag_Lookup tag ClusterTagKey of
                     None \<Rightarrow> Inr f
                   | Some v \<Rightarrow> and_then (parseCluster v) (\<lambda>position. Inr (f\<lparr>tag_cluster := position\<rparr>))) (\<lambda>f.
           Inr (f\<lparr>tag_description := tag_Get tag DescriptionTagKey\<rparr>))))"

section \<open>The table's own tags\<close>

fun label_pairs :: "string list \<Rightarrow> (string \<times> string) list \<Rightarrow> gerr + (string \<times> string) list" where
  "label_pairs [] labels = Inr labels"
| "label_pairs (pair # pairs) labels =
     (let (key, val, ok) = go_cut CHR ''='' pair
      in if \<not> ok then Inl (EMsg (TagSite (LabelNotKeyValue pair)))
         else if key = [] then Inl (EMsg (TagSite (LabelKeyEmpty pair)))
         else if key \<in> fst ` set labels then Inl (EMsg (TagSite (LabelTwice key)))
         else label_pairs pairs (labels @ [(key, val)]))"

definition parseLabels :: "string \<Rightarrow> gerr + (string \<times> string) list" where
  "parseLabels v = label_pairs (go_split CHR '','' v) []"

record tableMetaTag =
  meta_description :: string
  meta_labels :: "(string \<times> string) list"

definition tableMeta_field :: "StructField \<Rightarrow> gerr + tableMetaTag" where
  "tableMeta_field sf =
     (case filter (\<lambda>key. tag_Lookup (sf_Tag sf) key \<noteq> None) [TagKey, PartitionTagKey, ClusterTagKey] of
        key # _ \<Rightarrow> Inl (EMsg (TagSite (TableMetaCarries key)))
      | [] \<Rightarrow>
          (let description = tag_Get (sf_Tag sf) DescriptionTagKey
           in case tag_Lookup (sf_Tag sf) LabelsTagKey of
                None \<Rightarrow> Inr \<lparr>meta_description = description, meta_labels = []\<rparr>
              | Some v \<Rightarrow> and_then (parseLabels v) (\<lambda>labels.
                  Inr \<lparr>meta_description = description, meta_labels = labels\<rparr>)))"

definition tableMetaOf :: "types \<Rightarrow> rtype \<Rightarrow> gerr + tableMetaTag" where
  "tableMetaOf u t =
     (case filter (\<lambda>sf. sf_Anonymous sf \<and> sf_Type sf = typeTableMeta) (fields_of u t) of
        [] \<Rightarrow> Inr \<lparr>meta_description = [], meta_labels = []\<rparr>
      | sf # _ \<Rightarrow> tableMeta_field sf)"

section \<open>Options in the order they are written\<close>

fun run_options :: "string list \<Rightarrow> fieldTag \<Rightarrow> gerr + fieldTag" where
  "run_options [] tag = Inr tag"
| "run_options (opt # opts) tag = and_then (tag_option opt tag) (run_options opts)"

lemma tag_option_Nil [simp]: "tag_option [] tag = Inr tag"
  by (simp add: tag_option_def)

lemma cut_cases:
  obtains "c \<notin> set s" "go_cut c s = (s, [], False)" "go_split c s = [s]"
  | a b where "s = a @ c # b" "c \<notin> set a" "go_cut c s = (a, b, True)" "go_split c s = a # go_split c b"
proof (cases "c \<in> set s")
  case True
  then obtain a b where "s = a @ c # b" "c \<notin> set a" by (meson split_list_first)
  then show ?thesis using that(2)[of a b] by (simp add: string_simps)
next
  case False
  then show ?thesis using that(1) by (simp add: string_simps)
qed

lemma tag_options_split: "tag_options opts tag = run_options (go_split CHR '','' opts) tag"
proof (induction "length opts" arbitrary: opts tag rule: less_induct)
  case less
  show ?case
  proof (cases "opts = []")
    case True
    then show ?thesis by (simp add: tag_options.simps)
  next
    case False
    show ?thesis
    proof (cases rule: cut_cases[of "CHR '',''" opts])
      case 1
      with False show ?thesis
        by (subst tag_options.simps) (simp add: tag_options.simps[of "[]"] cong: and_then_cong)
    next
      case (2 a b)
      then have "tag_options b = run_options (go_split CHR '','' b)"
        using less.hyps[of b] by auto
      with 2 False show ?thesis by (subst tag_options.simps) simp
    qed
  qed
qed

text \<open>What the options of a tag may say together.\<close>

definition tag_consistent :: "fieldTag \<Rightarrow> bool" where
  "tag_consistent t \<longleftrightarrow> \<not> (tag_required t \<and> tag_nullIfZero t) \<and> \<not> (tag_record t \<and> tag_timeType t \<noteq> [])
     \<and> (tag_timeType t = [] \<or> time_column (tag_timeType t) \<noteq> None)"

text \<open>Only the fields of the column's own tag are set.\<close>

definition column_only :: "fieldTag \<Rightarrow> bool" where
  "column_only t \<longleftrightarrow> tag_partition t = None \<and> \<not> tag_requireFilter t \<and> tag_cluster t = 0 \<and> tag_description t = []"

lemma tag_option_keeps:
  assumes "tag_option opt t = Inr t'"
  shows "tag_name t' = tag_name t" and "tag_skip t' = tag_skip t" and "column_only t' = column_only t"
    and "tag_timeType t = [] \<or> time_column (tag_timeType t) \<noteq> None \<Longrightarrow> tag_timeType t' = [] \<or> time_column (tag_timeType t') \<noteq> None"
  using assms by (auto simp: tag_option_def column_only_def split: if_splits)

lemma run_options_keeps:
  assumes "run_options opts t = Inr t'"
  shows "tag_name t' = tag_name t \<and> tag_skip t' = tag_skip t \<and> column_only t' = column_only t
    \<and> (tag_timeType t = [] \<or> time_column (tag_timeType t) \<noteq> None \<longrightarrow> tag_timeType t' = [] \<or> time_column (tag_timeType t') \<noteq> None)"
  using assms
proof (induction opts arbitrary: t)
  case (Cons opt opts)
  then obtain t1 where "tag_option opt t = Inr t1" "run_options opts t1 = Inr t'"
    by (auto simp: and_then_Inr)
  with Cons.IH tag_option_keeps show ?case by metis
qed simp

lemma parseTag_skip: "parseTag ''-'' = Inr (empty_tag\<lparr>tag_skip := True\<rparr>)"
  by (simp add: parseTag_def)

lemma parseTag_Inr:
  assumes "s \<noteq> ''-''"
  shows "parseTag s = Inr t \<longleftrightarrow>
    run_options (tl (go_split CHR '','' s)) (empty_tag\<lparr>tag_name := hd (go_split CHR '','' s)\<rparr>) = Inr t
      \<and> \<not> (tag_required t \<and> tag_nullIfZero t) \<and> \<not> (tag_record t \<and> tag_timeType t \<noteq> [])"
proof (cases rule: cut_cases[of "CHR '',''" s])
  case 1
  with assms show ?thesis
    by (auto simp: parseTag_def tag_options_split and_then_Inr split: if_splits)
next
  case (2 a b)
  with assms show ?thesis
    by (auto simp: parseTag_def tag_options_split and_then_Inr split: if_splits)
qed

lemma parseTag_sound:
  assumes "parseTag s = Inr t"
  shows "tag_consistent t \<and> column_only t \<and> (tag_skip t \<longleftrightarrow> s = ''-'')"
proof (cases "s = ''-''")
  case True
  with assms show ?thesis
    by (auto simp: parseTag_skip empty_tag_def tag_consistent_def column_only_def)
next
  case False
  with assms show ?thesis
    by (auto simp: parseTag_Inr tag_consistent_def empty_tag_def column_only_def dest!: run_options_keeps)
qed

text \<open>The text of a tag: its name and the options that hold, in a fixed order.\<close>

definition tag_words :: "fieldTag \<Rightarrow> string list" where
  "tag_words t = (if tag_required t then [''required''] else []) @ (if tag_nullIfZero t then [''nullifzero''] else [])
     @ (if tag_record t then [''record''] else []) @ (if tag_timeType t \<noteq> [] then [tag_timeType t] else [])"

definition tag_text :: "fieldTag \<Rightarrow> string" where
  "tag_text t = (if tag_skip t then ''-'' else go_join '','' (tag_name t # tag_words t))"

lemma time_column_words: "time_column w \<noteq> None \<Longrightarrow> w \<in> {''date'', ''datetime'', ''time''}"
  by (auto simp: time_column_def split: if_splits)

lemma run_tag_words:
  assumes "tag_consistent t" and "column_only t" and "\<not> tag_skip t"
  shows "run_options (tag_words t) (empty_tag\<lparr>tag_name := tag_name t\<rparr>) = Inr t"
proof -
  have "tag_timeType t = [] \<or> tag_timeType t \<in> {''date'', ''datetime'', ''time''}"
    using assms(1) time_column_words by (auto simp: tag_consistent_def)
  with assms show ?thesis
    by (cases t) (auto simp: tag_words_def tag_option_def time_column_def empty_tag_def column_only_def)
qed

text \<open>
  C40: the column's tag survives being written and read back: a consistent tag whose name holds
  no comma, and is not the lone dash that drops a field, is what its text parses to.
\<close>

theorem parseTag_tag_text:
  assumes "tag_consistent t" and "column_only t" and "\<not> tag_skip t"
    and "CHR '','' \<notin> set (tag_name t)" and "tag_name t \<noteq> ''-'' \<or> tag_words t \<noteq> []"
  shows "parseTag (tag_text t) = Inr t"
proof -
  have words: "CHR '','' \<notin> set w" if "w \<in> set (tag_words t)" for w
    using that assms(1) time_column_words[of "tag_timeType t"]
    by (auto simp: tag_words_def tag_consistent_def split: if_splits)
  then have split: "go_split CHR '','' (tag_text t) = tag_name t # tag_words t"
    using assms(3,4) go_split_join[of "tag_name t # tag_words t" "CHR '',''"] by (auto simp: tag_text_def)
  have "tag_text t \<noteq> ''-''"
  proof
    assume "tag_text t = ''-''"
    with split have "tag_name t # tag_words t = [''-'']" by simp
    with assms(5) show False by simp
  qed
  then show ?thesis
    using run_tag_words[OF assms(1-3)] assms(1) by (simp add: parseTag_Inr split tag_consistent_def)
qed

theorem parseTag_tag_text_witness:
  "parseTag ''ts,required,datetime'' = Inr (empty_tag\<lparr>tag_name := ''ts'', tag_required := True, tag_timeType := ''datetime''\<rparr>)"
proof -
  let ?t = "empty_tag\<lparr>tag_name := ''ts'', tag_required := True, tag_timeType := ''datetime''\<rparr>"
  have "tag_consistent ?t" "column_only ?t" "\<not> tag_skip ?t" "CHR '','' \<notin> set (tag_name ?t)" "tag_name ?t \<noteq> ''-'' \<or> tag_words ?t \<noteq> []"
    by (simp_all add: tag_consistent_def column_only_def empty_tag_def time_column_def)
  from parseTag_tag_text[OF this] show ?thesis
    by (simp add: tag_text_def tag_words_def empty_tag_def)
qed

section \<open>What every accepted field tag satisfies\<close>

lemma partition_options_keeps:
  "partition_options opts t = Inr t' \<Longrightarrow> tag_partition t' = tag_partition t \<and> tag_consistent t' = tag_consistent t
     \<and> tag_cluster t' = tag_cluster t \<and> tag_skip t' = tag_skip t \<and> tag_name t' = tag_name t"
proof (induction opts t rule: partition_options.induct)
  case (1 opts t)
  obtain opt rest ok where cut: "go_cut CHR '','' opts = (opt, rest, ok)" by (cases "go_cut CHR '','' opts")
  show ?case
  proof (cases "opts = []")
    case True
    with "1.prems" show ?thesis by (simp add: partition_options.simps)
  next
    case False
    from "1.prems" consider "to_lower opt = []" "partition_options rest t = Inr t'"
      | "to_lower opt = ''require''" "partition_options rest (t\<lparr>tag_requireFilter := True\<rparr>) = Inr t'"
      using False cut by (subst (asm) partition_options.simps) (auto simp: Let_def split: if_splits)
    then show ?thesis
    proof cases
      case 1
      with "1.IH"(1)[OF False cut[symmetric] refl refl] show ?thesis by simp
    next
      case 2
      with "1.IH"(2)[OF False cut[symmetric] refl refl] show ?thesis by (simp add: tag_consistent_def)
    qed
  qed
qed

lemma parsePartition_Inr:
  assumes "parsePartition v t = Inr t'"
  shows "tag_partition t' \<noteq> None \<and> tag_consistent t' = tag_consistent t \<and> tag_cluster t' = tag_cluster t
    \<and> tag_skip t' = tag_skip t \<and> tag_name t' = tag_name t"
  using assms
  by (auto simp: parsePartition_def tag_consistent_def split: prod.splits option.splits dest!: partition_options_keeps)

lemma parseCluster_Inr: "parseCluster v = Inr n \<Longrightarrow> 1 \<le> n \<and> n \<le> 4"
  by (auto simp: parseCluster_def maxClusteringColumns_def split: option.splits if_splits)

lemma parseFieldTags_sound:
  assumes "parseFieldTags tag = Inr f"
  shows "\<not> (tag_required f \<and> tag_nullIfZero f) \<and> \<not> (tag_record f \<and> tag_timeType f \<noteq> [])
    \<and> (tag_timeType f = [] \<or> time_column (tag_timeType f) \<noteq> None)
    \<and> tag_cluster f \<le> 4 \<and> (tag_requireFilter f \<longrightarrow> tag_partition f \<noteq> None)
    \<and> (tag_skip f \<longrightarrow> f = empty_tag\<lparr>tag_skip := True\<rparr>)
    \<and> (tag_skip f \<longleftrightarrow> tag_Get tag TagKey = ''-'')"
proof -
  from assms obtain f0 where f0: "parseTag (tag_Get tag TagKey) = Inr f0"
    by (auto simp: parseFieldTags_def and_then_Inr)
  note s = parseTag_sound[OF f0]
  show ?thesis
  proof (cases "tag_skip f0")
    case True
    with s f0 assms show ?thesis
      by (auto simp: parseFieldTags_def parseTag_skip empty_tag_def tag_consistent_def column_only_def)
  next
    case False
    with assms f0 obtain f1 f2 where
      f1: "(case tag_Lookup tag PartitionTagKey of None \<Rightarrow> Inr f0 | Some v \<Rightarrow> parsePartition v f0) = Inr f1"
      and f2: "(case tag_Lookup tag ClusterTagKey of None \<Rightarrow> Inr f1
        | Some v \<Rightarrow> and_then (parseCluster v) (\<lambda>position. Inr (f1\<lparr>tag_cluster := position\<rparr>))) = Inr f2"
      and f: "f = f2\<lparr>tag_description := tag_Get tag DescriptionTagKey\<rparr>"
      by (auto simp: parseFieldTags_def and_then_Inr)
    have 1: "tag_consistent f1 \<and> tag_cluster f1 = 0 \<and> \<not> tag_skip f1 \<and> (tag_requireFilter f1 \<longrightarrow> tag_partition f1 \<noteq> None)"
      using f1 s False by (auto simp: column_only_def split: option.splits dest!: parsePartition_Inr)
    have 2: "tag_consistent f2 \<and> tag_cluster f2 \<le> 4 \<and> \<not> tag_skip f2 \<and> (tag_requireFilter f2 \<longrightarrow> tag_partition f2 \<noteq> None)"
      using f2 1 by (auto simp: and_then_Inr tag_consistent_def split: option.splits dest!: parseCluster_Inr)
    with f s False show ?thesis by (auto simp: tag_consistent_def)
  qed
qed

text \<open>
  C39: whatever tags a field carries, if they are accepted they do not contradict each other: a
  column is not both REQUIRED and NULL for zero values, nor both a RECORD and a DATE, DATETIME
  or TIME; its clustering position is one of the four BigQuery allows, or none; a partition
  filter is demanded only of a partitioning column; and a dropped field says nothing else.
\<close>

theorem accepted_tags_are_consistent:
  assumes "parseFieldTags tag = Inr f"
  shows "\<not> (tag_required f \<and> tag_nullIfZero f) \<and> \<not> (tag_record f \<and> tag_timeType f \<noteq> [])
    \<and> (tag_timeType f = [] \<or> time_column (tag_timeType f) \<noteq> None)
    \<and> tag_cluster f \<le> 4 \<and> (tag_requireFilter f \<longrightarrow> tag_partition f \<noteq> None)
    \<and> (tag_skip f \<longrightarrow> f = empty_tag\<lparr>tag_skip := True\<rparr>)
    \<and> (tag_skip f \<longleftrightarrow> tag_Get tag TagKey = ''-'')"
  using parseFieldTags_sound[OF assms] .

theorem accepted_tags_are_consistent_witness:
  "\<exists>f. parseFieldTags [(''bqsink'', ''day,required''), (''partition'', ''day,require''), (''cluster'', ''2'')] = Inr f
     \<and> tag_cluster f = 2 \<and> tag_partition f \<noteq> None"
proof -
  have p: "parseFieldTags [(''bqsink'', ''day,required''), (''partition'', ''day,require''), (''cluster'', ''2'')]
    = Inr (empty_tag\<lparr>tag_name := ''day'', tag_required := True, tag_partition := Some DayPartitioningType,
        tag_requireFilter := True, tag_cluster := 2\<rparr>)"
    by (simp add: parseFieldTags_def tag_keys tag_Get_def tag_Lookup_def parseTag_def go_cut_def tag_options.simps
        tag_option_def parsePartition_def partition_options.simps granularity_def ascii_lower_def parseCluster_def
        go_atoi_def unsigned_value_def maxClusteringColumns_def empty_tag_def)
  from accepted_tags_are_consistent[OF this] p show ?thesis by auto
qed

section \<open>Labels\<close>

definition label_text :: "(string \<times> string) list \<Rightarrow> string" where
  "label_text labels = go_join '','' (map (\<lambda>(k, v). k @ ''='' @ v) labels)"

definition labels_ok :: "(string \<times> string) list \<Rightarrow> bool" where
  "labels_ok labels \<longleftrightarrow> labels \<noteq> [] \<and> distinct (map fst labels)
     \<and> (\<forall>(k, v)\<in>set labels. k \<noteq> [] \<and> CHR ''='' \<notin> set k \<and> CHR '','' \<notin> set k \<and> CHR '','' \<notin> set v)"

lemma labels_okD: "labels_ok labels \<Longrightarrow> (k, v) \<in> set labels \<Longrightarrow>
    k \<noteq> [] \<and> CHR ''='' \<notin> set k \<and> CHR '','' \<notin> set k \<and> CHR '','' \<notin> set v"
  by (auto simp: labels_ok_def)

definition pair_of :: "string \<Rightarrow> string \<times> string" where
  "pair_of p = (let (k, v, ok) = go_cut CHR ''='' p in (k, v))"

lemma label_pairs_Inr:
  "label_pairs pairs acc = Inr labels \<longleftrightarrow>
     labels = acc @ map pair_of pairs
     \<and> (\<forall>p\<in>set pairs. CHR ''='' \<in> set p \<and> fst (pair_of p) \<noteq> [])
     \<and> distinct (map fst (map pair_of pairs)) \<and> fst ` set acc \<inter> fst ` set (map pair_of pairs) = {}"
  by (induction pairs acc rule: label_pairs.induct)
    (auto simp: pair_of_def go_cut_def image_iff split: if_splits)

lemma pair_of_text: "CHR ''='' \<in> set p \<Longrightarrow> fst (pair_of p) @ ''='' @ snd (pair_of p) = p"
  by (cases rule: cut_cases[of "CHR ''=''" p]) (auto simp: pair_of_def)

lemma pair_of_join: "CHR ''='' \<notin> set k \<Longrightarrow> pair_of (k @ CHR ''='' # v) = (k, v)"
  by (simp add: pair_of_def string_simps)

lemma pair_of_parts: "CHR ''='' \<notin> set (fst (pair_of p))"
  by (cases rule: cut_cases[of "CHR ''=''" p]) (auto simp: pair_of_def)

lemma pair_of_chars: "c \<notin> set p \<Longrightarrow> c \<notin> set (fst (pair_of p)) \<and> c \<notin> set (snd (pair_of p))"
  by (cases rule: cut_cases[of "CHR ''=''" p]) (auto simp: pair_of_def)

text \<open>
  The labels a TableMeta carries are read back exactly: a text is accepted precisely when
  it is the list it denotes written out, the keys distinct and not empty.
\<close>

theorem parseLabels_iff: "parseLabels v = Inr labels \<longleftrightarrow> labels_ok labels \<and> v = label_text labels"
proof
  assume "parseLabels v = Inr labels"
  then have labels: "labels = map pair_of (go_split CHR '','' v)"
    and ok: "\<forall>p\<in>set (go_split CHR '','' v). CHR ''='' \<in> set p \<and> fst (pair_of p) \<noteq> []"
    and distinct: "distinct (map fst labels)"
    by (simp_all add: parseLabels_def label_pairs_Inr)
  have "map (\<lambda>(k, v). k @ ''='' @ v) labels = go_split CHR '','' v"
    using ok pair_of_text by (auto simp: labels o_def split_beta intro!: map_idI)
  then have "label_text labels = v"
    by (simp add: label_text_def go_join_split)
  moreover have "labels_ok labels"
    using ok distinct pair_of_chars go_split_parts pair_of_parts
    by (fastforce simp: labels_ok_def labels split_beta)
  ultimately show "labels_ok labels \<and> v = label_text labels" by simp
next
  assume ok: "labels_ok labels \<and> v = label_text labels"
  let ?ps = "map (\<lambda>(k, v). k @ ''='' @ v) labels"
  have "go_split CHR '','' v = ?ps"
  proof -
    have "?ps \<noteq> []" using ok by (simp add: labels_ok_def)
    moreover have "CHR '','' \<notin> set p" if "p \<in> set ?ps" for p
      using that ok by (auto dest: labels_okD)
    ultimately have "go_split CHR '','' (go_join '','' ?ps) = ?ps" by (rule go_split_join)
    then show ?thesis using ok unfolding label_text_def by (elim conjE) (simp only:)
  qed
  moreover have "map pair_of ?ps = labels"
    using ok by (auto simp: pair_of_join dest: labels_okD intro!: map_idI)
  ultimately show "parseLabels v = Inr labels"
    using ok by (auto simp: parseLabels_def label_pairs_Inr pair_of_join dest: labels_okD)
      (simp_all add: labels_ok_def)
qed

theorem parseLabels_iff_witness: "parseLabels ''team=data,env='' = Inr [(''team'', ''data''), (''env'', [])]"
  unfolding parseLabels_iff by (simp add: labels_ok_def label_text_def)

end
