(* ===== verification/StructFields.thy ===== *)
theory StructFields
  imports Tags "HOL-Library.List_Lexorder"
begin

text \<open>
  fields.go: the columns a struct type contributes. The walk over the embedded structs, level by
  level, is a partial function: it returns whenever the type embeds finitely many types, which
  Go's own rules ensure and the lemmas prove. What survives of the fields found is settled by
  name, and proved to be what the rules of encoding/json keep.
\<close>

section \<open>The walk\<close>

record candidateField =
  cf_sf :: StructField
  cf_tag :: fieldTag
  cf_name :: string
  cf_index :: "nat list"
  cf_depth :: nat
  cf_tagged :: bool

text \<open>
  An entry of the queue carries the type of an embedded field and the way to it, and what one
  level builds up are the types seen on it (\<open>next\<close>), the next queue and the fields found.
\<close>

record walk =
  wk_next :: "rtype set"
  wk_queue :: "(rtype \<times> nat list) list"
  wk_found :: "candidateField list"

definition candidate_of :: "StructField \<Rightarrow> fieldTag \<Rightarrow> nat list \<Rightarrow> nat \<Rightarrow> candidateField" where
  "candidate_of sf tag parent i =
     \<lparr>cf_sf = sf, cf_tag = tag, cf_name = (if tag_name tag = [] then sf_Name sf else tag_name tag),
      cf_index = parent @ [i], cf_depth = length parent, cf_tagged = (tag_name tag \<noteq> [])\<rparr>"

text \<open>The body of the loop over the fields of one struct.\<close>

definition walk_field :: "types \<Rightarrow> rtype set \<Rightarrow> nat list \<Rightarrow> nat \<Rightarrow> StructField \<Rightarrow> walk \<Rightarrow> gerr + walk" where
  "walk_field u visited parent i sf w =
     (case parseFieldTags (sf_Tag sf) of
        Inl err \<Rightarrow> Inl (EWrap (PlanSite (InField (sf_Name sf))) err)
      | Inr tag \<Rightarrow>
          (let ft = deref (sf_Type sf)
           in if tag_skip tag then Inr w
              else if sf_Anonymous sf \<and> \<not> sf_Exported sf \<and> kind_of u ft \<noteq> KStruct then Inr w
              else if sf_Anonymous sf \<and> kind_of u ft = KStruct \<and> tag_name tag = []
                then (if ft \<in> visited \<or> ft \<in> wk_next w then Inr w
                      else Inr (w\<lparr>wk_next := insert ft (wk_next w),
                                  wk_queue := wk_queue w @ [(sf_Type sf, parent @ [i])]\<rparr>))
              else if \<not> sf_Anonymous sf \<and> \<not> sf_Exported sf then Inr w
              else Inr (w\<lparr>wk_found := wk_found w @ [candidate_of sf tag parent i]\<rparr>)))"

fun walk_fields :: "types \<Rightarrow> rtype set \<Rightarrow> nat list \<Rightarrow> nat \<Rightarrow> StructField list \<Rightarrow> walk \<Rightarrow> gerr + walk" where
  "walk_fields u visited parent i [] w = Inr w"
| "walk_fields u visited parent i (sf # sfs) w =
     and_then (walk_field u visited parent i sf w) (walk_fields u visited parent (Suc i) sfs)"

fun walk_level :: "types \<Rightarrow> rtype set \<Rightarrow> (rtype \<times> nat list) list \<Rightarrow> walk \<Rightarrow> gerr + walk" where
  "walk_level u visited [] w = Inr w"
| "walk_level u visited ((t, parent) # level) w =
     and_then (walk_fields u visited parent 0 (fields_of u (deref t)) w) (walk_level u visited level)"

definition start_level :: "candidateField list \<Rightarrow> walk" where
  "start_level found = \<lparr>wk_next = {}, wk_queue = [], wk_found = found\<rparr>"

text \<open>\<open>for len(queue) > 0\<close>: \<open>None\<close> would be a walk that never ends.\<close>

partial_function (option) collect_levels ::
  "types \<Rightarrow> rtype set \<Rightarrow> (rtype \<times> nat list) list \<Rightarrow> candidateField list \<Rightarrow> (gerr + candidateField list) option" where
  "collect_levels u visited queue found =
     (if queue = [] then Some (Inr found)
      else case walk_level u visited queue (start_level found) of
             Inl err \<Rightarrow> Some (Inl err)
           | Inr w \<Rightarrow> collect_levels u (visited \<union> wk_next w) (wk_queue w) (wk_found w))"

section \<open>Collisions\<close>

fun shallowest_of :: "nat \<Rightarrow> candidateField list \<Rightarrow> nat" where
  "shallowest_of d [] = d"
| "shallowest_of d (c # cs) = shallowest_of (if cf_depth c < d then cf_depth c else d) cs"

text \<open>The list is never empty: the field asking is on it.\<close>

definition winnerFor :: "candidateField list \<Rightarrow> candidateField option" where
  "winnerFor candidates =
     (case candidates of
        [c] \<Rightarrow> Some c
      | _ \<Rightarrow>
          (let shallowest = shallowest_of (cf_depth (hd candidates)) (tl candidates);
               atDepth = filter (\<lambda>c. cf_depth c = shallowest) candidates
           in case atDepth of
                [c] \<Rightarrow> Some c
              | _ \<Rightarrow> (case filter cf_tagged atDepth of [c] \<Rightarrow> Some c | _ \<Rightarrow> None)))"

definition kept_field :: "candidateField list \<Rightarrow> candidateField \<Rightarrow> bool" where
  "kept_field found f =
     (case winnerFor (filter (\<lambda>g. cf_name g = cf_name f) found) of
        None \<Rightarrow> False | Some winner \<Rightarrow> cf_index winner = cf_index f)"

text \<open>
  \<open>slices.SortFunc\<close> with \<open>slices.Compare\<close> on the indexes, which is the lexicographic order of
  lists with a prefix before what it starts.
\<close>

definition resolveCollisions :: "candidateField list \<Rightarrow> candidateField list" where
  "resolveCollisions found = sort_key cf_index (filter (kept_field found) found)"

definition collectFields :: "types \<Rightarrow> rtype \<Rightarrow> (gerr + candidateField list) option" where
  "collectFields u t =
     map_option (map_sum id resolveCollisions) (collect_levels u {t} [(t, [])] [])"

section \<open>What one level adds\<close>

lemma walk_field_grows:
  assumes "walk_field u visited p i sf w = Inr w'"
  obtains "w' = w"
  | "w' = w\<lparr>wk_next := insert (deref (sf_Type sf)) (wk_next w), wk_queue := wk_queue w @ [(sf_Type sf, p @ [i])]\<rparr>"
    "deref (sf_Type sf) \<notin> visited \<union> wk_next w" "sf_Anonymous sf" "kind_of u (deref (sf_Type sf)) = KStruct"
  | tag where "w' = w\<lparr>wk_found := wk_found w @ [candidate_of sf tag p i]\<rparr>" "parseFieldTags (sf_Tag sf) = Inr tag"
    "\<not> tag_skip tag"
    "sf_Exported sf \<or> sf_Anonymous sf \<and> kind_of u (deref (sf_Type sf)) = KStruct \<and> tag_name tag \<noteq> []"
proof (cases "parseFieldTags (sf_Tag sf)")
  case (Inr tag)
  let ?ft = "deref (sf_Type sf)"
  consider "tag_skip tag \<or> sf_Anonymous sf \<and> \<not> sf_Exported sf \<and> kind_of u ?ft \<noteq> KStruct"
    | "\<not> tag_skip tag" "sf_Anonymous sf" "kind_of u ?ft = KStruct" "tag_name tag = []"
    | "\<not> tag_skip tag" "\<not> sf_Anonymous sf" "\<not> sf_Exported sf"
    | "\<not> tag_skip tag" "sf_Exported sf \<or> sf_Anonymous sf \<and> kind_of u ?ft = KStruct \<and> tag_name tag \<noteq> []"
      "\<not> (sf_Anonymous sf \<and> kind_of u ?ft = KStruct \<and> tag_name tag = [])"
    by blast
  then show ?thesis
  proof cases
    case 1
    with assms Inr that(1) show ?thesis by (auto simp: walk_field_def Let_def split: if_splits)
  next
    case 2
    with assms Inr that(1) show ?thesis
      by (cases "?ft \<in> visited \<or> ?ft \<in> wk_next w") (auto simp: walk_field_def Let_def intro!: that(2))
  next
    case 3
    with assms Inr that(1) show ?thesis by (auto simp: walk_field_def Let_def split: if_splits)
  next
    case 4
    with assms Inr show ?thesis by (intro that(3)[of tag]) (auto simp: walk_field_def Let_def split: if_splits)
  qed
qed (use assms in \<open>simp add: walk_field_def\<close>)

text \<open>
  \<open>grown\<close> says what has been appended: fields and queue entries with the indexes of a set, none
  twice, the entries of types not seen before and all recorded as seen.
\<close>

definition grown :: "rtype set \<Rightarrow> nat list set \<Rightarrow> walk \<Rightarrow> walk \<Rightarrow> bool" where
  "grown visited R w w' \<longleftrightarrow> (\<exists>new newq. wk_found w' = wk_found w @ new \<and> wk_queue w' = wk_queue w @ newq
     \<and> wk_next w' = wk_next w \<union> deref ` fst ` set newq \<and> deref ` fst ` set newq \<inter> visited = {}
     \<and> distinct (map cf_index new) \<and> distinct (map snd newq)
     \<and> cf_index ` set new \<union> snd ` set newq \<subseteq> R)"

lemma grownE:
  assumes "grown visited R w w'"
  obtains new newq where "wk_found w' = wk_found w @ new" "wk_queue w' = wk_queue w @ newq"
    "wk_next w' = wk_next w \<union> deref ` fst ` set newq" "deref ` fst ` set newq \<inter> visited = {}"
    "distinct (map cf_index new)" "distinct (map snd newq)" "cf_index ` set new \<union> snd ` set newq \<subseteq> R"
  using assms unfolding grown_def by (elim exE conjE) (rule that)

lemma grown_refl [simp]: "grown visited R w w"
  by (auto simp: grown_def)

lemma grown_trans:
  assumes "grown visited R w1 w2" and "grown visited S w2 w3" and "R \<inter> S = {}" and "R \<union> S \<subseteq> T"
  shows "grown visited T w1 w3"
proof -
  obtain n1 q1 where 1: "wk_found w2 = wk_found w1 @ n1" "wk_queue w2 = wk_queue w1 @ q1"
    "wk_next w2 = wk_next w1 \<union> deref ` fst ` set q1" "deref ` fst ` set q1 \<inter> visited = {}"
    "distinct (map cf_index n1)" "distinct (map snd q1)" "cf_index ` set n1 \<union> snd ` set q1 \<subseteq> R"
    using assms(1) by (rule grownE)
  obtain n2 q2 where 2: "wk_found w3 = wk_found w2 @ n2" "wk_queue w3 = wk_queue w2 @ q2"
    "wk_next w3 = wk_next w2 \<union> deref ` fst ` set q2" "deref ` fst ` set q2 \<inter> visited = {}"
    "distinct (map cf_index n2)" "distinct (map snd q2)" "cf_index ` set n2 \<union> snd ` set q2 \<subseteq> S"
    using assms(2) by (rule grownE)
  have disjoint: "cf_index ` set n1 \<inter> cf_index ` set n2 = {}" "snd ` set q1 \<inter> snd ` set q2 = {}"
    using 1(7) 2(7) assms(3) by blast+
  have within: "cf_index ` set (n1 @ n2) \<union> snd ` set (q1 @ q2) \<subseteq> T"
    using 1(7) 2(7) assms(4) by auto
  show ?thesis
    unfolding grown_def
  proof (intro exI[of _ "n1 @ n2"] exI[of _ "q1 @ q2"] conjI)
    show "distinct (map cf_index (n1 @ n2))" using 1(5) 2(5) disjoint(1) by simp
    show "distinct (map snd (q1 @ q2))" using 1(6) 2(6) disjoint(2) by simp
    show "deref ` fst ` set (q1 @ q2) \<inter> visited = {}" using 1(4) 2(4) by (simp add: image_Un Int_Un_distrib2)
  qed (use within in \<open>simp_all add: 1(1-3) 2(1-3) image_Un Un_assoc\<close>)
qed

lemma walk_field_grown:
  assumes "walk_field u visited p i sf w = Inr w'"
  shows "grown visited {p @ [i]} w w'"
  using assms
proof (cases rule: walk_field_grows)
  case 2
  then show ?thesis
    unfolding grown_def by (intro exI[of _ "[]"] exI[of _ "[(sf_Type sf, p @ [i])]"]) auto
next
  case (3 tag)
  then show ?thesis
    unfolding grown_def by (intro exI[of _ "[candidate_of sf tag p i]"] exI[of _ "[]"]) (auto simp: candidate_of_def)
qed simp

lemma walk_fields_grown:
  "walk_fields u visited p i sfs w = Inr w' \<Longrightarrow> grown visited {p @ [j] | j. i \<le> j} w w'"
proof (induction sfs arbitrary: i w)
  case (Cons sf sfs)
  then obtain w1 where "walk_field u visited p i sf w = Inr w1"
    and w1: "walk_fields u visited p (Suc i) sfs w1 = Inr w'"
    by (auto simp: and_then_Inr)
  then have "grown visited {p @ [i]} w w1" using walk_field_grown by blast
  then show ?case by (rule grown_trans[OF _ Cons.IH[OF w1]]) auto
qed simp

lemma walk_level_grown:
  "walk_level u visited level w = Inr w' \<Longrightarrow> distinct (map snd level) \<Longrightarrow>
     grown visited {p @ [j] | p j. p \<in> snd ` set level} w w'"
proof (induction level arbitrary: w)
  case (Cons e level)
  obtain t p where e: "e = (t, p)" by force
  with Cons.prems obtain w1 where "walk_fields u visited p 0 (fields_of u (deref t)) w = Inr w1"
    and w1: "walk_level u visited level w1 = Inr w'"
    by (auto simp: and_then_Inr)
  then have "grown visited {p @ [j] | j. 0 \<le> j} w w1" using walk_fields_grown by blast
  then show ?case by (rule grown_trans[OF _ Cons.IH[OF w1]]) (use Cons.prems e in auto)
qed simp

lemma grown_start:
  assumes "grown visited R (start_level found) w"
  obtains new where "wk_found w = found @ new" "distinct (map cf_index new)" "cf_index ` set new \<subseteq> R"
    "distinct (map snd (wk_queue w))" "snd ` set (wk_queue w) \<subseteq> R"
    "wk_next w = deref ` fst ` set (wk_queue w)" "wk_next w \<inter> visited = {}"
  using assms by (auto simp: grown_def start_level_def)

section \<open>The walk ends\<close>

text \<open>Finitely many types are in reach of a type, following the types of fields.\<close>

definition embeds_within :: "types \<Rightarrow> rtype set \<Rightarrow> bool" where
  "embeds_within u S \<longleftrightarrow> finite S \<and> (\<forall>t\<in>S. \<forall>sf\<in>set (fields_of u t). deref (sf_Type sf) \<in> S)"

lemma walk_field_types:
  "walk_field u visited p i sf w = Inr w' \<Longrightarrow> deref (sf_Type sf) \<in> S \<Longrightarrow>
     deref ` fst ` set (wk_queue w) \<subseteq> S \<Longrightarrow> deref ` fst ` set (wk_queue w') \<subseteq> S"
  by (erule walk_field_grows) auto

lemma walk_fields_types:
  "walk_fields u visited p i sfs w = Inr w' \<Longrightarrow> \<forall>sf\<in>set sfs. deref (sf_Type sf) \<in> S \<Longrightarrow>
     deref ` fst ` set (wk_queue w) \<subseteq> S \<Longrightarrow> deref ` fst ` set (wk_queue w') \<subseteq> S"
proof (induction sfs arbitrary: i w)
  case (Cons sf sfs)
  then obtain w1 where "walk_field u visited p i sf w = Inr w1" "walk_fields u visited p (Suc i) sfs w1 = Inr w'"
    by (auto simp: and_then_Inr)
  with Cons walk_field_types show ?case by simp
qed simp

lemma walk_level_types:
  "walk_level u visited level w = Inr w' \<Longrightarrow> embeds_within u S \<Longrightarrow> deref ` fst ` set level \<subseteq> S \<Longrightarrow>
     deref ` fst ` set (wk_queue w) \<subseteq> S \<Longrightarrow> deref ` fst ` set (wk_queue w') \<subseteq> S"
proof (induction level arbitrary: w)
  case (Cons e level)
  obtain t p where e: "e = (t, p)" by force
  with Cons.prems obtain w1 where w1: "walk_fields u visited p 0 (fields_of u (deref t)) w = Inr w1"
    and rest: "walk_level u visited level w1 = Inr w'"
    by (auto simp: and_then_Inr)
  have "\<forall>sf\<in>set (fields_of u (deref t)). deref (sf_Type sf) \<in> S"
    using Cons.prems(2,3) e by (auto simp: embeds_within_def)
  from Cons.IH[OF rest] walk_fields_types[OF w1 this] Cons.prems e show ?case by simp
qed simp

lemma collect_levels_returns:
  assumes "embeds_within u S" and "deref ` fst ` set queue \<subseteq> S" and "distinct (map snd queue)"
  shows "\<exists>r. collect_levels u visited queue found = Some r"
  using assms(2,3)
proof (induction "card (S - visited)" arbitrary: visited queue found rule: less_induct)
  case less
  show ?case
  proof (cases "queue = []")
    case True
    then show ?thesis by (simp add: collect_levels.simps)
  next
    case False
    show ?thesis
    proof (cases "walk_level u visited queue (start_level found)")
      case (Inl err)
      with False show ?thesis by (simp add: collect_levels.simps)
    next
      case (Inr w)
      obtain new where w: "distinct (map snd (wk_queue w))" "wk_next w = deref ` fst ` set (wk_queue w)"
          "wk_next w \<inter> visited = {}"
        using walk_level_grown[OF Inr less.prems(2)] by (rule grown_start)
      have S: "wk_next w \<subseteq> S"
        using walk_level_types[OF Inr assms(1) less.prems(1)] w(2) by (simp add: start_level_def)
      have step: "collect_levels u visited queue found
          = collect_levels u (visited \<union> wk_next w) (wk_queue w) (wk_found w)"
        using Inr False by (subst collect_levels.simps) simp
      show ?thesis
      proof (cases "wk_queue w = []")
        case True
        then show ?thesis unfolding step by (simp add: collect_levels.simps)
      next
        case False
        then obtain x where "x \<in> wk_next w" using w(2) by (cases "wk_queue w") auto
        then have "S - (visited \<union> wk_next w) \<subset> S - visited" using w(3) S by blast
        then have "card (S - (visited \<union> wk_next w)) < card (S - visited)"
          using assms(1) by (intro psubset_card_mono) (auto simp: embeds_within_def)
        with less.hyps w S show ?thesis unfolding step by auto
      qed
    qed
  qed
qed

text \<open>
  C38: the walk over embedded structs ends: of a type from which finitely many types are reached
  through fields, the columns are collected or the faulty tag is reported, however the types
  embed one another.
\<close>

theorem collectFields_returns:
  assumes "embeds_within u S" and "t \<in> S" and "deref t = t"
  shows "\<exists>r. collectFields u t = Some r"
  using collect_levels_returns[OF assms(1), of "[(t, [])]"] assms(2,3) by (auto simp: collectFields_def)

section \<open>The way to a field\<close>

definition nth_field :: "types \<Rightarrow> rtype \<Rightarrow> nat \<Rightarrow> StructField option" where
  "nth_field u t i = (if i < length (fields_of u t) then Some (fields_of u t ! i) else None)"

text \<open>The struct an index leads to through embedded structs, and the field at its end.\<close>

fun path_struct :: "types \<Rightarrow> rtype \<Rightarrow> nat list \<Rightarrow> rtype option" where
  "path_struct u t [] = Some t"
| "path_struct u t (i # is) =
     (case nth_field u t i of
        None \<Rightarrow> None
      | Some sf \<Rightarrow> if sf_Anonymous sf \<and> kind_of u (deref (sf_Type sf)) = KStruct
                     then path_struct u (deref (sf_Type sf)) is else None)"

definition path_field :: "types \<Rightarrow> rtype \<Rightarrow> nat list \<Rightarrow> StructField option" where
  "path_field u t is =
     (if is = [] then None
      else case path_struct u t (butlast is) of None \<Rightarrow> None | Some s \<Rightarrow> nth_field u s (last is))"

lemma path_struct_snoc:
  "path_struct u t (is @ [i]) =
     (case path_struct u t is of
        None \<Rightarrow> None
      | Some s \<Rightarrow> path_struct u s [i])"
  by (induction u t "is" rule: path_struct.induct) (auto split: option.splits)

lemma path_field_snoc: "path_struct u t is = Some s \<Longrightarrow> path_field u t (is @ [i]) = nth_field u s i"
  by (simp add: path_field_def)

lemma path_field_Cons:
  "path_field u t (i # is) =
     (case nth_field u t i of
        None \<Rightarrow> None
      | Some sf \<Rightarrow> if is = [] then Some sf
                    else if sf_Anonymous sf \<and> kind_of u (deref (sf_Type sf)) = KStruct
                      then path_field u (deref (sf_Type sf)) is else None)"
  by (auto simp: path_field_def split: option.splits)

text \<open>What a field found says agrees with the field its index leads to.\<close>

definition candidate_ok :: "types \<Rightarrow> rtype \<Rightarrow> candidateField \<Rightarrow> bool" where
  "candidate_ok u t f \<longleftrightarrow> path_field u t (cf_index f) = Some (cf_sf f)
     \<and> parseFieldTags (sf_Tag (cf_sf f)) = Inr (cf_tag f) \<and> \<not> tag_skip (cf_tag f)
     \<and> (sf_Exported (cf_sf f) \<or> sf_Anonymous (cf_sf f) \<and> kind_of u (deref (sf_Type (cf_sf f))) = KStruct
          \<and> tag_name (cf_tag f) \<noteq> [])
     \<and> f = candidate_of (cf_sf f) (cf_tag f) (butlast (cf_index f)) (last (cf_index f))"

definition walk_ok :: "types \<Rightarrow> rtype \<Rightarrow> walk \<Rightarrow> bool" where
  "walk_ok u t w \<longleftrightarrow> (\<forall>f\<in>set (wk_found w). candidate_ok u t f)
     \<and> (\<forall>(s, p)\<in>set (wk_queue w). path_struct u t p = Some (deref s))"

lemma walk_field_ok:
  assumes "walk_field u visited p i sf w = Inr w'" and "walk_ok u t w"
    and "path_struct u t p = Some s" and "nth_field u s i = Some sf"
  shows "walk_ok u t w'"
  using assms(1)
proof (cases rule: walk_field_grows)
  case 2
  then show ?thesis using assms(2-4) by (simp add: walk_ok_def path_struct_snoc)
next
  case (3 tag)
  then show ?thesis
    using assms(2-4) by (auto simp: walk_ok_def candidate_ok_def candidate_of_def path_field_snoc)
qed (use assms in simp)

lemma walk_fields_ok:
  "walk_fields u visited p i sfs w = Inr w' \<Longrightarrow> walk_ok u t w \<Longrightarrow> path_struct u t p = Some s \<Longrightarrow>
     fields_of u s = pre @ sfs \<Longrightarrow> i = length pre \<Longrightarrow> walk_ok u t w'"
proof (induction sfs arbitrary: i w pre)
  case (Cons sf sfs)
  then obtain w1 where w1: "walk_field u visited p i sf w = Inr w1" "walk_fields u visited p (Suc i) sfs w1 = Inr w'"
    by (auto simp: and_then_Inr)
  have "nth_field u s i = Some sf" using Cons.prems(4,5) by (simp add: nth_field_def)
  with Cons.prems w1(1) have "walk_ok u t w1" using walk_field_ok by blast
  with Cons.IH[OF w1(2)] Cons.prems show ?case by simp
qed simp

lemma walk_level_ok:
  "walk_level u visited level w = Inr w' \<Longrightarrow> walk_ok u t w \<Longrightarrow>
     \<forall>(s, p)\<in>set level. path_struct u t p = Some (deref s) \<Longrightarrow> walk_ok u t w'"
proof (induction level arbitrary: w)
  case (Cons e level)
  obtain s p where e: "e = (s, p)" by force
  with Cons.prems obtain w1 where w1: "walk_fields u visited p 0 (fields_of u (deref s)) w = Inr w1"
    and rest: "walk_level u visited level w1 = Inr w'"
    by (auto simp: and_then_Inr)
  from Cons.prems e have "path_struct u t p = Some (deref s)" by simp
  with w1 Cons.prems(2) have "walk_ok u t w1" by (rule walk_fields_ok[where pre = "[]"]) simp_all
  with Cons.IH[OF rest] Cons.prems(3) show ?case by simp
qed simp

lemmas collect_levels_induct = collect_levels.raw_induct[rotated, consumes 1, case_names step]

text \<open>The fields found: each as its index says, no index twice.\<close>

lemma collect_levels_found:
  assumes "collect_levels u visited queue found = Some (Inr all)"
    and "\<forall>(s, p)\<in>set queue. path_struct u t p = Some (deref s) \<and> length p = d" and "distinct (map snd queue)"
    and "\<forall>f\<in>set found. candidate_ok u t f \<and> length (cf_index f) \<le> d" and "distinct (map cf_index found)"
  shows "(\<forall>f\<in>set all. candidate_ok u t f) \<and> distinct (map cf_index all)"
  using assms
proof (induction u visited queue found "Inr all :: gerr + candidateField list" arbitrary: d
    rule: collect_levels_induct)
  case (step self u visited queue found)
  show ?case
  proof (cases "queue = []")
    case True
    with step show ?thesis by auto
  next
    case False
    with "step.hyps"(2) obtain w where w: "walk_level u visited queue (start_level found) = Inr w"
      and rest: "self u (visited \<union> wk_next w) (wk_queue w) (wk_found w) = Some (Inr all)"
      by (auto split: sum.splits)
    obtain new where new: "wk_found w = found @ new" "distinct (map cf_index new)"
      "cf_index ` set new \<subseteq> {p @ [j] | p j. p \<in> snd ` set queue}"
      "distinct (map snd (wk_queue w))" "snd ` set (wk_queue w) \<subseteq> {p @ [j] | p j. p \<in> snd ` set queue}"
      using walk_level_grown[OF w "step.prems"(2)] by (rule grown_start)
    have ok: "walk_ok u t w"
      by (rule walk_level_ok[OF w]) (use "step.prems"(1,3) in \<open>auto simp: walk_ok_def start_level_def\<close>)
    have len: "length is = Suc d" if "is \<in> {p @ [j] | p j. p \<in> snd ` set queue}" for "is"
      using that "step.prems"(1) by auto
    have new_len: "length (cf_index f) = Suc d" if "f \<in> set new" for f
      using len[OF subsetD[OF new(3) imageI[OF that]]] .
    have queue_len: "length p = Suc d" if "(s, p) \<in> set (wk_queue w)" for s p
      using len[OF subsetD[OF new(5)], of p] that by force
    show ?thesis
    proof (rule "step.hyps"(1)[OF rest])
      show "\<forall>(s, p)\<in>set (wk_queue w). path_struct u t p = Some (deref s) \<and> length p = Suc d"
        using ok queue_len by (auto simp: walk_ok_def)
      show "\<forall>f\<in>set (wk_found w). candidate_ok u t f \<and> length (cf_index f) \<le> Suc d"
        using ok new_len "step.prems"(3) by (auto simp: walk_ok_def new(1))
      show "distinct (map cf_index (wk_found w))"
        using "step.prems"(3,4) new(2) new_len by (fastforce simp: new(1))
    qed (rule new(4))
  qed
qed

lemma collect_levels_ok:
  assumes "collect_levels u {t} [(t, [])] [] = Some (Inr found)" and "deref t = t"
  shows "\<forall>f\<in>set found. candidate_ok u t f" and "distinct (map cf_index found)"
proof -
  have "(\<forall>f\<in>set found. candidate_ok u t f) \<and> distinct (map cf_index found)"
    by (rule collect_levels_found[OF assms(1), where d = 0]) (use assms(2) in auto)
  then show "\<forall>f\<in>set found. candidate_ok u t f" "distinct (map cf_index found)" by auto
qed

section \<open>Which field a name keeps\<close>

text \<open>
  The rule of encoding/json: a field keeps its name against another that is deeper, or as deep
  without a name in its tag where the field has one.
\<close>

definition dominates :: "candidateField \<Rightarrow> candidateField \<Rightarrow> bool" where
  "dominates f g \<longleftrightarrow> cf_depth f < cf_depth g \<or> cf_depth f = cf_depth g \<and> cf_tagged f \<and> \<not> cf_tagged g"

definition dominant :: "candidateField list \<Rightarrow> candidateField \<Rightarrow> bool" where
  "dominant found f \<longleftrightarrow> (\<forall>g\<in>set found. cf_name g = cf_name f \<and> g \<noteq> f \<longrightarrow> dominates f g)"

lemma shallowest_of_least:
  "shallowest_of d cs \<le> d \<and> (\<forall>c\<in>set cs. shallowest_of d cs \<le> cf_depth c)
     \<and> (shallowest_of d cs = d \<or> (\<exists>c\<in>set cs. shallowest_of d cs = cf_depth c))"
proof (induction cs arbitrary: d)
  case (Cons c cs)
  show ?case
    using Cons.IH[of "cf_depth c"] Cons.IH[of d] by (cases "cf_depth c < d") (auto intro: le_less_trans less_imp_le)
qed simp

lemma shallowest_hd:
  assumes "cs \<noteq> []"
  shows "\<forall>c\<in>set cs. shallowest_of (cf_depth (hd cs)) (tl cs) \<le> cf_depth c"
    and "\<exists>c\<in>set cs. shallowest_of (cf_depth (hd cs)) (tl cs) = cf_depth c"
  using assms shallowest_of_least[of "cf_depth (hd cs)" "tl cs"] by (cases cs; auto)+

lemma filter_singleton_iff:
  "distinct xs \<Longrightarrow> filter P xs = [c] \<longleftrightarrow> c \<in> set xs \<and> P c \<and> (\<forall>g\<in>set xs. P g \<longrightarrow> g = c)"
proof (induction xs)
  case (Cons x xs)
  then show ?case by (cases "P x") (auto simp: filter_empty_conv)
qed simp

definition at_depth :: "candidateField list \<Rightarrow> candidateField list" where
  "at_depth cs = filter (\<lambda>c. cf_depth c = shallowest_of (cf_depth (hd cs)) (tl cs)) cs"

lemma winnerFor_at_depth:
  "winnerFor cs = (case at_depth cs of [c] \<Rightarrow> Some c
     | _ \<Rightarrow> (case filter cf_tagged (at_depth cs) of [c] \<Rightarrow> Some c | _ \<Rightarrow> None))"
proof (cases cs)
  case (Cons c cs')
  then show ?thesis
    by (cases cs') (simp_all only: winnerFor_def at_depth_def Let_def list.case list.sel shallowest_of.simps, simp)
qed (simp add: winnerFor_def at_depth_def)

lemma case_single_eq:
  "(case xs of [c] \<Rightarrow> Some c | _ \<Rightarrow> e) = Some f \<longleftrightarrow> xs = [f] \<or> (\<nexists>c. xs = [c]) \<and> e = Some f"
  by (auto split: list.splits)

lemma winnerFor_Some:
  "winnerFor cs = Some f \<longleftrightarrow>
     at_depth cs = [f] \<or> (\<nexists>c. at_depth cs = [c]) \<and> filter cf_tagged (at_depth cs) = [f]"
  unfolding winnerFor_at_depth case_single_eq by simp

lemma filter_single_in: "filter P xs = [g] \<Longrightarrow> g \<in> set xs"
  by (auto dest!: arg_cong[where f = set])

lemma at_depth_set: "set (at_depth cs) \<subseteq> set cs"
  by (auto simp: at_depth_def)

lemma winnerFor_in: "winnerFor cs = Some g \<Longrightarrow> g \<in> set cs"
  using filter_single_in[of cf_tagged "at_depth cs" g] at_depth_set[of cs] by (auto simp: winnerFor_Some)

lemma unique_or_tagged:
  assumes "f \<in> S" and "D f"
  shows "(\<forall>g\<in>S. D g \<longrightarrow> g = f) \<or> T f \<and> (\<forall>g\<in>S. D g \<and> T g \<longrightarrow> g = f)
    \<longleftrightarrow> (\<forall>g\<in>S. g \<noteq> f \<longrightarrow> D g \<longrightarrow> T f \<and> \<not> T g)"
  using assms by blast

lemma winnerFor_iff:
  assumes "distinct cs" and "f \<in> set cs"
  shows "winnerFor cs = Some f \<longleftrightarrow> (\<forall>g\<in>set cs. g \<noteq> f \<longrightarrow> dominates f g)"
proof -
  define d where "d = shallowest_of (cf_depth (hd cs)) (tl cs)"
  have ne: "cs \<noteq> []" using assms(2) by auto
  note d = shallowest_hd[OF ne, folded d_def]
  have at: "at_depth cs = [c] \<longleftrightarrow> c \<in> set cs \<and> cf_depth c = d \<and> (\<forall>g\<in>set cs. cf_depth g = d \<longrightarrow> g = c)" for c
    using filter_singleton_iff[OF assms(1)] by (simp add: at_depth_def d_def)
  have tagged: "filter cf_tagged (at_depth cs) = [f] \<longleftrightarrow> cf_depth f = d \<and> cf_tagged f
      \<and> (\<forall>g\<in>set cs. cf_depth g = d \<and> cf_tagged g \<longrightarrow> g = f)"
  proof -
    have "filter cf_tagged (at_depth cs) = filter (\<lambda>g. cf_depth g = d \<and> cf_tagged g) cs"
      by (simp add: at_depth_def d_def)
    then show ?thesis using filter_singleton_iff[OF assms(1)] assms(2) by simp
  qed
  show ?thesis
  proof (cases "cf_depth f = d")
    case True
    have "at_depth cs = [c] \<Longrightarrow> c = f" for c using at[of c] True assms(2) by simp
    then have "winnerFor cs = Some f \<longleftrightarrow> at_depth cs = [f] \<or> filter cf_tagged (at_depth cs) = [f]"
      unfolding winnerFor_Some by auto
    then have "winnerFor cs = Some f \<longleftrightarrow> (\<forall>g\<in>set cs. g \<noteq> f \<longrightarrow> cf_depth g = d \<longrightarrow> cf_tagged f \<and> \<not> cf_tagged g)"
      unfolding tagged at
      using unique_or_tagged[of f "set cs" "\<lambda>g. cf_depth g = d" cf_tagged] assms(2) True by simp
    moreover have "dominates f g \<longleftrightarrow> (cf_depth g = d \<longrightarrow> cf_tagged f \<and> \<not> cf_tagged g)" if "g \<in> set cs" for g
      using bspec[OF d(1) that] True by (cases "cf_depth g = d") (simp_all add: dominates_def)
    ultimately show ?thesis by (simp cong: ball_cong)
  next
    case False
    obtain c where c: "c \<in> set cs" "d = cf_depth c" using d(2) by auto
    with d(1) False assms(2) have "d < cf_depth f" "c \<noteq> f" by (auto simp: order_le_less)
    with c have "\<not> dominates f c" by (simp add: dominates_def)
    with c \<open>c \<noteq> f\<close> False show ?thesis unfolding winnerFor_Some at tagged by blast
  qed
qed

lemma kept_field_iff:
  assumes "distinct (map cf_index found)" and "f \<in> set found"
  shows "kept_field found f \<longleftrightarrow> dominant found f"
proof -
  let ?cs = "filter (\<lambda>g. cf_name g = cf_name f) found"
  have cs: "distinct ?cs" "f \<in> set ?cs" using assms by (auto simp: distinct_map)
  have inj: "g = f" if "g \<in> set found" "cf_index g = cf_index f" for g
    using assms that by (auto simp: distinct_map inj_on_def)
  have "kept_field found f \<longleftrightarrow> winnerFor ?cs = Some f"
  proof (cases "winnerFor ?cs")
    case (Some w)
    then have "w \<in> set found" using winnerFor_in[of ?cs w] by simp
    with Some inj[of w] show ?thesis by (auto simp: kept_field_def)
  qed (simp add: kept_field_def)
  with winnerFor_iff[OF cs] show ?thesis by (auto simp: dominant_def)
qed

text \<open>
  C36: of the fields found, \<open>resolveCollisions\<close> keeps exactly the dominant ones, each once and in
  index order: a field survives when every other of its name is deeper, or as deep and without
  the explicit name that this one has; a tie nothing settles removes them all.
\<close>

theorem resolveCollisions_keeps_dominant:
  assumes "collect_levels u {t} [(t, [])] [] = Some (Inr found)" and "deref t = t"
  shows "set (resolveCollisions found) = {f \<in> set found. dominant found f}
    \<and> sorted_wrt (<) (map cf_index (resolveCollisions found))"
proof -
  note found = collect_levels_ok[OF assms]
  have "distinct (map cf_index (filter (kept_field found) found))"
    using found(2) by (rule distinct_map_filter)
  then have "distinct (map cf_index (resolveCollisions found))"
    by (simp add: resolveCollisions_def distinct_map)
  moreover have "sorted (map cf_index (resolveCollisions found))"
    by (simp add: resolveCollisions_def)
  ultimately have "sorted_wrt (<) (map cf_index (resolveCollisions found))"
    by (simp add: strict_sorted_iff)
  with kept_field_iff[OF found(2)] show ?thesis by (auto simp: resolveCollisions_def)
qed

lemma dominates_asym: "dominates f g \<Longrightarrow> \<not> dominates g f"
  by (auto simp: dominates_def)

lemma distinct_names:
  "distinct (map cf_index cs) \<Longrightarrow> \<forall>f\<in>set cs. dominant found f \<and> f \<in> set found \<Longrightarrow> distinct (map cf_name cs)"
proof (induction cs)
  case (Cons f cs)
  have "cf_name g \<noteq> cf_name f" if "g \<in> set cs" for g
  proof
    assume same: "cf_name g = cf_name f"
    have "g \<noteq> f" using Cons.prems(1) that by force
    with same that Cons.prems(2) have "dominates f g" "dominates g f" by (simp_all add: dominant_def)
    then show False by (simp add: dominates_asym)
  qed
  then have "cf_name f \<notin> cf_name ` set cs" by force
  with Cons show ?case by simp
qed simp

lemma collectFields_cases:
  assumes "collectFields u t = Some (Inr cs)"
  obtains found where "collect_levels u {t} [(t, [])] [] = Some (Inr found)" "cs = resolveCollisions found"
proof -
  from assms obtain r where r: "collect_levels u {t} [(t, [])] [] = Some r" "map_sum id resolveCollisions r = Inr cs"
    by (auto simp: collectFields_def)
  with that show ?thesis by (cases r) auto
qed

lemma collectFields_sound:
  assumes "collectFields u t = Some (Inr cs)" and "deref t = t"
  shows "distinct (map cf_name cs)" and "sorted_wrt (<) (map cf_index cs)" and "\<forall>f\<in>set cs. candidate_ok u t f"
proof -
  obtain found where found: "collect_levels u {t} [(t, [])] [] = Some (Inr found)" and cs: "cs = resolveCollisions found"
    using assms(1) by (rule collectFields_cases)
  note ok = collect_levels_ok[OF found assms(2)]
  have set_cs: "set cs \<subseteq> set found" by (auto simp: cs resolveCollisions_def)
  with ok(1) show "\<forall>f\<in>set cs. candidate_ok u t f" by blast
  have dominant: "\<forall>f\<in>set cs. dominant found f \<and> f \<in> set found"
    using kept_field_iff[OF ok(2)] set_cs by (auto simp: cs resolveCollisions_def)
  have "distinct (map cf_index (filter (kept_field found) found))"
    using ok(2) by (rule distinct_map_filter)
  then have distinct: "distinct (map cf_index cs)"
    by (simp add: cs resolveCollisions_def distinct_map)
  with dominant show "distinct (map cf_name cs)" using distinct_names by blast
  have "sorted (map cf_index cs)" by (simp add: cs resolveCollisions_def)
  with distinct show "sorted_wrt (<) (map cf_index cs)" by (simp add: strict_sorted_iff)
qed

text \<open>
  C37: the columns collected are in the order of the struct's declaration, none has the name of
  another, and each is what its index leads to through embedded structs: a field that is not
  dropped, under the name its tag gives or its own.
\<close>

theorem collectFields_columns:
  assumes "collectFields u t = Some (Inr cs)" and "deref t = t"
  shows "distinct (map cf_name cs) \<and> sorted_wrt (<) (map cf_index cs)
    \<and> (\<forall>f\<in>set cs. path_field u t (cf_index f) = Some (cf_sf f) \<and> \<not> tag_skip (cf_tag f)
         \<and> parseFieldTags (sf_Tag (cf_sf f)) = Inr (cf_tag f)
         \<and> cf_name f = (if tag_name (cf_tag f) = [] then sf_Name (cf_sf f) else tag_name (cf_tag f)))"
proof -
  have "cf_name f = (if tag_name (cf_tag f) = [] then sf_Name (cf_sf f) else tag_name (cf_tag f))"
    if "candidate_ok u t f" for f
  proof -
    from that have "f = candidate_of (cf_sf f) (cf_tag f) (butlast (cf_index f)) (last (cf_index f))"
      by (simp add: candidate_ok_def)
    then have "cf_name f = cf_name (candidate_of (cf_sf f) (cf_tag f) (butlast (cf_index f)) (last (cf_index f)))"
      by (rule arg_cong)
    then show ?thesis by (simp add: candidate_of_def)
  qed
  moreover have "\<forall>f\<in>set cs. path_field u t (cf_index f) = Some (cf_sf f) \<and> \<not> tag_skip (cf_tag f)
      \<and> parseFieldTags (sf_Tag (cf_sf f)) = Inr (cf_tag f)"
    using collectFields_sound(3)[OF assms] by (simp add: candidate_ok_def)
  ultimately show ?thesis using collectFields_sound[OF assms] by blast
qed

section \<open>A row type that embeds another\<close>

text \<open>
  A struct \<open>20\<close> with an embedded \<open>21\<close> that embeds \<open>20\<close> again through a pointer: the column
  \<open>ID\<close> of the outer struct hides the embedded one, and \<open>Note\<close> is promoted.
\<close>

definition plain_info :: "kind \<Rightarrow> StructField list \<Rightarrow> type_info" where
  "plain_info k sfs = \<lparr>ti_kind = k, ti_elem = Ty 10, ti_key = Ty 10, ti_fields = sfs,
     ti_RowFiller = None, ti_FieldMarshaler = None, ti_TableDefiner = None, ti_IsZero = None\<rparr>"

definition plain_field :: "string \<Rightarrow> rtype \<Rightarrow> StructField" where
  "plain_field name t = \<lparr>sf_Name = name, sf_Type = t, sf_Anonymous = False, sf_Exported = True, sf_Tag = []\<rparr>"

definition embedded_field :: "string \<Rightarrow> rtype \<Rightarrow> StructField" where
  "embedded_field name t = \<lparr>sf_Name = name, sf_Type = t, sf_Anonymous = True, sf_Exported = True, sf_Tag = []\<rparr>"

definition embedding_types :: types where
  "embedding_types n =
     (if n = 20 then plain_info KStruct [plain_field ''ID'' (Ty 10), embedded_field ''Base'' (Ty 21)]
      else if n = 21 then plain_info KStruct
        [plain_field ''ID'' (Ty 10), embedded_field ''Outer'' (Ptr (Ty 20)), plain_field ''Note'' (Ty 10)]
      else plain_info KString [])"

lemma parseFieldTags_Nil: "parseFieldTags [] = Inr empty_tag"
  by (simp add: parseFieldTags_def parseTag_def tag_Get_def tag_Lookup_def go_cut_def tag_options.simps empty_tag_def)

lemmas walk_simps = Let_def walk_field_def start_level_def parseFieldTags_Nil candidate_of_def plain_info_def
  plain_field_def embedded_field_def

lemma embedding_found:
  "collect_levels embedding_types {Ty 20} [(Ty 20, [])] [] =
     Some (Inr [candidate_of (plain_field ''ID'' (Ty 10)) empty_tag [] 0,
       candidate_of (plain_field ''ID'' (Ty 10)) empty_tag [1] 0,
       candidate_of (plain_field ''Note'' (Ty 10)) empty_tag [1] 2])"
  by (subst collect_levels.simps, simp add: walk_simps embedding_types_def empty_tag_def,
      subst collect_levels.simps, simp add: walk_simps embedding_types_def empty_tag_def,
      subst collect_levels.simps, simp)

theorem collectFields_returns_witness: "\<exists>r. collectFields embedding_types (Ty 20) = Some r"
  by (rule collectFields_returns[of _ "{Ty 10, Ty 20, Ty 21}"])
    (simp_all add: embeds_within_def embedding_types_def walk_simps)

lemma embedding_kept:
  "collectFields embedding_types (Ty 20) = Some (Inr
     [candidate_of (plain_field ''ID'' (Ty 10)) empty_tag [] 0,
      candidate_of (plain_field ''Note'' (Ty 10)) empty_tag [1] 2])"
  by (simp add: collectFields_def embedding_found resolveCollisions_def kept_field_def winnerFor_def
      walk_simps empty_tag_def)

theorem resolveCollisions_keeps_dominant_witness:
  "\<exists>found. length found = 3 \<and> set (resolveCollisions found) = {f \<in> set found. dominant found f}
     \<and> sorted_wrt (<) (map cf_index (resolveCollisions found))"
  by (rule exI, rule conjI[rotated], rule resolveCollisions_keeps_dominant[OF embedding_found]) simp_all

theorem collectFields_columns_witness:
  "\<exists>cs. collectFields embedding_types (Ty 20) = Some (Inr cs) \<and> distinct (map cf_name cs) \<and> length cs = 2"
  by (rule exI, rule conjI, rule embedding_kept, rule conjI, rule conjunct1[OF collectFields_columns[OF embedding_kept]])
    simp_all

end
