(* ===== verification/Values.thy ===== *)
theory Values
  imports GoTypes Complex_Main "HOL-Library.AList"
begin

text \<open>
  Go values as package reflect shows them, what may be stored in a \<open>bigquery.Value\<close>, and rows.
  Numbers of a bounded type are integers here; the conversions between them that the sources
  make are written out where they are made.
\<close>

section \<open>Floating point, instants and civil time\<close>

text \<open>
  A \<open>float64\<close>: a finite value is the rational it stands for, apart from negative zero.
\<close>

datatype float64 = FNaN | FInf bool | FNegZero | FFin rat

text \<open>
  \<open>time.Time\<close>: nanoseconds since the Unix epoch, and the offset of its location from UTC in
  seconds. \<open>IsZero\<close> is January 1, year 1, 00:00:00 UTC.
\<close>

record gotime =
  gt_nanos :: int
  gt_offset :: int

definition zero_time_nanos :: int where
  "zero_time_nanos = - 62135596800 * 1000000000"

definition time_IsZero :: "gotime \<Rightarrow> bool" where
  "time_IsZero t \<longleftrightarrow> gt_nanos t = zero_time_nanos"

definition time_UnixMicro :: "gotime \<Rightarrow> int" where
  "time_UnixMicro t = gt_nanos t div 1000"

text \<open>The types of package civil, another module's: their fields.\<close>

record civil_Date =
  cd_Year :: int
  cd_Month :: int
  cd_Day :: int

record civil_Time =
  ct_Hour :: int
  ct_Minute :: int
  ct_Second :: int
  ct_Nanosecond :: int

type_synonym civil_DateTime = "civil_Date \<times> civil_Time"

text \<open>What the sources call of it.\<close>

record civil =
  civil_DateOf :: "gotime \<Rightarrow> civil_Date"
  civil_TimeOf :: "gotime \<Rightarrow> civil_Time"
  civil_DateTimeOf :: "gotime \<Rightarrow> civil_DateTime"
  Date_String :: "civil_Date \<Rightarrow> string"
  Time_String :: "civil_Time \<Rightarrow> string"
  DateTime_String :: "civil_DateTime \<Rightarrow> string"

section \<open>Values\<close>

text \<open>
  A \<open>reflect.Value\<close> with its type. A pointer or an interface is \<open>None\<close> for nil, as are a slice
  and a map; the structs the sources treat as scalars have constructors of their own; \<open>GOther\<close>
  is a value of any other kind (a channel, a function, a complex number), with whether it is
  nil.
\<close>

datatype goval =
    GBool rtype bool
  | GInt rtype int
  | GUint rtype int
  | GFloat rtype float64
  | GString rtype string
  | GBytes rtype "string option"
  | GByteArray rtype string
  | GSlice rtype "goval list option"
  | GArray rtype "goval list"
  | GMap rtype "(goval \<times> goval) list option"
  | GStruct rtype "goval list"
  | GPtr rtype "goval option"
  | GIface rtype "goval option"
  | GTime gotime
  | GDate civil_Date
  | GCivilTime civil_Time
  | GDateTime civil_DateTime
  | GRat rat
  | GOther rtype bool

fun type_of :: "goval \<Rightarrow> rtype" where
  "type_of (GBool t b) = t"
| "type_of (GInt t i) = t"
| "type_of (GUint t i) = t"
| "type_of (GFloat t f) = t"
| "type_of (GString t s) = t"
| "type_of (GBytes t s) = t"
| "type_of (GByteArray t s) = t"
| "type_of (GSlice t xs) = t"
| "type_of (GArray t xs) = t"
| "type_of (GMap t m) = t"
| "type_of (GStruct t fs) = t"
| "type_of (GPtr t v) = t"
| "type_of (GIface t v) = t"
| "type_of (GTime t) = typeTime"
| "type_of (GDate d) = typeDate"
| "type_of (GCivilTime c) = typeCivilTime"
| "type_of (GDateTime d) = typeDateTime"
| "type_of (GRat r) = typeRat"
| "type_of (GOther t b) = t"

text \<open>\<open>derefValue\<close>: \<open>None\<close> is the invalid Value.\<close>

fun derefValue :: "goval \<Rightarrow> goval option" where
  "derefValue (GPtr t None) = None"
| "derefValue (GPtr t (Some v)) = derefValue v"
| "derefValue v = Some v"

text \<open>What an interface holds, which is what \<open>reflect.ValueOf\<close> of it sees.\<close>

fun unbox :: "goval \<Rightarrow> goval option" where
  "unbox (GIface t v) = v"
| "unbox v = Some v"

text \<open>A value whose pointers agree with their types.\<close>

fun pointers_ok :: "goval \<Rightarrow> bool" where
  "pointers_ok (GPtr (Ptr t) None) \<longleftrightarrow> True"
| "pointers_ok (GPtr (DefPtr n t) None) \<longleftrightarrow> True"
| "pointers_ok (GPtr (Ty n) v) \<longleftrightarrow> False"
| "pointers_ok (GPtr (Ptr t) (Some v)) \<longleftrightarrow> type_of v = t \<and> pointers_ok v"
| "pointers_ok (GPtr (DefPtr n t) (Some v)) \<longleftrightarrow> type_of v = t \<and> pointers_ok v"
| "pointers_ok v \<longleftrightarrow> (\<exists>n. type_of v = Ty n)"

lemma derefValue_type: "pointers_ok v \<Longrightarrow> derefValue v = Some w \<Longrightarrow> type_of w = deref (type_of v)"
  by (induction v rule: pointers_ok.induct) (auto simp: named_types)

lemma derefValue_not_pointer: "derefValue v = Some w \<Longrightarrow> derefValue w = Some w"
  by (induction v rule: derefValue.induct) auto

section \<open>Values of columns\<close>

text \<open>
  The dynamic value of a \<open>bigquery.Value\<close>. A map lists its entries in the order a loop visits
  them, which Go does not fix.
\<close>

datatype bqval =
    BNil
  | BBool bool
  | BInt int
  | BFloat float64
  | BString string
  | BBytes "string option"
  | BRawMessage string
  | BTime gotime
  | BDate civil_Date
  | BCivilTime civil_Time
  | BDateTime civil_DateTime
  | BRatPtr "rat option"
  | BRat rat
  | BList "bqval list"
  | BMap "(string \<times> bqval) list"
  | BOther goval

type_synonym row_values = "(string \<times> bqval) list"

text \<open>\<open>Row\<close> of write.go.\<close>

record Row =
  row_ID :: string
  row_Values :: row_values

text \<open>\<open>m[k] = v\<close>.\<close>

definition map_put :: "'k \<Rightarrow> 'v \<Rightarrow> ('k \<times> 'v) list \<Rightarrow> ('k \<times> 'v) list" where
  "map_put k v m = AList.update k v m"

lemma map_put_keys: "map fst (map_put k v m) = (if k \<in> set (map fst m) then map fst m else map fst m @ [k])"
  by (auto simp: map_put_def update_keys)

lemma map_put_of: "map_of (map_put k v m) = (map_of m)(k \<mapsto> v)"
  by (simp add: map_put_def update_conv')

lemma map_put_new: "k \<notin> fst ` set m \<Longrightarrow> map_put k v m = m @ [(k, v)]"
  by (induction m) (auto simp: map_put_def)

text \<open>A loop that puts one entry for each element, under keys that do not repeat.\<close>

lemma foldl_map_put:
  "distinct (map fst xs) \<Longrightarrow> fst ` set m \<inter> fst ` set xs = {} \<Longrightarrow>
     foldl (\<lambda>m (k, v). map_put k v m) m xs = m @ xs"
proof (induction xs arbitrary: m)
  case Nil
  then show ?case by simp
next
  case (Cons x xs)
  obtain k v where x: "x = (k, v)" by force
  with Cons.prems have "k \<notin> fst ` set m" by auto
  with Cons x show ?case by (auto simp: map_put_new)
qed

end
