(* ===== verification/Marshal.thy ===== *)
theory Marshal
  imports StructFields Values
begin

text \<open>
  marshal.go and the conversions of plan.go: the mappings a caller registers, the method a type
  declares for itself, and the functions that turn one Go value into a value of a column.
\<close>

section \<open>What the conversions call\<close>

text \<open>
  The program's types, and the functions the conversions reach outside this package: package
  civil, the \<open>MarshalBigQueryValue\<close> and \<open>IsZero\<close> methods of the caller's types and of the
  modules they come from, and what a \<open>json.Encoder\<close> that does not escape HTML writes for a
  value held in an \<open>any\<close>, its closing newline included.
\<close>

record go_env =
  ge_types :: types
  ge_civil :: civil
  ge_MarshalBigQueryValue :: "goval \<Rightarrow> gerr + bqval"
  ge_IsZero :: "goval \<Rightarrow> bool"
  ge_Encode :: "goval option \<Rightarrow> gerr + string"

text \<open>
  A \<open>reflect.Value\<close> with the flag that it was read from an unexported field, on which
  \<open>Interface\<close> panics. A panic is no error and nothing returns it; it is shown as the error
  \<open>ReflectPanics\<close>, so that what leads to one stays visible.
\<close>

type_synonym rvalue = "bool \<times> goval"

definition reflect_panic :: "gerr + 'a" where
  "reflect_panic = Inl (EMsg (MarshalSite ReflectPanics))"

text \<open>\<open>v.Interface()\<close>: what the \<open>any\<close> holds, \<open>None\<close> for a nil one.\<close>

definition Interface :: "rvalue \<Rightarrow> gerr + goval option" where
  "Interface rv = (case rv of (ro, v) \<Rightarrow> if ro then reflect_panic else Inr (unbox v))"

section \<open>Registered marshalers\<close>

record typeMarshaler =
  tm_fieldType :: FieldType
  tm_marshal :: "goval option \<Rightarrow> gerr + bqval"

record Marshalers =
  ms_byType :: "(rtype \<times> typeMarshaler) list"
  ms_buildErr :: "gerr option"

text \<open>
  \<open>MarshalFunc\<close>. The assertion \<open>v.(T)\<close> asks an interface type only for its methods, which
  every value of a column of that type has.
\<close>

definition typed_marshal :: "types \<Rightarrow> rtype \<Rightarrow> (goval \<Rightarrow> gerr + bqval) \<Rightarrow> goval option \<Rightarrow> gerr + bqval" where
  "typed_marshal u goType fn v =
     (case v of
        None \<Rightarrow> Inl (EMsg (MarshalSite (MarshalerGivenNil goType)))
      | Some w \<Rightarrow> if type_of w = goType \<or> kind_of u goType = KInterface then fn w
                   else Inl (EMsg (MarshalSite (MarshalerGivenOther goType))))"

definition MarshalFunc :: "types \<Rightarrow> rtype \<Rightarrow> FieldType \<Rightarrow> (goval \<Rightarrow> gerr + bqval) option \<Rightarrow> Marshalers" where
  "MarshalFunc u goType fieldType fn =
     (if kind_of u goType = KPointer
        then \<lparr>ms_byType = [], ms_buildErr = Some (EMsg (PlanSite (MarshalFuncPointer goType)))\<rparr>
      else case fn of
        None \<Rightarrow> \<lparr>ms_byType = [], ms_buildErr = Some (EMsg (PlanSite (MarshalFuncNil goType)))\<rparr>
      | Some f \<Rightarrow> \<lparr>ms_byType = [(goType, \<lparr>tm_fieldType = fieldType, tm_marshal = typed_marshal u goType f\<rparr>)],
                    ms_buildErr = None\<rparr>)"

text \<open>A \<open>*Marshalers\<close> is an option, nil its \<open>None\<close>. \<open>err\<close>, \<open>merge\<close>, \<open>lookup\<close> and \<open>joinMarshalers\<close>.\<close>

definition marshalers_err :: "Marshalers option \<Rightarrow> gerr option" where
  "marshalers_err s = (case s of None \<Rightarrow> None | Some m \<Rightarrow> ms_buildErr m)"

definition merge_marshalers :: "Marshalers \<Rightarrow> Marshalers option \<Rightarrow> Marshalers" where
  "merge_marshalers s other =
     (case other of
        None \<Rightarrow> s
      | Some m \<Rightarrow>
          (let s' = (if ms_buildErr m \<noteq> None \<and> ms_buildErr s = None then s\<lparr>ms_buildErr := ms_buildErr m\<rparr> else s)
           in s'\<lparr>ms_byType := foldl (\<lambda>byType (t, tm). map_put t tm byType) (ms_byType s') (ms_byType m)\<rparr>))"

definition lookup_marshaler :: "Marshalers option \<Rightarrow> rtype \<Rightarrow> typeMarshaler option" where
  "lookup_marshaler s t = (case s of None \<Rightarrow> None | Some m \<Rightarrow> map_of (ms_byType m) (deref t))"

fun join_into :: "Marshalers option \<Rightarrow> Marshalers option list \<Rightarrow> Marshalers option" where
  "join_into joined [] = joined"
| "join_into joined (None # ms) = join_into joined ms"
| "join_into joined (Some m # ms) =
     join_into (Some (merge_marshalers
       (case joined of None \<Rightarrow> \<lparr>ms_byType = [], ms_buildErr = None\<rparr> | Some j \<Rightarrow> j) (Some m))) ms"

definition joinMarshalers :: "Marshalers option list \<Rightarrow> Marshalers option" where
  "joinMarshalers marshalers = join_into None marshalers"

section \<open>Conversions\<close>

definition marshalRegistered :: "typeMarshaler \<Rightarrow> rvalue \<Rightarrow> gerr + bqval" where
  "marshalRegistered m rv =
     (case derefValue (snd rv) of
        None \<Rightarrow> Inr BNil
      | Some v \<Rightarrow> and_then (Interface (fst rv, v)) (tm_marshal m))"

text \<open>
  \<open>marshalViaFieldMarshaler\<close> looks for the method on the value, on its address and on the
  address of a copy; it is the same method, found when pointers to the type have it.
\<close>

definition marshalViaFieldMarshaler :: "go_env \<Rightarrow> rvalue \<Rightarrow> gerr + bqval" where
  "marshalViaFieldMarshaler G rv =
     (case derefValue (snd rv) of
        None \<Rightarrow> Inr BNil
      | Some v \<Rightarrow> and_then (Interface (fst rv, v)) (\<lambda>_.
          if implements (map_option fst \<circ> ti_FieldMarshaler) (ge_types G) (Ptr (type_of v))
          then ge_MarshalBigQueryValue G v
          else Inl (EMsg (MarshalSite (NotFieldMarshaler (type_of v))))))"

definition civil_of :: "civil \<Rightarrow> string \<Rightarrow> gotime \<Rightarrow> bqval" where
  "civil_of C opt t =
     (if opt = ''date'' then BDate (civil_DateOf C t)
      else if opt = ''datetime'' then BDateTime (civil_DateTimeOf C t)
      else BCivilTime (civil_TimeOf C t))"

definition marshalCivilOf :: "go_env \<Rightarrow> string \<Rightarrow> rvalue \<Rightarrow> gerr + bqval" where
  "marshalCivilOf G opt rv =
     (case derefValue (snd rv) of
        None \<Rightarrow> Inr BNil
      | Some v \<Rightarrow> and_then (Interface (fst rv, v)) (\<lambda>x.
          case x of
            Some (GTime t) \<Rightarrow> Inr (civil_of (ge_civil G) opt t)
          | _ \<Rightarrow> Inl (EMsg (MarshalSite (ExpectedType (type_of v))))))"

definition marshalRawMessage :: "rvalue \<Rightarrow> gerr + bqval" where
  "marshalRawMessage rv =
     (case derefValue (snd rv) of
        None \<Rightarrow> Inr BNil
      | Some v \<Rightarrow> and_then (Interface (fst rv, v)) (\<lambda>x.
          case x of
            Some (GBytes t raw) \<Rightarrow>
              if t \<noteq> typeRawMessage then Inl (EMsg (MarshalSite (ExpectedType (type_of v))))
              else (case raw of None \<Rightarrow> Inr BNil | Some text \<Rightarrow> Inr (if text = [] then BNil else BString text))
          | _ \<Rightarrow> Inl (EMsg (MarshalSite (ExpectedType (type_of v))))))"

text \<open>A nil map, interface or slice.\<close>

fun nil_value :: "goval \<Rightarrow> bool" where
  "nil_value (GMap t None) \<longleftrightarrow> True"
| "nil_value (GIface t None) \<longleftrightarrow> True"
| "nil_value (GSlice t None) \<longleftrightarrow> True"
| "nil_value (GBytes t None) \<longleftrightarrow> True"
| "nil_value v \<longleftrightarrow> False"

definition newline_text :: string where
  "newline_text = [CHR 0x0A]"

definition encodeJSON :: "go_env \<Rightarrow> goval option \<Rightarrow> gerr + bqval" where
  "encodeJSON G v =
     (case ge_Encode G v of
        Inl err \<Rightarrow> Inl (EWrap (MarshalSite (CannotEncodeJSON (map_option type_of v))) err)
      | Inr text \<Rightarrow> Inr (BString (trim_suffix text newline_text)))"

definition marshalAsJSON :: "go_env \<Rightarrow> rvalue \<Rightarrow> gerr + bqval" where
  "marshalAsJSON G rv =
     (case derefValue (snd rv) of
        None \<Rightarrow> Inr BNil
      | Some v \<Rightarrow> if nil_value v then Inr BNil
                   else and_then (Interface (fst rv, v)) (encodeJSON G))"

text \<open>The function a column's plan carries.\<close>

datatype conversion = Registered typeMarshaler | OwnMarshaler | CivilOf string | RawJSON | AsJSON

fun run_conversion :: "go_env \<Rightarrow> conversion \<Rightarrow> rvalue \<Rightarrow> gerr + bqval" where
  "run_conversion G (Registered m) rv = marshalRegistered m rv"
| "run_conversion G OwnMarshaler rv = marshalViaFieldMarshaler G rv"
| "run_conversion G (CivilOf opt) rv = marshalCivilOf G opt rv"
| "run_conversion G RawJSON rv = marshalRawMessage rv"
| "run_conversion G AsJSON rv = marshalAsJSON G rv"

section \<open>The list a declaration uses\<close>

text \<open>A map of registrations names no type twice, as every Go map.\<close>

definition marshalers_ok :: "Marshalers option \<Rightarrow> bool" where
  "marshalers_ok s = (case s of None \<Rightarrow> True | Some m \<Rightarrow> distinct (map fst (ms_byType m)))"

lemma foldl_map_put_of:
  "distinct (map fst xs) \<Longrightarrow>
     map_of (foldl (\<lambda>m (k, v). map_put k v m) base xs) = map_of base ++ map_of xs"
proof (induction xs arbitrary: base)
  case (Cons x xs)
  obtain k v where x: "x = (k, v)" by force
  with Cons.prems have new: "map_of xs k = None" by (simp add: map_of_eq_None_iff)
  show ?case
  proof (rule ext)
    fix a
    have "map_of (foldl (\<lambda>m (k, v). map_put k v m) (map_put k v base) xs) a = (map_of (map_put k v base) ++ map_of xs) a"
      using Cons by simp
    with x new show "map_of (foldl (\<lambda>m (k, v). map_put k v m) base (x # xs)) a = (map_of base ++ map_of (x # xs)) a"
      by (cases "a = k") (simp_all add: map_put_of map_add_def split: option.split)
  qed
qed simp

lemma foldl_map_put_distinct:
  "distinct (map fst base) \<Longrightarrow> distinct (map fst (foldl (\<lambda>m (k, v). map_put k v m) base xs))"
  by (induction xs arbitrary: base) (auto simp: map_put_keys)

lemma merge_ok:
  "marshalers_ok (Some s) \<Longrightarrow> marshalers_ok (Some m) \<Longrightarrow> marshalers_ok (Some (merge_marshalers s (Some m)))"
  by (simp add: marshalers_ok_def merge_marshalers_def Let_def foldl_map_put_distinct)

lemma merge_lookup:
  assumes "marshalers_ok (Some m)"
  shows "lookup_marshaler (Some (merge_marshalers s (Some m))) t =
    (case lookup_marshaler (Some m) t of None \<Rightarrow> lookup_marshaler (Some s) t | Some x \<Rightarrow> Some x)"
proof -
  have "ms_byType (merge_marshalers s (Some m)) = foldl (\<lambda>byType (t, tm). map_put t tm byType) (ms_byType s) (ms_byType m)"
    by (simp add: merge_marshalers_def Let_def)
  then have "map_of (ms_byType (merge_marshalers s (Some m))) = map_of (ms_byType s) ++ map_of (ms_byType m)"
    using assms by (simp add: marshalers_ok_def foldl_map_put_of)
  then show ?thesis by (simp add: lookup_marshaler_def map_add_def split: option.split)
qed

lemma merge_err:
  "marshalers_err (Some (merge_marshalers s (Some m))) =
    (case marshalers_err (Some s) of None \<Rightarrow> marshalers_err (Some m) | Some e \<Rightarrow> Some e)"
  by (auto simp: marshalers_err_def merge_marshalers_def Let_def split: option.splits)

fun first_some :: "'a option list \<Rightarrow> 'a option" where
  "first_some [] = None"
| "first_some (Some x # xs) = Some x"
| "first_some (None # xs) = first_some xs"

lemma first_some_append:
  "first_some (xs @ ys) = (case first_some xs of None \<Rightarrow> first_some ys | Some x \<Rightarrow> Some x)"
  by (induction xs rule: first_some.induct) auto

lemma first_some_single [simp]: "first_some [x] = x"
  by (cases x) auto

definition empty_Marshalers :: Marshalers where
  "empty_Marshalers = \<lparr>ms_byType = [], ms_buildErr = None\<rparr>"

lemma join_into_Some:
  "\<forall>m\<in>set ms. marshalers_ok m \<Longrightarrow> marshalers_ok (Some j) \<Longrightarrow>
     lookup_marshaler (join_into (Some j) ms) t
       = first_some (map (\<lambda>m. lookup_marshaler m t) (rev ms) @ [lookup_marshaler (Some j) t])
     \<and> marshalers_err (join_into (Some j) ms) = first_some (marshalers_err (Some j) # map marshalers_err ms)"
proof (induction ms arbitrary: j)
  case (Cons m ms)
  show ?case
  proof (cases m)
    case None
    with Cons show ?thesis
      by (cases "marshalers_err (Some j)")
        (auto simp: first_some_append lookup_marshaler_def marshalers_err_def split: option.splits)
  next
    case (Some m')
    let ?j = "merge_marshalers j (Some m')"
    have "marshalers_ok (Some ?j)" using Cons.prems Some by (intro merge_ok) auto
    then show ?thesis
      using Cons.IH[of ?j] Cons.prems Some
      by (auto simp: merge_lookup merge_err first_some_append split: option.splits)
  qed
qed (auto split: option.splits)

lemma join_into_None:
  "join_into None ms = None \<and> (\<forall>m\<in>set ms. m = None) \<or> join_into None ms = join_into (Some empty_Marshalers) ms"
proof (induction ms)
  case (Cons m ms)
  then show ?case by (cases m) (auto simp: empty_Marshalers_def)
qed simp

lemma first_some_None: "first_some xs = None \<longleftrightarrow> (\<forall>x\<in>set xs. x = None)"
  by (induction xs rule: first_some.induct) auto

text \<open>
  A list of registrations is folded into one whose mapping for a type is the one registered
  last, and which reports the first problem any of them recorded.
\<close>

theorem joinMarshalers_last_wins:
  assumes "\<forall>m\<in>set ms. marshalers_ok m"
  shows "lookup_marshaler (joinMarshalers ms) t = first_some (map (\<lambda>m. lookup_marshaler m t) (rev ms))
    \<and> marshalers_err (joinMarshalers ms) = first_some (map marshalers_err ms)"
  using join_into_None[of ms]
proof (elim disjE conjE)
  assume none: "join_into None ms = None" "\<forall>m\<in>set ms. m = None"
  have "first_some (map (\<lambda>m. lookup_marshaler m t) (rev ms)) = None"
    unfolding first_some_None using none(2) by (auto simp: lookup_marshaler_def)
  moreover have "first_some (map marshalers_err ms) = None"
    unfolding first_some_None using none(2) by (auto simp: marshalers_err_def)
  ultimately show ?thesis using none(1) by (simp add: joinMarshalers_def lookup_marshaler_def marshalers_err_def)
next
  assume "join_into None ms = join_into (Some empty_Marshalers) ms"
  moreover have "marshalers_ok (Some empty_Marshalers)" by (simp add: marshalers_ok_def empty_Marshalers_def)
  ultimately show ?thesis
    using join_into_Some[OF assms, of empty_Marshalers t]
    by (auto simp: joinMarshalers_def first_some_append lookup_marshaler_def marshalers_err_def empty_Marshalers_def
        split: option.splits)
qed

theorem joinMarshalers_last_wins_witness:
  "lookup_marshaler (joinMarshalers
      [Some (MarshalFunc embedding_types (Ty 10) StringFieldType (Some (\<lambda>v. Inr BNil))), None,
       Some (MarshalFunc embedding_types (Ty 10) JSONFieldType (Some (\<lambda>v. Inr BNil)))]) (Ptr (Ty 10))
    = Some \<lparr>tm_fieldType = JSONFieldType, tm_marshal = typed_marshal embedding_types (Ty 10) (\<lambda>v. Inr BNil)\<rparr>"
  by (subst conjunct1[OF joinMarshalers_last_wins])
    (simp_all add: marshalers_ok_def MarshalFunc_def embedding_types_def plain_info_def lookup_marshaler_def)

end
