(* ===== verification/RowPlan.thy ===== *)
theory RowPlan
  imports Marshal
begin

text \<open>
  plan.go, first half: how a struct type becomes a row. A plan lists the columns, the type of
  each and how its value is converted, and what the table's layout is; the schema is read off
  the plan.
\<close>

section \<open>Plans\<close>

text \<open>
  \<open>fieldPlan\<close> and \<open>rowPlan\<close>. The function a column's \<open>marshal\<close> field holds is one of the
  conversions, by name; \<open>rp_labels\<close> is empty for a nil map.
\<close>

datatype fieldPlan =
  FieldPlan (fp_name: string) (fp_index: "nat list") (fp_required: bool) (fp_repeated: bool)
    (fp_nullIfZero: bool) (fp_description: string) (fp_fieldType: FieldType)
    (fp_marshal: "conversion option") (fp_nested: "rowPlan option")
and rowPlan =
  RowPlan (rp_goType: rtype) (rp_fields: "fieldPlan list") (rp_partitioning: "TimePartitioning option")
    (rp_clustering: "string list option") (rp_requireFilter: bool) (rp_description: string)
    (rp_labels: "(string \<times> string) list")

definition wellKnownType :: "rtype \<Rightarrow> FieldType option" where
  "wellKnownType t =
     (if t = typeTime then Some TimestampFieldType
      else if t = typeDate then Some DateFieldType
      else if t = typeCivilTime then Some TimeFieldType
      else if t = typeDateTime then Some DateTimeFieldType
      else if t = typeRat then Some NumericFieldType
      else None)"

section \<open>The table's layout\<close>

definition partitionable :: "FieldType \<Rightarrow> bool" where
  "partitionable ft \<longleftrightarrow> ft \<in> {TimestampFieldType, DateFieldType, DateTimeFieldType}"

definition unclusterable :: "FieldType \<Rightarrow> bool" where
  "unclusterable ft \<longleftrightarrow> ft \<in> {FloatFieldType, JSONFieldType, BytesFieldType, RecordFieldType}"

definition checkPartitionColumn :: "fieldPlan \<Rightarrow> partitioning_type \<Rightarrow> gerr option" where
  "checkPartitionColumn f g =
     (if \<not> partitionable (fp_fieldType f) then Some (EMsg (PlanSite (PartitionColumnType (fp_name f))))
      else if fp_repeated f then Some (EMsg (PlanSite (PartitionColumnRepeated (fp_name f))))
      else if g = HourPartitioningType \<and> fp_fieldType f = DateFieldType
        then Some (EMsg (PlanSite (PartitionDateByHour (fp_name f))))
      else None)"

definition checkClusterColumn :: "fieldPlan \<Rightarrow> gerr option" where
  "checkClusterColumn f =
     (if unclusterable (fp_fieldType f) then Some (EMsg (PlanSite (ClusterColumnType (fp_name f))))
      else if fp_repeated f then Some (EMsg (PlanSite (ClusterColumnRepeated (fp_name f))))
      else None)"

text \<open>What the loop of \<open>resolveLayout\<close> has settled so far.\<close>

record layout =
  ly_partitioning :: "TimePartitioning option"
  ly_requireFilter :: bool
  ly_byPosition :: "(nat \<times> string) list"

definition layout_partition :: "fieldTag \<Rightarrow> fieldPlan \<Rightarrow> layout \<Rightarrow> gerr + layout" where
  "layout_partition tag f ly =
     (case tag_partition tag of
        None \<Rightarrow> Inr ly
      | Some g \<Rightarrow>
          (case ly_partitioning ly of
             Some p \<Rightarrow> Inl (EMsg (PlanSite (TwoPartitionColumns (tp_Field p) (fp_name f))))
           | None \<Rightarrow> guarded (checkPartitionColumn f g)
               (Inr (ly\<lparr>ly_partitioning := Some \<lparr>tp_Field = fp_name f, tp_Type = g\<rparr>,
                        ly_requireFilter := tag_requireFilter tag\<rparr>))))"

definition layout_cluster :: "fieldTag \<Rightarrow> fieldPlan \<Rightarrow> layout \<Rightarrow> gerr + layout" where
  "layout_cluster tag f ly =
     (if tag_cluster tag = 0 then Inr ly
      else case map_of (ly_byPosition ly) (tag_cluster tag) of
             Some other \<Rightarrow> Inl (EMsg (PlanSite (ClusterPositionTaken other (fp_name f) (tag_cluster tag))))
           | None \<Rightarrow> guarded (checkClusterColumn f)
               (Inr (ly\<lparr>ly_byPosition := map_put (tag_cluster tag) (fp_name f) (ly_byPosition ly)\<rparr>)))"

fun layout_fields :: "(fieldTag \<times> fieldPlan) list \<Rightarrow> layout \<Rightarrow> gerr + layout" where
  "layout_fields [] ly = Inr ly"
| "layout_fields ((tag, f) # fs) ly =
     and_then (and_then (layout_partition tag f ly) (layout_cluster tag f)) (layout_fields fs)"

definition cluster_fields :: "(nat \<times> string) list \<Rightarrow> gerr + string list" where
  "cluster_fields byPosition =
     traverse (\<lambda>position. case map_of byPosition position of
         None \<Rightarrow> Inl (EMsg (PlanSite (ClusterPositionMissing position (length byPosition))))
       | Some name \<Rightarrow> Inr name) [1..<Suc (length byPosition)]"

text \<open>The fields of the plan \<open>resolveLayout\<close> sets: partitioning, clustering and the filter.\<close>

definition resolveLayout ::
  "(fieldTag \<times> fieldPlan) list \<Rightarrow> gerr + (TimePartitioning option \<times> string list option \<times> bool)" where
  "resolveLayout fs =
     and_then (layout_fields fs \<lparr>ly_partitioning = None, ly_requireFilter = False, ly_byPosition = []\<rparr>) (\<lambda>ly.
       if ly_byPosition ly = [] then Inr (ly_partitioning ly, None, ly_requireFilter ly)
       else and_then (cluster_fields (ly_byPosition ly)) (\<lambda>names.
              Inr (ly_partitioning ly, Some names, ly_requireFilter ly)))"

section \<open>The type of a column\<close>

type_synonym column_kind = "FieldType \<times> conversion option \<times> rowPlan option"

definition resolveJSON :: "types \<Rightarrow> rtype \<Rightarrow> gerr + column_kind" where
  "resolveJSON u dt =
     (let column = (JSONFieldType, Some (if dt = typeRawMessage then RawJSON else AsJSON), None)
      in if kind_of u dt \<in> {KStruct, KInterface} then Inr column
         else if kind_of u dt = KMap
           then (if kind_of u (key_of u dt) \<noteq> KString then Inl (EMsg (PlanSite (MapKeyNotString (key_of u dt))))
                 else Inr column)
         else if kind_of u dt \<in> {KSlice, KArray} \<and> dt = typeRawMessage then Inr column
         else Inl (EMsg (PlanSite (UnsupportedType dt))))"

definition resolveTimeType :: "Marshalers option \<Rightarrow> rtype \<Rightarrow> fieldTag \<Rightarrow> gerr + column_kind" where
  "resolveTimeType ms t tag =
     (case time_column (tag_timeType tag) of
        None \<Rightarrow> Inl (EMsg (TagSite (UnknownTagOption (tag_timeType tag))))
      | Some fieldType \<Rightarrow>
          if deref t \<noteq> typeTime then Inl (EMsg (PlanSite (TimeOptionNeedsTime (tag_timeType tag) (deref t))))
          else if lookup_marshaler ms t \<noteq> None then Inl (EMsg (PlanSite (TimeOptionAndMarshaler (tag_timeType tag))))
          else Inr (fieldType, Some (CivilOf (tag_timeType tag)), None))"

text \<open>The switch on the kind at the end of \<open>resolveType\<close>.\<close>

definition kind_column :: "types \<Rightarrow> rtype \<Rightarrow> gerr + column_kind" where
  "kind_column u dt =
     (case kind_of u dt of
        KString \<Rightarrow> Inr (StringFieldType, None, None)
      | KBool \<Rightarrow> Inr (BooleanFieldType, None, None)
      | KInt \<Rightarrow> Inr (IntegerFieldType, None, None)
      | KInt8 \<Rightarrow> Inr (IntegerFieldType, None, None)
      | KInt16 \<Rightarrow> Inr (IntegerFieldType, None, None)
      | KInt32 \<Rightarrow> Inr (IntegerFieldType, None, None)
      | KInt64 \<Rightarrow> Inr (IntegerFieldType, None, None)
      | KUint8 \<Rightarrow> Inr (IntegerFieldType, None, None)
      | KUint16 \<Rightarrow> Inr (IntegerFieldType, None, None)
      | KUint32 \<Rightarrow> Inr (IntegerFieldType, None, None)
      | KUint \<Rightarrow> Inr (NumericFieldType, None, None)
      | KUint64 \<Rightarrow> Inr (NumericFieldType, None, None)
      | KFloat32 \<Rightarrow> Inr (FloatFieldType, None, None)
      | KFloat64 \<Rightarrow> Inr (FloatFieldType, None, None)
      | k \<Rightarrow> if k \<in> {KSlice, KArray} \<and> isByteSequence u dt \<and> dt \<noteq> typeRawMessage
               then Inr (BytesFieldType, None, None)
               else resolveJSON u dt)"

text \<open>\<open>rec\<close> stands for the call of \<open>buildRowPlanFor\<close> on the struct of a RECORD column.\<close>

definition resolveType ::
  "(rtype \<Rightarrow> (gerr + rowPlan) option) \<Rightarrow> types \<Rightarrow> Marshalers option \<Rightarrow> rtype \<Rightarrow> fieldTag \<Rightarrow>
     (gerr + column_kind) option" where
  "resolveType rec u ms t tag =
     (if tag_timeType tag \<noteq> [] then Some (resolveTimeType ms t tag)
      else case lookup_marshaler ms t of
        Some m \<Rightarrow>
          Some (if tm_fieldType m = RecordFieldType then Inl (EMsg (PlanSite (RegisteredRecord (deref t))))
                else Inr (tm_fieldType m, Some (Registered m), None))
      | None \<Rightarrow>
      (case fieldMarshalerOf u t of
        Some ft \<Rightarrow>
          Some (if ft = RecordFieldType then Inl (EMsg (PlanSite (FieldMarshalerRecord (deref t))))
                else Inr (ft, Some OwnMarshaler, None))
      | None \<Rightarrow>
      (case wellKnownType (deref t) of
        Some ft \<Rightarrow> Some (Inr (ft, None, None))
      | None \<Rightarrow>
          if tag_record tag then
            (if kind_of u (deref t) \<noteq> KStruct then Some (Inl (EMsg (PlanSite (RecordNeedsStruct (deref t)))))
             else returns_then (rec (deref t)) (\<lambda>nested. Some (Inr (RecordFieldType, None, Some nested))))
          else Some (kind_column u (deref t)))))"

definition buildFieldPlan ::
  "(rtype \<Rightarrow> (gerr + rowPlan) option) \<Rightarrow> types \<Rightarrow> Marshalers option \<Rightarrow> candidateField \<Rightarrow>
     (gerr + fieldPlan) option" where
  "buildFieldPlan rec u ms c =
     (let t = deref (sf_Type (cf_sf c));
          repeated = isRepeated u t;
          column = resolveType rec u ms (if repeated then elem_of u t else t) (cf_tag c)
      in returns_then (map_option (map_error (EWrap (PlanSite (InField (sf_Name (cf_sf c)))))) column)
           (\<lambda>(fieldType, marshal, nested). Some (Inr
              (FieldPlan (cf_name c) (cf_index c) (tag_required (cf_tag c) \<and> \<not> repeated) repeated
                 (tag_nullIfZero (cf_tag c)) (tag_description (cf_tag c)) fieldType marshal nested))))"

fun build_fields ::
  "(rtype \<Rightarrow> (gerr + rowPlan) option) \<Rightarrow> types \<Rightarrow> Marshalers option \<Rightarrow> candidateField list \<Rightarrow>
     (gerr + fieldPlan list) option" where
  "build_fields rec u ms [] = Some (Inr [])"
| "build_fields rec u ms (c # cs) =
     returns_then (buildFieldPlan rec u ms c) (\<lambda>f.
       returns_then (build_fields rec u ms cs) (\<lambda>fs. Some (Inr (f # fs))))"

text \<open>The body of \<open>buildRowPlanFor\<close>.\<close>

definition struct_plan ::
  "(rtype \<Rightarrow> (gerr + rowPlan) option) \<Rightarrow> types \<Rightarrow> Marshalers option \<Rightarrow> rtype \<Rightarrow> (gerr + rowPlan) option" where
  "struct_plan rec u ms t =
     (if kind_of u t \<noteq> KStruct then Some (Inl (EMsg (PlanSite (NotAStruct t))))
      else returns_then (collectFields u t) (\<lambda>candidates.
           returns_then (Some (map_error (EWrap (PlanSite (InType t))) (tableMetaOf u t))) (\<lambda>meta.
           returns_then (build_fields rec u ms candidates) (\<lambda>plans.
             if plans = [] then Some (Inl (EMsg (PlanSite (NoUsableFields t))))
             else Some (map_error (EWrap (PlanSite (InType t)))
               (and_then (resolveLayout (zip (map cf_tag candidates) plans))
                 (\<lambda>(partitioning, clustering, requireFilter).
                   Inr (RowPlan t plans partitioning clustering requireFilter
                     (meta_description meta) (meta_labels meta)))))))))"

text \<open>
  The recursion into the structs of RECORD columns is bounded by a number of levels, with
  \<open>None\<close> when it is used up: the code has no such bound, and a type that is a RECORD inside
  itself sends it down for ever.
\<close>

fun buildRowPlanFor :: "nat \<Rightarrow> types \<Rightarrow> Marshalers option \<Rightarrow> rtype \<Rightarrow> (gerr + rowPlan) option" where
  "buildRowPlanFor 0 u ms t = None"
| "buildRowPlanFor (Suc n) u ms t = struct_plan (buildRowPlanFor n u ms) u ms t"

definition buildRowPlan :: "nat \<Rightarrow> types \<Rightarrow> Marshalers option \<Rightarrow> rtype \<Rightarrow> (gerr + rowPlan) option" where
  "buildRowPlan n u ms t =
     (case marshalers_err ms of
        Some err \<Rightarrow> Some (Inl err)
      | None \<Rightarrow> buildRowPlanFor n u ms (deref t))"

section \<open>What the plan declares\<close>

fun plan_schema :: "rowPlan \<Rightarrow> Schema"
  and field_schema :: "fieldPlan \<Rightarrow> FieldSchema" where
  "plan_schema (RowPlan t plans p c r d l) = map field_schema plans"
| "field_schema (FieldPlan name index required repeated nullIfZero description fieldType marshal nested) =
     FieldSchema name fieldType required repeated description 0
       (case nested of None \<Rightarrow> [] | Some p \<Rightarrow> plan_schema p)"

definition columnNames :: "rowPlan \<Rightarrow> string list" where
  "columnNames p = map fp_name (rp_fields p)"

section \<open>What every plan built satisfies\<close>

lemma plan_schema_eq: "plan_schema p = map field_schema (rp_fields p)"
  by (cases p) simp

lemma field_schema_sel [simp]:
  "fs_Name (field_schema f) = fp_name f" "fs_Type (field_schema f) = fp_fieldType f"
  "fs_Required (field_schema f) = fp_required f" "fs_Repeated (field_schema f) = fp_repeated f"
  "fs_Schema (field_schema f) = (case fp_nested f of None \<Rightarrow> [] | Some p \<Rightarrow> plan_schema p)"
  by (cases f; simp)+

lemma namesOf_plan: "namesOf (plan_schema p) = columnNames p"
  by (simp add: namesOf_def plan_schema_eq columnNames_def)

text \<open>
  Column names do not repeat, there is a column, exactly the RECORD columns have a plan of their
  own and no conversion, and no column is both repeated and required.
\<close>

fun plan_ok :: "rowPlan \<Rightarrow> bool" and column_ok :: "fieldPlan \<Rightarrow> bool" where
  "plan_ok (RowPlan t fs p c r d l) \<longleftrightarrow> distinct (map fp_name fs) \<and> fs \<noteq> [] \<and> (\<forall>f\<in>set fs. column_ok f)"
| "column_ok (FieldPlan name index required repeated nullIfZero description fieldType marshal nested) \<longleftrightarrow>
     (fieldType = RecordFieldType \<longleftrightarrow> nested \<noteq> None) \<and> \<not> (required \<and> repeated)
     \<and> (case nested of None \<Rightarrow> True | Some p \<Rightarrow> marshal = None \<and> plan_ok p)"

lemma plan_ok_iff:
  "plan_ok p \<longleftrightarrow> distinct (columnNames p) \<and> rp_fields p \<noteq> [] \<and> (\<forall>f\<in>set (rp_fields p). column_ok f)"
  by (cases p) (simp add: columnNames_def)

lemma column_okD:
  assumes "column_ok f"
  shows "fp_fieldType f = RecordFieldType \<longleftrightarrow> fp_nested f \<noteq> None" and "\<not> (fp_required f \<and> fp_repeated f)"
    and "fp_nested f = Some p \<Longrightarrow> fp_marshal f = None" and "fp_nested f = Some p \<Longrightarrow> plan_ok p"
  using assms by (cases f; auto split: option.splits)+

lemma build_fields_Inr:
  "build_fields rec u ms cs = Some (Inr fs) \<longleftrightarrow> list_all2 (\<lambda>c f. buildFieldPlan rec u ms c = Some (Inr f)) cs fs"
  by (induction cs arbitrary: fs) (auto simp: returns_then_Inr list_all2_Cons1)

lemma map_option_error_Inr: "map_option (map_error w) m = Some (Inr x) \<longleftrightarrow> m = Some (Inr x)"
  by (auto simp: map_error_Inr)

lemma buildFieldPlan_Inr:
  assumes "buildFieldPlan rec u ms c = Some (Inr f)"
  obtains t ft m nested where "t = deref (sf_Type (cf_sf c))"
    "resolveType rec u ms (if isRepeated u t then elem_of u t else t) (cf_tag c) = Some (Inr (ft, m, nested))"
    "f = FieldPlan (cf_name c) (cf_index c) (tag_required (cf_tag c) \<and> \<not> isRepeated u t) (isRepeated u t)
       (tag_nullIfZero (cf_tag c)) (tag_description (cf_tag c)) ft m nested"
  using assms unfolding buildFieldPlan_def Let_def by (auto simp: returns_then_Inr map_error_Inr)

lemma resolveJSON_Inr: "resolveJSON u dt = Inr k \<Longrightarrow> fst k = JSONFieldType \<and> snd (snd k) = None"
  by (auto simp: resolveJSON_def Let_def split: if_splits)

lemma kind_column_Inr: "kind_column u dt = Inr k \<Longrightarrow> fst k \<noteq> RecordFieldType \<and> snd (snd k) = None"
  by (cases "kind_of u dt") (auto simp: kind_column_def dest: resolveJSON_Inr split: if_splits)

lemma time_column_not_record: "time_column opt = Some ft \<Longrightarrow> ft \<noteq> RecordFieldType"
  by (auto simp: time_column_def split: if_splits)

lemma wellKnownType_not_record: "wellKnownType t = Some ft \<Longrightarrow> ft \<noteq> RecordFieldType"
  by (auto simp: wellKnownType_def split: if_splits)

text \<open>The ways a column's type is settled, each with what it means for the plan.\<close>

lemma resolveType_Inr:
  assumes "resolveType rec u ms t tag = Some (Inr (ft, m, nested))"
  shows "(ft \<noteq> RecordFieldType \<and> nested = None)
    \<or> (ft = RecordFieldType \<and> m = None \<and> (\<exists>p. nested = Some p \<and> rec (deref t) = Some (Inr p)))"
proof (cases "tag_timeType tag = []")
  case False
  with assms show ?thesis
    by (auto simp: resolveType_def resolveTimeType_def dest: time_column_not_record split: option.splits if_splits)
next
  case True
  show ?thesis
  proof (cases "lookup_marshaler ms t")
    case None
    show ?thesis
    proof (cases "fieldMarshalerOf u t")
      case no_method: None
      show ?thesis
      proof (cases "wellKnownType (deref t)")
        case no_known: None
        show ?thesis
        proof (cases "tag_record tag")
          case marked: True
          with assms True None no_method no_known show ?thesis
            by (auto simp: resolveType_def returns_then_Inr split: if_splits)
        next
          case False
          with assms True None no_method no_known have "kind_column u (deref t) = Inr (ft, m, nested)"
            by (simp add: resolveType_def)
          then show ?thesis by (auto dest: kind_column_Inr)
        qed
      next
        case (Some k)
        with assms True None no_method wellKnownType_not_record[OF Some] show ?thesis
          by (auto simp: resolveType_def)
      qed
    next
      case (Some k)
      with assms True None show ?thesis by (auto simp: resolveType_def split: if_splits)
    qed
  next
    case (Some k)
    with assms True show ?thesis by (auto simp: resolveType_def split: if_splits)
  qed
qed

lemma build_column_ok:
  assumes "buildFieldPlan rec u ms c = Some (Inr f)" and "\<And>t p. rec t = Some (Inr p) \<Longrightarrow> plan_ok p"
  shows "column_ok f"
  using assms(1)
proof (rule buildFieldPlan_Inr)
  fix t ft m nested
  assume r: "resolveType rec u ms (if isRepeated u t then elem_of u t else t) (cf_tag c) = Some (Inr (ft, m, nested))"
    and f: "f = FieldPlan (cf_name c) (cf_index c) (tag_required (cf_tag c) \<and> \<not> isRepeated u t) (isRepeated u t)
       (tag_nullIfZero (cf_tag c)) (tag_description (cf_tag c)) ft m nested"
  from resolveType_Inr[OF r] show ?thesis
    using assms(2) by (auto simp: f)
qed

lemma build_names:
  "list_all2 (\<lambda>c f. buildFieldPlan rec u ms c = Some (Inr f)) cs fs \<Longrightarrow> map fp_name fs = map cf_name cs"
  by (induction rule: list_all2_induct) (auto elim: buildFieldPlan_Inr)

lemma buildRowPlanFor_Inr:
  assumes "buildRowPlanFor n u ms t = Some (Inr p)"
  obtains m cs fs part clus filt meta where "n = Suc m" "kind_of u t = KStruct" "collectFields u t = Some (Inr cs)"
    "list_all2 (\<lambda>c f. buildFieldPlan (buildRowPlanFor m u ms) u ms c = Some (Inr f)) cs fs" "fs \<noteq> []"
    "resolveLayout (zip (map cf_tag cs) fs) = Inr (part, clus, filt)" "tableMetaOf u t = Inr meta"
    "p = RowPlan t fs part clus filt (meta_description meta) (meta_labels meta)"
proof (cases n)
  case (Suc m)
  with assms that[of m] show ?thesis
    by (auto simp: struct_plan_def returns_then_Inr and_then_Inr map_error_Inr build_fields_Inr split: if_splits)
qed (use assms in simp)

lemma struct_not_pointer: "kind_of u t = KStruct \<Longrightarrow> deref t = t"
  by (cases t) auto

lemma built_plan_ok: "buildRowPlanFor n u ms t = Some (Inr p) \<Longrightarrow> plan_ok p"
proof (induction n arbitrary: t p)
  case (Suc n)
  from Suc.prems show ?case
  proof (rule buildRowPlanFor_Inr)
    fix m cs fs part clus filt meta
    assume m: "Suc n = Suc m" and t: "kind_of u t = KStruct" and cs: "collectFields u t = Some (Inr cs)"
      and fs: "list_all2 (\<lambda>c f. buildFieldPlan (buildRowPlanFor m u ms) u ms c = Some (Inr f)) cs fs" "fs \<noteq> []"
      and p: "p = RowPlan t fs part clus filt (meta_description meta) (meta_labels meta)"
    have "distinct (map fp_name fs)"
      using collectFields_sound(1)[OF cs struct_not_pointer[OF t]] build_names[OF fs(1)] by simp
    moreover have "column_ok f" if "f \<in> set fs" for f
    proof -
      from fs(1) that obtain c where "buildFieldPlan (buildRowPlanFor m u ms) u ms c = Some (Inr f)"
        by (auto simp: list_all2_conv_all_nth in_set_conv_nth)
      then show ?thesis by (rule build_column_ok) (use Suc.IH m in simp)
    qed
    ultimately show ?thesis using fs(2) by (simp add: p)
  qed
qed simp

lemma buildRowPlan_Inr:
  "buildRowPlan n u ms t = Some (Inr p) \<longleftrightarrow> marshalers_err ms = None \<and> buildRowPlanFor n u ms (deref t) = Some (Inr p)"
  by (auto simp: buildRowPlan_def split: option.splits)

section \<open>The schema inferred\<close>

text \<open>Exactly the RECORD columns have columns of their own, and no column is required and repeated.\<close>

fun records_ok :: "FieldSchema \<Rightarrow> bool" where
  "records_ok (FieldSchema n t required repeated d s cols) \<longleftrightarrow>
     (t = RecordFieldType \<longleftrightarrow> cols \<noteq> []) \<and> \<not> (required \<and> repeated) \<and> (\<forall>f\<in>set cols. records_ok f)"

lemma plan_schema_ok:
  "plan_ok p \<Longrightarrow> wf_schema (plan_schema p) \<and> (\<forall>f\<in>set (plan_schema p). records_ok f)"
  "column_ok f \<Longrightarrow> wf_schema (fs_Schema (field_schema f)) \<and> records_ok (field_schema f)"
proof (induction p and f rule: plan_ok_column_ok.induct)
  case (1 t fs p c r d l)
  then have "distinct (map fs_Name (map field_schema fs))" by (simp add: o_def)
  with 1 show ?case by (auto simp: wf_schema.simps[of "map field_schema fs"])
next
  case (2 name index required repeated nullIfZero description fieldType marshal nested)
  then show ?case by (cases nested) (auto simp: plan_schema_eq plan_ok_iff)
qed

text \<open>
  C30: the schema inferred from a struct is one BigQuery can hold, and it declares the columns
  the rows write: at every depth no name occurs twice, exactly the RECORD columns have columns
  of their own, and none is both required and repeated.
\<close>

theorem inferred_schema_is_well_formed:
  assumes "buildRowPlan n u ms t = Some (Inr p)"
  shows "wf_schema (plan_schema p) \<and> (\<forall>f\<in>set (plan_schema p). records_ok f)
    \<and> plan_schema p \<noteq> [] \<and> namesOf (plan_schema p) = columnNames p"
proof -
  have "plan_ok p" using assms built_plan_ok by (auto simp: buildRowPlan_Inr)
  with plan_schema_ok(1)[OF this] show ?thesis
    using namesOf_plan[of p] by (simp add: plan_ok_iff plan_schema_eq)
qed

section \<open>A row type with a nested struct\<close>

text \<open>
  A log record: a required partitioned time, a clustered user, tags, an amount, and a request
  kept as a RECORD.
\<close>

definition tagged_field :: "string \<Rightarrow> rtype \<Rightarrow> (string \<times> string) list \<Rightarrow> StructField" where
  "tagged_field name t tag = \<lparr>sf_Name = name, sf_Type = t, sf_Anonymous = False, sf_Exported = True, sf_Tag = tag\<rparr>"

definition log_fields :: "StructField list" where
  "log_fields = [tagged_field ''At'' typeTime [(''bqsink'', ''at,required''), (''partition'', ''day'')],
     tagged_field ''User'' (Ty 10) [(''cluster'', ''1'')],
     tagged_field ''Tags'' (Ty 11) [],
     tagged_field ''Request'' (Ptr (Ty 21)) [(''bqsink'', '',record'')]]"

definition log_types :: types where
  "log_types n =
     (if n = 20 then plain_info KStruct log_fields
      else if n = 21 then plain_info KStruct [plain_field ''Path'' (Ty 10), plain_field ''Size'' (Ty 12)]
      else if n = 11 then (plain_info KSlice [])\<lparr>ti_elem := Ty 10\<rparr>
      else if n = 12 then plain_info KInt64 []
      else if n \<le> 4 then plain_info KStruct []
      else plain_info KString [])"

definition log_plan :: rowPlan where
  "log_plan = RowPlan (Ty 20)
     [FieldPlan ''at'' [0] True False False [] TimestampFieldType None None,
      FieldPlan ''User'' [1] False False False [] StringFieldType None None,
      FieldPlan ''Tags'' [2] False True False [] StringFieldType None None,
      FieldPlan ''Request'' [3] False False False [] RecordFieldType None
        (Some (RowPlan (Ty 21)
          [FieldPlan ''Path'' [0] False False False [] StringFieldType None None,
           FieldPlan ''Size'' [1] False False False [] IntegerFieldType None None] None None False [] []))]
     (Some \<lparr>tp_Field = ''at'', tp_Type = DayPartitioningType\<rparr>) (Some [''User'']) False [] []"

lemmas tag_simps = parseFieldTags_def tag_keys tag_Get_def tag_Lookup_def parseTag_def go_cut_def tag_options.simps
  tag_option_def parsePartition_def partition_options.simps granularity_def ascii_lower_def parseCluster_def
  go_atoi_def unsigned_value_def maxClusteringColumns_def empty_tag_def time_column_def

lemma log_tags:
  "parseFieldTags [(''bqsink'', ''at,required''), (''partition'', ''day'')]
     = Inr (empty_tag\<lparr>tag_name := ''at'', tag_required := True, tag_partition := Some DayPartitioningType\<rparr>)"
  "parseFieldTags [(''cluster'', ''1'')] = Inr (empty_tag\<lparr>tag_cluster := 1\<rparr>)"
  "parseFieldTags [(''bqsink'', '',record'')] = Inr (empty_tag\<lparr>tag_record := True\<rparr>)"
  by (simp_all add: tag_simps)

lemmas type_simps = log_types_def plain_info_def named_types

lemma log_candidates:
  "collectFields log_types (Ty 20) = Some (Inr
     [candidate_of (log_fields ! 0) (empty_tag\<lparr>tag_name := ''at'', tag_required := True, tag_partition := Some DayPartitioningType\<rparr>) [] 0,
      candidate_of (log_fields ! 1) (empty_tag\<lparr>tag_cluster := 1\<rparr>) [] 1,
      candidate_of (log_fields ! 2) empty_tag [] 2,
      candidate_of (log_fields ! 3) (empty_tag\<lparr>tag_record := True\<rparr>) [] 3])"
  by (simp add: collectFields_def collect_levels.simps walk_simps type_simps log_fields_def tagged_field_def log_tags
      resolveCollisions_def kept_field_def winnerFor_def empty_tag_def)

lemma request_candidates:
  "collectFields log_types (Ty 21) = Some (Inr
     [candidate_of (plain_field ''Path'' (Ty 10)) empty_tag [] 0, candidate_of (plain_field ''Size'' (Ty 12)) empty_tag [] 1])"
  by (simp add: collectFields_def collect_levels.simps walk_simps type_simps
      resolveCollisions_def kept_field_def winnerFor_def empty_tag_def)

lemmas plan_simps = buildFieldPlan_def resolveType_def lookup_marshaler_def fieldMarshalerOf_def wellKnownType_def
  isRepeated_def isByteSequence_def kind_column_def tableMetaOf_def resolveLayout_def layout_partition_def
  layout_cluster_def checkPartitionColumn_def checkClusterColumn_def partitionable_def unclusterable_def
  cluster_fields_def map_put_def

lemma request_plan:
  "buildRowPlanFor (Suc n) log_types None (Ty 21) = Some (Inr (RowPlan (Ty 21)
     [FieldPlan ''Path'' [0] False False False [] StringFieldType None None,
      FieldPlan ''Size'' [1] False False False [] IntegerFieldType None None] None None False [] []))"
  by (simp add: struct_plan_def request_candidates plan_simps walk_simps type_simps empty_tag_def)

lemma log_plan_built: "buildRowPlan (Suc (Suc n)) log_types None (Ptr (Ty 20)) = Some (Inr log_plan)"
  unfolding buildRowPlan_def marshalers_err_def option.case deref.simps
  by (subst buildRowPlanFor.simps)
    (simp add: struct_plan_def log_candidates request_plan plan_simps walk_simps type_simps empty_tag_def log_fields_def
      tagged_field_def log_plan_def del: buildRowPlanFor.simps)

theorem inferred_schema_is_well_formed_witness:
  "wf_schema (plan_schema log_plan) \<and> plan_schema log_plan \<noteq> []
    \<and> namesOf (plan_schema log_plan) = columnNames log_plan"
  using inferred_schema_is_well_formed[OF log_plan_built] by simp

end
