(* ===== verification/RowValues.thy ===== *)
theory RowValues
  imports RowPlan
begin

text \<open>
  plan.go, second half: a value of the struct type becomes a row by the plan.
\<close>

section \<open>Zero values\<close>

definition zero_Date :: "civil_Date \<Rightarrow> bool" where
  "zero_Date d \<longleftrightarrow> cd_Year d = 0 \<and> cd_Month d = 0 \<and> cd_Day d = 0"

definition zero_Time :: "civil_Time \<Rightarrow> bool" where
  "zero_Time t \<longleftrightarrow> ct_Hour t = 0 \<and> ct_Minute t = 0 \<and> ct_Second t = 0 \<and> ct_Nanosecond t = 0"

text \<open>
  \<open>reflect.Value.IsZero\<close>. Whether a zero \<open>big.Rat\<close> has never been written, which its number
  does not tell, is asked of the environment.
\<close>

fun reflect_IsZero :: "go_env \<Rightarrow> goval \<Rightarrow> bool" where
  "reflect_IsZero G (GBool t b) \<longleftrightarrow> \<not> b"
| "reflect_IsZero G (GInt t i) \<longleftrightarrow> i = 0"
| "reflect_IsZero G (GUint t i) \<longleftrightarrow> i = 0"
| "reflect_IsZero G (GFloat t f) \<longleftrightarrow> f = FFin 0"
| "reflect_IsZero G (GString t s) \<longleftrightarrow> s = []"
| "reflect_IsZero G (GBytes t b) \<longleftrightarrow> b = None"
| "reflect_IsZero G (GByteArray t b) \<longleftrightarrow> (\<forall>c\<in>set b. of_char c = (0 :: nat))"
| "reflect_IsZero G (GSlice t xs) \<longleftrightarrow> xs = None"
| "reflect_IsZero G (GArray t xs) \<longleftrightarrow> (\<forall>x\<in>set xs. reflect_IsZero G x)"
| "reflect_IsZero G (GMap t m) \<longleftrightarrow> m = None"
| "reflect_IsZero G (GStruct t fs) \<longleftrightarrow> (\<forall>f\<in>set fs. reflect_IsZero G f)"
| "reflect_IsZero G (GPtr t v) \<longleftrightarrow> v = None"
| "reflect_IsZero G (GIface t v) \<longleftrightarrow> v = None"
| "reflect_IsZero G (GTime t) \<longleftrightarrow> time_IsZero t \<and> gt_offset t = 0"
| "reflect_IsZero G (GDate d) \<longleftrightarrow> zero_Date d"
| "reflect_IsZero G (GCivilTime t) \<longleftrightarrow> zero_Time t"
| "reflect_IsZero G (GDateTime dt) \<longleftrightarrow> zero_Date (fst dt) \<and> zero_Time (snd dt)"
| "reflect_IsZero G (GRat r) \<longleftrightarrow> r = 0 \<and> ge_IsZero G (GRat r)"
| "reflect_IsZero G (GOther t nil) \<longleftrightarrow> nil"

text \<open>A call of an \<open>IsZero\<close> method: \<open>time.Time\<close>'s, or one from outside.\<close>

fun call_IsZero :: "go_env \<Rightarrow> goval \<Rightarrow> bool" where
  "call_IsZero G (GTime t) = time_IsZero t"
| "call_IsZero G (GPtr t (Some (GTime s))) = time_IsZero s"
| "call_IsZero G v = ge_IsZero G v"

text \<open>\<open>zeroChecker\<close> with the call of what it finds: \<open>None\<close> where the type has no such method.\<close>

definition zeroChecker :: "go_env \<Rightarrow> goval option \<Rightarrow> goval \<Rightarrow> bool option" where
  "zeroChecker G dyn fv =
     (case dyn of
        Some v \<Rightarrow>
          if implements ti_IsZero (ge_types G) (type_of v) then Some (call_IsZero G v)
          else if implements ti_IsZero (ge_types G) (Ptr (type_of fv)) then Some (call_IsZero G fv)
          else None
      | None \<Rightarrow> None)"

definition isZeroValue :: "go_env \<Rightarrow> rvalue \<Rightarrow> gerr + bool" where
  "isZeroValue G rv =
     (case snd rv of
        GPtr t None \<Rightarrow> Inr True
      | fv \<Rightarrow> and_then (Interface rv) (\<lambda>dyn.
          Inr (case zeroChecker G dyn fv of Some zero \<Rightarrow> zero | None \<Rightarrow> reflect_IsZero G fv)))"

text \<open>The elements of a slice or an array; \<open>Len\<close> and \<open>Index\<close> of any other kind panic.\<close>

fun sequence_elements :: "goval \<Rightarrow> goval list option" where
  "sequence_elements (GSlice t None) = Some []"
| "sequence_elements (GSlice t (Some xs)) = Some xs"
| "sequence_elements (GArray t xs) = Some xs"
| "sequence_elements v = None"

fun is_empty_sequence :: "goval option \<Rightarrow> bool" where
  "is_empty_sequence None \<longleftrightarrow> True"
| "is_empty_sequence (Some (GBytes t b)) \<longleftrightarrow> b = None \<or> b = Some []"
| "is_empty_sequence (Some (GByteArray t b)) \<longleftrightarrow> b = []"
| "is_empty_sequence (Some v) \<longleftrightarrow> sequence_elements v = Some []"

definition isEmptySequence :: "goval \<Rightarrow> bool" where
  "isEmptySequence fv = is_empty_sequence (derefValue fv)"

section \<open>Scalars\<close>

definition wellKnownValue :: "rvalue \<Rightarrow> gerr + bqval" where
  "wellKnownValue rv =
     (case derefValue (snd rv) of
        None \<Rightarrow> Inr BNil
      | Some v \<Rightarrow> and_then (Interface (fst rv, v)) (\<lambda>_.
          case v of
            GTime t \<Rightarrow> Inr (BTime t)
          | GDate d \<Rightarrow> Inr (BDate d)
          | GCivilTime t \<Rightarrow> Inr (BCivilTime t)
          | GDateTime d \<Rightarrow> Inr (BDateTime d)
          | GRat r \<Rightarrow> Inr (if type_of (snd rv) = Ptr typeRat \<or> type_of (snd rv) = typeRat then BRatPtr (Some r)
                           else BOther (snd rv))
          | _ \<Rightarrow> Inr (BOther v)))"

text \<open>
  A \<open>uint64\<close> becomes the rational of the same value, the smaller unsigned kinds fit an
  \<open>int64\<close>.
\<close>

definition scalarValue :: "types \<Rightarrow> goval option \<Rightarrow> gerr + bqval" where
  "scalarValue u v =
     (case v of
        None \<Rightarrow> Inr BNil
      | Some (GString t s) \<Rightarrow> Inr (BString s)
      | Some (GBool t b) \<Rightarrow> Inr (BBool b)
      | Some (GInt t i) \<Rightarrow> Inr (BInt i)
      | Some (GUint t i) \<Rightarrow>
          if kind_of u t \<in> {KUint8, KUint16, KUint32} then Inr (BInt i)
          else if kind_of u t \<in> {KUint, KUint64} then Inr (BRatPtr (Some (of_int i)))
          else Inl (EMsg (MarshalSite (CannotConvert t)))
      | Some (GFloat t f) \<Rightarrow> Inr (BFloat f)
      | Some (GBytes t b) \<Rightarrow> Inr (BBytes b)
      | Some (GByteArray t b) \<Rightarrow> Inr (BBytes (Some b))
      | Some w \<Rightarrow> Inl (EMsg (MarshalSite (CannotConvert (type_of w)))))"

section \<open>Reaching a field\<close>

text \<open>
  The fields of a struct value. Of the structs with constructors of their own only those of
  package civil have fields a caller can reach.
\<close>

fun struct_fields :: "types \<Rightarrow> goval \<Rightarrow> goval list" where
  "struct_fields u (GStruct t fs) = fs"
| "struct_fields u (GDate d) =
     map2 (\<lambda>sf i. GInt (sf_Type sf) i) (fields_of u typeDate) [cd_Year d, cd_Month d, cd_Day d]"
| "struct_fields u (GCivilTime t) =
     map2 (\<lambda>sf i. GInt (sf_Type sf) i) (fields_of u typeCivilTime)
       [ct_Hour t, ct_Minute t, ct_Second t, ct_Nanosecond t]"
| "struct_fields u (GDateTime dt) = [GDate (fst dt), GCivilTime (snd dt)]"
| "struct_fields u v = []"

definition nth_value :: "goval list \<Rightarrow> nat \<Rightarrow> goval option" where
  "nth_value vs i = (if i < length vs then Some (vs ! i) else None)"

text \<open>One pointer is followed between two fields; \<open>None\<close> where it is nil.\<close>

fun through_pointer :: "goval \<Rightarrow> goval option" where
  "through_pointer (GPtr t v) = v"
| "through_pointer v = Some v"

text \<open>
  \<open>FieldByIndexErr\<close>: \<open>None\<close> is its error, a nil embedded pointer on the way. A value whose
  type does not have the field, which is no Go value, gives \<open>None\<close> as well.
\<close>

fun fieldByIndexErr :: "types \<Rightarrow> goval \<Rightarrow> nat list \<Rightarrow> goval option" where
  "fieldByIndexErr u v [] = None"
| "fieldByIndexErr u v [i] = nth_value (struct_fields u v) i"
| "fieldByIndexErr u v (i # j # is) =
     (case nth_value (struct_fields u v) i of
        None \<Rightarrow> None
      | Some x \<Rightarrow> (case through_pointer x of None \<Rightarrow> None | Some w \<Rightarrow> fieldByIndexErr u w (j # is)))"

text \<open>The flag of the value reached: only the last field decides, embedded ones pass none on.\<close>

definition field_unexported :: "types \<Rightarrow> rtype \<Rightarrow> nat list \<Rightarrow> bool" where
  "field_unexported u t index = (case path_field u t index of None \<Rightarrow> False | Some sf \<Rightarrow> \<not> sf_Exported sf)"

section \<open>Rows\<close>

fun nil_pointer :: "goval \<Rightarrow> bool" where
  "nil_pointer (GPtr t None) \<longleftrightarrow> True"
| "nil_pointer v \<longleftrightarrow> False"

fun nil_interface :: "goval \<Rightarrow> bool" where
  "nil_interface (GIface t None) \<longleftrightarrow> True"
| "nil_interface v \<longleftrightarrow> False"

text \<open>The checks before a column's value is converted: whether it is NULL already.\<close>

definition null_before :: "go_env \<Rightarrow> fieldPlan \<Rightarrow> rvalue \<Rightarrow> gerr + bool" where
  "null_before G f rv =
     and_then (if fp_nullIfZero f then (if fp_repeated f then Inr (isEmptySequence (snd rv)) else isZeroValue G rv)
               else Inr False)
       (\<lambda>null. Inr (null \<or> nil_pointer (snd rv) \<or> nil_interface (snd rv)))"

lemma size_nested: "fp_nested f = Some p \<Longrightarrow> size p < size f"
  by (cases f) auto

lemma size_fields: "Suc (4 * size_list size (rp_fields p)) < 4 * size p"
  by (cases p) auto

function marshalRow :: "go_env \<Rightarrow> rowPlan \<Rightarrow> rvalue \<Rightarrow> gerr + row_values"
  and marshal_fields :: "go_env \<Rightarrow> fieldPlan list \<Rightarrow> goval \<Rightarrow> row_values \<Rightarrow> gerr + row_values"
  and marshalValue :: "go_env \<Rightarrow> fieldPlan \<Rightarrow> rvalue \<Rightarrow> gerr + bqval"
  and marshalRepeated :: "go_env \<Rightarrow> fieldPlan \<Rightarrow> rvalue \<Rightarrow> gerr + bqval"
  and marshalScalar :: "go_env \<Rightarrow> fieldPlan \<Rightarrow> rvalue \<Rightarrow> gerr + bqval" where
  "marshalRow G p rv =
     (case derefValue (snd rv) of
        None \<Rightarrow> Inl (EMsg (MarshalSite (NilRow (rp_goType p))))
      | Some v \<Rightarrow> marshal_fields G (rp_fields p) v [])"
| "marshal_fields G [] v row = Inr row"
| "marshal_fields G (f # fs) v row =
     (case fieldByIndexErr (ge_types G) v (fp_index f) of
        None \<Rightarrow> marshal_fields G fs v (map_put (fp_name f) BNil row)
      | Some fv \<Rightarrow>
          and_then (map_error (EWrap (MarshalSite (InColumn (fp_name f))))
              (marshalValue G f (field_unexported (ge_types G) (type_of v) (fp_index f), fv)))
            (\<lambda>val. marshal_fields G fs v (map_put (fp_name f) val row)))"
| "marshalValue G f rv =
     and_then (null_before G f rv) (\<lambda>null.
       if null then Inr BNil
       else if fp_repeated f then marshalRepeated G f rv
       else marshalScalar G f rv)"
| "marshalRepeated G f rv =
     (case derefValue (snd rv) of
        None \<Rightarrow> Inr BNil
      | Some v \<Rightarrow>
          (case sequence_elements v of
             None \<Rightarrow> reflect_panic
           | Some elements \<Rightarrow>
               and_then (traverse_indexed (\<lambda>i element.
                   map_error (EWrap (MarshalSite (InElement i))) (marshalScalar G f (fst rv, element))) elements)
                 (\<lambda>values. Inr (BList values))))"
| "marshalScalar G f rv =
     (case fp_marshal f of
        Some c \<Rightarrow> run_conversion G c rv
      | None \<Rightarrow>
          if nil_pointer (snd rv) then Inr BNil
          else (case fp_nested f of
             Some p \<Rightarrow> and_then (marshalRow G p rv) (\<lambda>row. Inr (BMap row))
           | None \<Rightarrow>
               if wellKnownType (deref (type_of (snd rv))) \<noteq> None then wellKnownValue rv
               else scalarValue (ge_types G) (derefValue (snd rv))))"
  by pat_completeness auto

termination
  by (relation "measure (\<lambda>x. case x of
      Inl (Inl (G, p, rv)) \<Rightarrow> 4 * size p
    | Inl (Inr (G, fs, v, row)) \<Rightarrow> 4 * size_list size fs + 1
    | Inr (Inl (G, f, rv)) \<Rightarrow> 4 * size f + 3
    | Inr (Inr (Inl (G, f, rv))) \<Rightarrow> 4 * size f + 2
    | Inr (Inr (Inr (G, f, rv))) \<Rightarrow> 4 * size f + 1)")
    (auto dest: size_nested simp: size_fields)

declare marshalRow.simps [simp del] marshalValue.simps [simp del] marshalRepeated.simps [simp del]
  marshalScalar.simps [simp del]

end
