(* ===== verification/Layout.thy ===== *)
theory Layout
  imports RowPlan
begin

text \<open>
  What the plan says of the table is what the tags of its columns ask for, and within the limits
  BigQuery enforces; and when building a plan ends.
\<close>

section \<open>The loop over the columns\<close>

definition partition_tagged :: "(fieldTag \<times> fieldPlan) list \<Rightarrow> (fieldTag \<times> fieldPlan) list" where
  "partition_tagged fs = filter (\<lambda>x. tag_partition (fst x) \<noteq> None) fs"

definition cluster_tagged :: "(fieldTag \<times> fieldPlan) list \<Rightarrow> (fieldTag \<times> fieldPlan) list" where
  "cluster_tagged fs = filter (\<lambda>x. tag_cluster (fst x) \<noteq> 0) fs"

lemma tagged_simps [simp]:
  "partition_tagged [] = []" "cluster_tagged [] = []"
  "partition_tagged ((tag, f) # fs) = (if tag_partition tag = None then partition_tagged fs else (tag, f) # partition_tagged fs)"
  "cluster_tagged ((tag, f) # fs) = (if tag_cluster tag = 0 then cluster_tagged fs else (tag, f) # cluster_tagged fs)"
  by (simp_all add: partition_tagged_def cluster_tagged_def)

definition cluster_entry :: "fieldTag \<times> fieldPlan \<Rightarrow> nat \<times> string" where
  "cluster_entry x = (tag_cluster (fst x), fp_name (snd x))"

text \<open>What is settled about partitioning: nothing, or by the one column that carries the tag.\<close>

definition partition_settled ::
  "(fieldTag \<times> fieldPlan) list \<Rightarrow> TimePartitioning option \<Rightarrow> bool \<Rightarrow> bool" where
  "partition_settled xs part filt \<longleftrightarrow>
     (xs = [] \<and> part = None \<and> \<not> filt)
     \<or> (\<exists>tag f g. xs = [(tag, f)] \<and> tag_partition tag = Some g \<and> checkPartitionColumn f g = None
          \<and> part = Some \<lparr>tp_Field = fp_name f, tp_Type = g\<rparr> \<and> filt = tag_requireFilter tag)"

lemma layout_partition_Inr:
  "layout_partition tag f ly = Inr ly' \<longleftrightarrow>
     (if tag_partition tag = None then ly' = ly
      else ly_partitioning ly = None \<and> checkPartitionColumn f (the (tag_partition tag)) = None
        \<and> ly' = ly\<lparr>ly_partitioning := Some \<lparr>tp_Field = fp_name f, tp_Type = the (tag_partition tag)\<rparr>,
                   ly_requireFilter := tag_requireFilter tag\<rparr>)"
  unfolding layout_partition_def by (cases "tag_partition tag"; cases "ly_partitioning ly") (auto simp: guarded_Inr)

lemma layout_cluster_Inr:
  "layout_cluster tag f ly = Inr ly' \<longleftrightarrow>
     (if tag_cluster tag = 0 then ly' = ly
      else tag_cluster tag \<notin> fst ` set (ly_byPosition ly) \<and> checkClusterColumn f = None
        \<and> ly' = ly\<lparr>ly_byPosition := ly_byPosition ly @ [(tag_cluster tag, fp_name f)]\<rparr>)"
proof (cases "map_of (ly_byPosition ly) (tag_cluster tag)")
  case None
  then have "tag_cluster tag \<notin> fst ` set (ly_byPosition ly)" by (simp add: map_of_eq_None_iff)
  with None show ?thesis by (auto simp: layout_cluster_def guarded_Inr map_put_new)
next
  case (Some other)
  then have "tag_cluster tag \<in> fst ` set (ly_byPosition ly)" by (force dest: map_of_SomeD)
  with Some show ?thesis by (auto simp: layout_cluster_def)
qed

lemma layout_fields_positions:
  "layout_fields fs ly = Inr ly' \<Longrightarrow>
     ly_byPosition ly' = ly_byPosition ly @ map cluster_entry (cluster_tagged fs)
     \<and> (\<forall>x\<in>set (cluster_tagged fs). checkClusterColumn (snd x) = None)"
proof (induction fs arbitrary: ly)
  case (Cons x fs)
  obtain tag f where x: "x = (tag, f)" by force
  with Cons.prems obtain ly1 ly2 where ly1: "layout_partition tag f ly = Inr ly1"
    and ly2: "layout_cluster tag f ly1 = Inr ly2" and rest: "layout_fields fs ly2 = Inr ly'"
    by (auto simp: and_then_Inr)
  have same: "ly_byPosition ly1 = ly_byPosition ly"
    using ly1 by (simp add: layout_partition_Inr split: if_splits)
  show ?case
  proof (cases "tag_cluster tag = 0")
    case True
    with ly2 Cons.IH[OF rest] same x show ?thesis by (simp add: layout_cluster_Inr)
  next
    case False
    with ly2 Cons.IH[OF rest] same x show ?thesis by (auto simp: layout_cluster_Inr cluster_entry_def)
  qed
qed simp

lemma layout_fields_distinct:
  "layout_fields fs ly = Inr ly' \<Longrightarrow> distinct (map fst (ly_byPosition ly)) \<Longrightarrow> distinct (map fst (ly_byPosition ly'))"
proof (induction fs arbitrary: ly)
  case (Cons x fs)
  obtain tag f where x: "x = (tag, f)" by force
  with Cons.prems obtain ly1 ly2 where ly1: "layout_partition tag f ly = Inr ly1"
    and ly2: "layout_cluster tag f ly1 = Inr ly2" and rest: "layout_fields fs ly2 = Inr ly'"
    by (auto simp: and_then_Inr)
  have "ly_byPosition ly1 = ly_byPosition ly"
    using ly1 by (simp add: layout_partition_Inr split: if_splits)
  with ly2 Cons.prems(2) have "distinct (map fst (ly_byPosition ly2))"
    by (auto simp: layout_cluster_Inr split: if_splits)
  with Cons.IH[OF rest] show ?case .
qed simp

lemma layout_cluster_keeps:
  "layout_cluster tag f ly = Inr ly' \<Longrightarrow> ly_partitioning ly' = ly_partitioning ly \<and> ly_requireFilter ly' = ly_requireFilter ly"
  by (auto simp: layout_cluster_Inr split: if_splits)

lemma layout_fields_partition:
  "layout_fields fs ly = Inr ly' \<Longrightarrow>
     (if ly_partitioning ly = None \<and> \<not> ly_requireFilter ly
      then partition_settled (partition_tagged fs) (ly_partitioning ly') (ly_requireFilter ly')
      else ly_partitioning ly \<noteq> None \<longrightarrow> partition_tagged fs = [] \<and> ly_partitioning ly' = ly_partitioning ly
        \<and> ly_requireFilter ly' = ly_requireFilter ly)"
proof (induction fs arbitrary: ly)
  case (Cons x fs)
  obtain tag f where x: "x = (tag, f)" by force
  with Cons.prems obtain ly1 ly2 where ly1: "layout_partition tag f ly = Inr ly1"
    and ly2: "layout_cluster tag f ly1 = Inr ly2" and rest: "layout_fields fs ly2 = Inr ly'"
    by (auto simp: and_then_Inr)
  note keeps = layout_cluster_keeps[OF ly2]
  show ?case
  proof (cases "tag_partition tag")
    case None
    with ly1 Cons.IH[OF rest] keeps x show ?thesis by (simp add: layout_partition_Inr)
  next
    case (Some g)
    with ly1 have g: "ly_partitioning ly = None" "checkPartitionColumn f g = None"
      "ly_partitioning ly1 = Some \<lparr>tp_Field = fp_name f, tp_Type = g\<rparr>" "ly_requireFilter ly1 = tag_requireFilter tag"
      by (simp_all add: layout_partition_Inr)
    have "partition_tagged fs = []" "ly_partitioning ly' = ly_partitioning ly1" "ly_requireFilter ly' = ly_requireFilter ly1"
      using Cons.IH[OF rest] keeps g(3) by simp_all
    with Some g x show ?thesis by (simp add: partition_settled_def)
  qed
qed (simp add: partition_settled_def)

lemma cluster_positions:
  assumes "cluster_fields byPosition = Inr names" and "distinct (map fst byPosition)"
  shows "length names = length byPosition" and "fst ` set byPosition = {1..length names}"
    and "\<And>position name. (position, name) \<in> set byPosition \<Longrightarrow> names ! (position - 1) = name"
proof -
  let ?n = "length byPosition"
  from assms(1) have all: "list_all2 (\<lambda>position name. map_of byPosition position = Some name) [1..<Suc ?n] names"
    unfolding cluster_fields_def traverse_Inr_iff
    by (rule list_all2_mono) (auto split: option.splits)
  then show len: "length names = ?n" by (auto dest: list_all2_lengthD simp del: upt_Suc)
  have nth: "map_of byPosition (Suc i) = Some (names ! i)" if "i < ?n" for i
    using all that by (auto simp: list_all2_conv_all_nth simp del: upt_Suc)
  then have "{1..?n} \<subseteq> fst ` set byPosition"
  proof (intro subsetI)
    fix i assume "i \<in> {1..?n}"
    then obtain j where "i = Suc j" "j < ?n" by (cases i) auto
    with nth[of j] show "i \<in> fst ` set byPosition" by (force dest: map_of_SomeD)
  qed
  moreover have "card (fst ` set byPosition) = ?n"
    using distinct_card[OF assms(2)] by simp
  ultimately have "fst ` set byPosition = {1..?n}"
    by (intro card_subset_eq[symmetric]) simp_all
  then show keys: "fst ` set byPosition = {1..length names}" using len by simp
  fix position name
  assume mem: "(position, name) \<in> set byPosition"
  then have "position \<in> {1..?n}" using keys len by force
  then obtain j where "position = Suc j" "j < ?n" by (cases position) auto
  with nth[of j] map_of_is_SomeI[OF assms(2) mem] show "names ! (position - 1) = name" by simp
qed
section \<open>The layout of a plan\<close>

lemma resolveLayout_Inr:
  assumes "resolveLayout fs = Inr (part, clus, filt)"
  shows "partition_settled (partition_tagged fs) part filt"
    and "clus = None \<Longrightarrow> cluster_tagged fs = []"
    and "clus = Some names \<Longrightarrow> length names = length (cluster_tagged fs)
      \<and> tag_cluster ` fst ` set (cluster_tagged fs) = {1..length names}
      \<and> (\<forall>x\<in>set (cluster_tagged fs). checkClusterColumn (snd x) = None
           \<and> names ! (tag_cluster (fst x) - 1) = fp_name (snd x))"
proof -
  let ?start = "\<lparr>ly_partitioning = None, ly_requireFilter = False, ly_byPosition = []\<rparr>"
  from assms obtain ly where ly: "layout_fields fs ?start = Inr ly"
    and rest: "(if ly_byPosition ly = [] then Inr (ly_partitioning ly, None, ly_requireFilter ly)
       else and_then (cluster_fields (ly_byPosition ly)) (\<lambda>names.
              Inr (ly_partitioning ly, Some names, ly_requireFilter ly))) = Inr (part, clus, filt)"
    unfolding resolveLayout_def and_then_Inr by blast
  have settled: "part = ly_partitioning ly" "filt = ly_requireFilter ly"
    using rest by (auto simp: and_then_Inr split: if_splits)
  with layout_fields_partition[OF ly] show "partition_settled (partition_tagged fs) part filt" by simp
  have positions: "ly_byPosition ly = map cluster_entry (cluster_tagged fs)"
    and checked: "\<forall>x\<in>set (cluster_tagged fs). checkClusterColumn (snd x) = None"
    using layout_fields_positions[OF ly] by simp_all
  show "clus = None \<Longrightarrow> cluster_tagged fs = []"
    using rest positions by (auto simp: and_then_Inr split: if_splits)
  assume "clus = Some names"
  with rest have names: "cluster_fields (ly_byPosition ly) = Inr names"
    by (auto simp: and_then_Inr split: if_splits)
  have "distinct (map fst (ly_byPosition ly))"
    using layout_fields_distinct[OF ly] by simp
  note pos = cluster_positions[OF names this]
  have "names ! (tag_cluster (fst x) - 1) = fp_name (snd x)" if "x \<in> set (cluster_tagged fs)" for x
    using pos(3)[of "tag_cluster (fst x)" "fp_name (snd x)"] that by (force simp: positions cluster_entry_def)
  with pos(1,2) checked show "length names = length (cluster_tagged fs)
      \<and> tag_cluster ` fst ` set (cluster_tagged fs) = {1..length names}
      \<and> (\<forall>x\<in>set (cluster_tagged fs). checkClusterColumn (snd x) = None
           \<and> names ! (tag_cluster (fst x) - 1) = fp_name (snd x))"
    by (simp add: positions image_image cluster_entry_def)
qed

text \<open>The columns of a plan with the tags they come from.\<close>

definition tagged_columns :: "candidateField list \<Rightarrow> rowPlan \<Rightarrow> (fieldTag \<times> fieldPlan) list" where
  "tagged_columns cs p = zip (map cf_tag cs) (rp_fields p)"

lemma built_layout:
  assumes "buildRowPlan n u ms t = Some (Inr p)" and "collectFields u (deref t) = Some (Inr cs)"
  shows "resolveLayout (tagged_columns cs p) = Inr (rp_partitioning p, rp_clustering p, rp_requireFilter p)"
    and "\<forall>x\<in>set (tagged_columns cs p). tag_cluster (fst x) \<le> 4"
proof -
  from assms(1) have built: "buildRowPlanFor n u ms (deref t) = Some (Inr p)" by (simp add: buildRowPlan_Inr)
  then show "resolveLayout (tagged_columns cs p) = Inr (rp_partitioning p, rp_clustering p, rp_requireFilter p)"
    by (rule buildRowPlanFor_Inr) (use assms(2) in \<open>auto simp: tagged_columns_def\<close>)
  from collectFields_sound(3)[OF assms(2)] have "\<forall>c\<in>set cs. tag_cluster (cf_tag c) \<le> 4"
    using parseFieldTags_sound by (auto simp: candidate_ok_def)
  then show "\<forall>x\<in>set (tagged_columns cs p). tag_cluster (fst x) \<le> 4"
    by (auto simp: tagged_columns_def dest!: set_zip_leftD)
qed

text \<open>
  C31: a plan's partitioning is the one column whose tag asks for it, of a type and granularity
  BigQuery can partition by and not repeated; its clustering lists the tagged columns by their
  positions, at most four and without a gap, each of a type BigQuery can cluster on.
\<close>

theorem layout_is_what_tags_ask:
  assumes "buildRowPlan n u ms t = Some (Inr p)" and "collectFields u (deref t) = Some (Inr cs)"
  shows "(case rp_partitioning p of
        None \<Rightarrow> partition_tagged (tagged_columns cs p) = []
      | Some x \<Rightarrow> \<exists>tag f. partition_tagged (tagged_columns cs p) = [(tag, f)]
          \<and> tag_partition tag = Some (tp_Type x) \<and> tp_Field x = fp_name f \<and> partitionable (fp_fieldType f)
          \<and> \<not> fp_repeated f \<and> \<not> (tp_Type x = HourPartitioningType \<and> fp_fieldType f = DateFieldType))
    \<and> (case rp_clustering p of
        None \<Rightarrow> cluster_tagged (tagged_columns cs p) = []
      | Some names \<Rightarrow> length names \<le> 4 \<and> length names = length (cluster_tagged (tagged_columns cs p))
          \<and> (\<forall>x\<in>set (cluster_tagged (tagged_columns cs p)). tag_cluster (fst x) \<le> length names
              \<and> names ! (tag_cluster (fst x) - 1) = fp_name (snd x)
              \<and> \<not> unclusterable (fp_fieldType (snd x)) \<and> \<not> fp_repeated (snd x)))"
proof (intro conjI)
  note L = resolveLayout_Inr[OF built_layout(1)[OF assms]]
  show "case rp_partitioning p of
        None \<Rightarrow> partition_tagged (tagged_columns cs p) = []
      | Some x \<Rightarrow> \<exists>tag f. partition_tagged (tagged_columns cs p) = [(tag, f)]
          \<and> tag_partition tag = Some (tp_Type x) \<and> tp_Field x = fp_name f \<and> partitionable (fp_fieldType f)
          \<and> \<not> fp_repeated f \<and> \<not> (tp_Type x = HourPartitioningType \<and> fp_fieldType f = DateFieldType)"
    using L(1) by (auto simp: partition_settled_def checkPartitionColumn_def split: if_splits)
  show "case rp_clustering p of
        None \<Rightarrow> cluster_tagged (tagged_columns cs p) = []
      | Some names \<Rightarrow> length names \<le> 4 \<and> length names = length (cluster_tagged (tagged_columns cs p))
          \<and> (\<forall>x\<in>set (cluster_tagged (tagged_columns cs p)). tag_cluster (fst x) \<le> length names
              \<and> names ! (tag_cluster (fst x) - 1) = fp_name (snd x)
              \<and> \<not> unclusterable (fp_fieldType (snd x)) \<and> \<not> fp_repeated (snd x))"
  proof (cases "rp_clustering p")
    case None
    with L(2) show ?thesis by simp
  next
    case (Some names)
    note S = L(3)[OF Some]
    have bound: "tag_cluster (fst x) \<in> {1..length names} \<and> tag_cluster (fst x) \<le> 4"
      if "x \<in> set (cluster_tagged (tagged_columns cs p))" for x
      using S that built_layout(2)[OF assms] by (auto simp: cluster_tagged_def)
    have "length names \<le> 4"
    proof (cases "length names")
      case (Suc k)
      then have "length names \<in> tag_cluster ` fst ` set (cluster_tagged (tagged_columns cs p))" using S by simp
      then obtain x where "x \<in> set (cluster_tagged (tagged_columns cs p))" "length names = tag_cluster (fst x)" by auto
      with bound show ?thesis by auto
    qed simp
    moreover have "\<not> unclusterable (fp_fieldType (snd x)) \<and> \<not> fp_repeated (snd x)"
      if "x \<in> set (cluster_tagged (tagged_columns cs p))" for x
      using S that by (auto simp: checkClusterColumn_def split: if_splits)
    ultimately show ?thesis using S bound Some by simp
  qed
qed

theorem layout_is_what_tags_ask_witness:
  "rp_clustering log_plan = Some [''User''] \<and> rp_partitioning log_plan \<noteq> None
   \<and> (\<exists>cs. length (cluster_tagged (tagged_columns cs log_plan)) = 1)"
proof -
  have "collectFields log_types (deref (Ptr (Ty 20))) = collectFields log_types (Ty 20)" by simp
  with log_candidates obtain cs where cs: "collectFields log_types (deref (Ptr (Ty 20))) = Some (Inr cs)" by simp
  have "rp_clustering log_plan = Some [''User'']" "rp_partitioning log_plan \<noteq> None" by (simp_all add: log_plan_def)
  with layout_is_what_tags_ask[OF log_plan_built cs] show ?thesis by (intro conjI exI[of _ cs]) simp_all
qed

section \<open>Building a plan ends\<close>

text \<open>The struct the plan of a RECORD column is built for.\<close>

definition record_struct :: "types \<Rightarrow> candidateField \<Rightarrow> rtype" where
  "record_struct u c = (let t = deref (sf_Type (cf_sf c)) in deref (if isRepeated u t then elem_of u t else t))"

lemma returns_then_mono:
  assumes "returns_then m f = Some r" and "\<And>r. m = Some r \<Longrightarrow> m' = Some r" and "\<And>x r. f x = Some r \<Longrightarrow> g x = Some r"
  shows "returns_then m' g = Some r"
  using assms by (cases "(m, f)" rule: returns_then.cases) auto

lemma resolveType_mono:
  assumes "resolveType rec u ms t tag = Some r" and "\<And>t r. rec t = Some r \<Longrightarrow> rec' t = Some r"
  shows "resolveType rec' u ms t tag = Some r"
  using assms(1) unfolding resolveType_def
  by (auto split: option.splits if_splits elim!: returns_then_mono intro: assms(2))

lemma buildFieldPlan_mono:
  assumes "buildFieldPlan rec u ms c = Some r" and "\<And>t r. rec t = Some r \<Longrightarrow> rec' t = Some r"
  shows "buildFieldPlan rec' u ms c = Some r"
  using assms(1) unfolding buildFieldPlan_def Let_def
  by (rule returns_then_mono) (auto dest: resolveType_mono[OF _ assms(2)])

lemma build_fields_mono:
  assumes "\<And>t r. rec t = Some r \<Longrightarrow> rec' t = Some r"
  shows "build_fields rec u ms cs = Some r \<Longrightarrow> build_fields rec' u ms cs = Some r"
proof (induction cs arbitrary: r)
  case (Cons c cs)
  from Cons.prems show ?case
    unfolding build_fields.simps
    by (elim returns_then_mono) (auto dest: buildFieldPlan_mono[OF _ assms] Cons.IH)
qed simp

lemma struct_plan_mono:
  assumes "struct_plan rec u ms t = Some r" and "\<And>t r. rec t = Some r \<Longrightarrow> rec' t = Some r"
  shows "struct_plan rec' u ms t = Some r"
  using assms(1) unfolding struct_plan_def
  by (auto split: if_splits elim!: returns_then_mono intro: build_fields_mono[OF assms(2)])

lemma buildRowPlanFor_Suc: "buildRowPlanFor n u ms t = Some r \<Longrightarrow> buildRowPlanFor (Suc n) u ms t = Some r"
proof (induction n arbitrary: t r)
  case (Suc n)
  then show ?case
    unfolding buildRowPlanFor.simps(2)[of "Suc n"] buildRowPlanFor.simps(2)[of n u ms t]
    by (blast intro: struct_plan_mono)
qed simp

lemma buildRowPlanFor_more: "buildRowPlanFor n u ms t = Some r \<Longrightarrow> n \<le> m \<Longrightarrow> buildRowPlanFor m u ms t = Some r"
proof (induction m)
  case (Suc m)
  then show ?case by (cases "n = Suc m") (auto dest: buildRowPlanFor_Suc simp del: buildRowPlanFor.simps)
qed simp

lemma resolveType_returns:
  assumes "tag_record tag \<Longrightarrow> \<exists>r. rec (deref t) = Some r"
  shows "\<exists>r. resolveType rec u ms t tag = Some r"
proof (cases "tag_record tag")
  case True
  with assms obtain r where "rec (deref t) = Some r" by blast
  then show ?thesis by (cases r) (auto simp: resolveType_def split: option.splits)
qed (auto simp: resolveType_def split: option.splits)

lemma returns_then_returns:
  "\<exists>r. m = Some r \<Longrightarrow> (\<And>x. m = Some (Inr x) \<Longrightarrow> \<exists>r. f x = Some r) \<Longrightarrow> \<exists>r. returns_then m f = Some r"
  by (cases "(m, f)" rule: returns_then.cases) auto

lemma build_fields_returns:
  assumes "\<And>c. c \<in> set cs \<Longrightarrow> tag_record (cf_tag c) \<Longrightarrow> \<exists>r. rec (record_struct u c) = Some r"
  shows "\<exists>r. build_fields rec u ms cs = Some r"
  using assms
proof (induction cs)
  case (Cons c cs)
  let ?t = "deref (sf_Type (cf_sf c))"
  have "\<exists>r. resolveType rec u ms (if isRepeated u ?t then elem_of u ?t else ?t) (cf_tag c) = Some r"
    using Cons.prems[of c] by (intro resolveType_returns) (simp add: record_struct_def Let_def)
  then have "\<exists>r. buildFieldPlan rec u ms c = Some r"
    unfolding buildFieldPlan_def Let_def by (intro returns_then_returns) auto
  moreover have "\<exists>r. build_fields rec u ms cs = Some r"
    using Cons.prems by (intro Cons.IH) simp
  ultimately show ?case
    unfolding build_fields.simps by (intro returns_then_returns) auto
qed simp

text \<open>
  What Go's types must satisfy for the plan to be finite: finitely many types in reach, and a
  rank that decreases from a struct to the structs of its RECORD columns, so that none is a
  RECORD inside itself.
\<close>

definition records_ranked :: "types \<Rightarrow> rtype set \<Rightarrow> (rtype \<Rightarrow> nat) \<Rightarrow> bool" where
  "records_ranked u S rank \<longleftrightarrow> embeds_within u S
     \<and> (\<forall>t\<in>S. \<forall>cs. collectFields u t = Some (Inr cs) \<longrightarrow>
          (\<forall>c\<in>set cs. tag_record (cf_tag c) \<longrightarrow> record_struct u c \<in> S \<and> rank (record_struct u c) < rank t))"

lemma buildRowPlanFor_returns:
  assumes "records_ranked u S rank"
  shows "t \<in> S \<Longrightarrow> rank t < n \<Longrightarrow> \<exists>r. buildRowPlanFor n u ms t = Some r"
proof (induction n arbitrary: t)
  case (Suc n)
  show ?case
  proof (cases "kind_of u t = KStruct")
    case True
    have collect: "\<exists>r. collectFields u t = Some r"
      using collect_levels_returns[of u S "[(t, [])]"] assms Suc.prems(1) struct_not_pointer[OF True]
      by (auto simp: collectFields_def records_ranked_def)
    have fields: "\<exists>r. build_fields (buildRowPlanFor n u ms) u ms cs = Some r"
      if "collectFields u t = Some (Inr cs)" for cs
    proof (rule build_fields_returns)
      fix c assume "c \<in> set cs" "tag_record (cf_tag c)"
      with assms that Suc.prems(1) have "record_struct u c \<in> S" "rank (record_struct u c) < rank t"
        by (auto simp: records_ranked_def)
      with Suc.prems(2) show "\<exists>r. buildRowPlanFor n u ms (record_struct u c) = Some r"
        by (intro Suc.IH) auto
    qed
    show ?thesis
      unfolding buildRowPlanFor.simps struct_plan_def using True
      by (simp, intro returns_then_returns collect) (auto intro: fields)
  qed (simp add: struct_plan_def)
qed simp

text \<open>
  C32: building the plan of a struct ends whenever no struct is a RECORD inside itself: with
  more levels than the rank of the type the result is there, and no number of further levels
  changes it.
\<close>

theorem buildRowPlan_returns:
  assumes "records_ranked u S rank" and "deref t \<in> S" and "rank (deref t) < n"
  shows "\<exists>r. \<forall>m\<ge>n. buildRowPlan m u ms t = Some r"
proof (cases "marshalers_err ms")
  case None
  obtain r where "buildRowPlanFor n u ms (deref t) = Some r"
    using buildRowPlanFor_returns[OF assms(1-3)] by blast
  with None show ?thesis by (auto simp: buildRowPlan_def intro: buildRowPlanFor_more)
qed (simp add: buildRowPlan_def)

definition log_rank :: "rtype \<Rightarrow> nat" where
  "log_rank t = (if t = Ty 20 then 1 else 0)"

lemma collectFields_no_fields:
  assumes "fields_of u t = []" and "deref t = t"
  shows "collectFields u t = Some (Inr [])"
proof -
  have "collect_levels u {t} [(t, [])] [] = Some (Inr [])"
    by (subst collect_levels.simps, simp add: assms start_level_def, subst collect_levels.simps, simp)
  then show ?thesis by (simp add: collectFields_def resolveCollisions_def)
qed

theorem buildRowPlan_returns_witness: "\<exists>r. \<forall>m\<ge>2. buildRowPlan m log_types None (Ptr (Ty 20)) = Some r"
proof (rule buildRowPlan_returns)
  let ?S = "{Ty 20, Ty 21, Ty 10, Ty 11, Ty 12, Ty 0}"
  have embeds: "embeds_within log_types ?S"
    by (auto simp: embeds_within_def type_simps log_fields_def walk_simps tagged_field_def)
  have none: "collectFields log_types t = Some (Inr [])" if "t \<in> {Ty 10, Ty 11, Ty 12, Ty 0}" for t
    using that by (auto intro!: collectFields_no_fields simp: type_simps)
  have request: "\<not> tag_record (cf_tag c)" if "collectFields log_types (Ty 21) = Some (Inr cs)" "c \<in> set cs" for c cs
    using that by (auto simp: request_candidates candidate_of_def empty_tag_def)
  have log: "record_struct log_types c = Ty 21"
    if "collectFields log_types (Ty 20) = Some (Inr cs)" "c \<in> set cs" "tag_record (cf_tag c)" for c cs
  proof -
    from that have "c = candidate_of (log_fields ! 3) (empty_tag\<lparr>tag_record := True\<rparr>) [] 3"
      by (auto simp: log_candidates candidate_of_def empty_tag_def)
    then show ?thesis
      by (simp add: record_struct_def candidate_of_def log_fields_def tagged_field_def isRepeated_def type_simps)
  qed
  show "records_ranked log_types ?S log_rank"
    unfolding records_ranked_def
  proof (intro conjI embeds ballI allI impI)
    fix t cs c
    assume t: "t \<in> ?S" and cs: "collectFields log_types t = Some (Inr cs)" "c \<in> set cs" "tag_record (cf_tag c)"
    have "t = Ty 20"
      using t none[of t] request[of cs c] cs by (cases "t = Ty 21") auto
    with log[of cs c] cs show "record_struct log_types c \<in> ?S" "log_rank (record_struct log_types c) < log_rank t"
      by (simp_all add: log_rank_def)
  qed
qed (simp_all add: log_rank_def)

section \<open>A struct that is a RECORD inside itself\<close>

definition tree_types :: types where
  "tree_types n =
     (if n = 20 then plain_info KStruct
        [plain_field ''Name'' (Ty 10), tagged_field ''Children'' (Ty 21) [(''bqsink'', '',record'')]]
      else if n = 21 then (plain_info KSlice [])\<lparr>ti_elem := Ty 20\<rparr>
      else plain_info KString [])"

lemma tree_types_at:
  "tree_types 20 = plain_info KStruct
     [plain_field ''Name'' (Ty 10), tagged_field ''Children'' (Ty 21) [(''bqsink'', '',record'')]]"
  "tree_types 21 = (plain_info KSlice [])\<lparr>ti_elem := Ty 20\<rparr>"
  "tree_types 10 = plain_info KString []"
  by (simp_all add: tree_types_def)

lemma tree_candidates:
  "collectFields tree_types (Ty 20) = Some (Inr
     [candidate_of (plain_field ''Name'' (Ty 10)) empty_tag [] 0,
      candidate_of (tagged_field ''Children'' (Ty 21) [(''bqsink'', '',record'')]) (empty_tag\<lparr>tag_record := True\<rparr>) [] 1])"
  by (simp add: collectFields_def collect_levels.simps walk_simps tree_types_def tagged_field_def log_tags
      resolveCollisions_def kept_field_def winnerFor_def empty_tag_def)

text \<open>
  A tree of nodes, each with its children as a repeated RECORD, is a Go type like any other;
  however many levels are allowed, building its plan does not come back, so the bound on the rank
  of the types above cannot be dropped.
\<close>

theorem record_inside_itself_never_returns: "buildRowPlan n tree_types None (Ty 20) = None"
proof -
  have "buildRowPlanFor n tree_types None (Ty 20) = None" for n
  proof (induction n)
    case (Suc n)
    then show ?case
      by (subst buildRowPlanFor.simps)
        (simp add: struct_plan_def tree_candidates plan_simps walk_simps tree_types_at named_types empty_tag_def tagged_field_def
          del: buildRowPlanFor.simps)
  qed simp
  then show ?thesis by (simp add: buildRowPlan_def marshalers_err_def)
qed

end
