(* ===== verification/JsonRow.thy ===== *)
theory JsonRow
  imports Values "HOL-Library.List_Lexorder" "HOL-Library.Char_ord"
begin

text \<open>
  jsonrow.go: a row rendered as the JSON object a load job reads, or as the JSON that protojson
  turns into the message of the Storage Write API. What encoding/json does with a string, with
  JSON text and with a value handed over as it is are parameters.
\<close>

section \<open>Decimal text\<close>

text \<open>
  \<open>(*big.Rat).FloatString(prec)\<close>: the integer part and the digits after the point, rounded to
  nearest with halves away from zero, the sign of the number in front.
\<close>

definition float_parts :: "nat \<Rightarrow> nat \<Rightarrow> nat \<Rightarrow> nat \<times> nat" where
  "float_parts num den prec =
     (let p = 10 ^ prec;
          q = num div den;
          r = (num mod den) * p;
          f = r div den;
          r2 = 2 * (r mod den)
      in if den \<le> r2 then (if f + 1 \<ge> p then (q + 1, f + 1 - p) else (q, f + 1)) else (q, f))"

definition pad_zeros :: "nat \<Rightarrow> string \<Rightarrow> string" where
  "pad_zeros n s = replicate (n - length s) CHR ''0'' @ s"

definition FloatString :: "rat \<Rightarrow> nat \<Rightarrow> string" where
  "FloatString r prec =
     (let (num, den) = quotient_of r;
          (q, f) = float_parts (nat \<bar>num\<bar>) (nat den) prec
      in (if num < 0 then ''-'' else []) @ show_nat q
           @ (if prec > 0 then ''.'' @ pad_zeros prec (show_nat f) else []))"

definition numericScale :: int where "numericScale = 9"
definition bigNumericScale :: int where "bigNumericScale = 38"

definition decimalScale :: "FieldSchema \<Rightarrow> int" where
  "decimalScale field =
     (if fs_Scale field > 0 then fs_Scale field
      else if fs_Type field = BigNumericFieldType then bigNumericScale
      else numericScale)"

definition decimalString :: "rat option \<Rightarrow> FieldSchema \<Rightarrow> gerr + string" where
  "decimalString r field =
     (case r of
        None \<Rightarrow> Inl (EMsg (EncodeSite NilRat))
      | Some r \<Rightarrow>
          if snd (quotient_of r) = 1 then Inr (show_int (fst (quotient_of r)))
          else Inr (FloatString r (nat (decimalScale field))))"

section \<open>Rendering a row\<close>

datatype rowDialect = loadJobDialect | storageWriteDialect

text \<open>
  What \<open>jsonValue\<close> returns as an \<open>any\<close>: a value as it was given, one of the values it makes,
  or an embedded JSON text.
\<close>

datatype jany =
    JNil
  | JAsIs bqval
  | JInt64 int
  | JText string
  | JRaw string
  | JArray "jany list"
  | JObject "(string \<times> jany) list"

text \<open>
  The functions of other modules and of the standard library that rendering calls: package
  civil, \<open>time.Format(time.RFC3339Nano)\<close>, \<open>json.Valid\<close>, and what an \<open>Encoder\<close> that does not
  escape HTML writes for a string, for a \<open>json.RawMessage\<close> (whose insignificant space it
  leaves out) and for a value of any other type.
\<close>

record json_lib =
  js_civil :: civil
  js_Format :: "gotime \<Rightarrow> string"
  js_Valid :: "string \<Rightarrow> bool"
  js_quote :: "string \<Rightarrow> string"
  js_compact :: "string \<Rightarrow> string"
  js_encode :: "bqval \<Rightarrow> gerr + string"

fun json_text :: "bqval \<Rightarrow> string option" where
  "json_text (BRawMessage s) = Some s"
| "json_text (BString s) = Some s"
| "json_text (BBytes s) = Some (case s of None \<Rightarrow> [] | Some t \<Rightarrow> t)"
| "json_text v = None"

definition jsonColumnValue :: "json_lib \<Rightarrow> rowDialect \<Rightarrow> bqval \<Rightarrow> gerr + jany" where
  "jsonColumnValue L dialect value =
     (case json_text value of
        None \<Rightarrow> Inl (EMsg (EncodeSite JSONNeedsText))
      | Some text \<Rightarrow>
          if text = [] then Inr JNil
          else if dialect = storageWriteDialect then Inr (JText text)
          else if \<not> js_Valid L text then Inl (EMsg (EncodeSite (JSONInvalid text)))
          else Inr (JRaw text))"

fun json_scalar :: "json_lib \<Rightarrow> rowDialect \<Rightarrow> bqval \<Rightarrow> FieldSchema \<Rightarrow> gerr + jany" where
  "json_scalar L dialect (BTime t) field =
     Inr (if dialect = storageWriteDialect then JInt64 (time_UnixMicro t) else JText (js_Format L t))"
| "json_scalar L dialect (BDate d) field = Inr (JText (Date_String (js_civil L) d))"
| "json_scalar L dialect (BCivilTime t) field = Inr (JText (Time_String (js_civil L) t))"
| "json_scalar L dialect (BDateTime d) field = Inr (JText (DateTime_String (js_civil L) d))"
| "json_scalar L dialect (BRatPtr r) field = and_then (decimalString r field) (\<lambda>s. Inr (JText s))"
| "json_scalar L dialect (BRat r) field = and_then (decimalString (Some r) field) (\<lambda>s. Inr (JText s))"
| "json_scalar L dialect value field = Inr (JAsIs value)"

lemma size_row_value: "(n, v) \<in> set row \<Longrightarrow> size v < size_list (size_prod (\<lambda>_. 0) size) row"
  by (induction row) auto

lemma size_element: "v \<in> set vs \<Longrightarrow> size v < size_list size vs"
  by (induction vs) auto

function jsonObject :: "json_lib \<Rightarrow> rowDialect \<Rightarrow> row_values \<Rightarrow> Schema \<Rightarrow> gerr + (string \<times> jany) list"
  and jsonValue :: "json_lib \<Rightarrow> rowDialect \<Rightarrow> bqval \<Rightarrow> FieldSchema \<Rightarrow> gerr + jany"
  and jsonElement :: "json_lib \<Rightarrow> rowDialect \<Rightarrow> bqval \<Rightarrow> FieldSchema \<Rightarrow> gerr + jany" where
  "jsonObject L dialect row schema =
     (let byName = index_by fs_Name schema
      in traverse (\<lambda>(name, value).
           case byName name of
             None \<Rightarrow> Inl (EMsg (EncodeSite (NoSuchColumn name)))
           | Some field \<Rightarrow>
               map_error (EWrap (MarshalSite (InColumn name)))
                 (and_then (jsonValue L dialect value field) (\<lambda>rendered. Inr (name, rendered)))) row)"
| "jsonValue L dialect value field =
     (if value = BNil then
        (if fs_Required field then Inl (EMsg (EncodeSite RequiredColumnNull)) else Inr JNil)
      else if fs_Repeated field then
        (case value of
           BList elements \<Rightarrow>
             and_then (traverse_indexed (\<lambda>i element.
                 map_error (EWrap (MarshalSite (InElement i))) (jsonElement L dialect element field)) elements)
               (\<lambda>out. Inr (JArray out))
         | _ \<Rightarrow> Inl (EMsg (EncodeSite RepeatedNeedsValues)))
      else jsonElement L dialect value field)"
| "jsonElement L dialect value field =
     (if value = BNil then Inr JNil
      else if fs_Type field = RecordFieldType then
        (case value of
           BMap nested \<Rightarrow> and_then (jsonObject L dialect nested (fs_Schema field)) (\<lambda>object. Inr (JObject object))
         | _ \<Rightarrow> Inl (EMsg (EncodeSite RecordNeedsValues)))
      else if fs_Type field = JSONFieldType then jsonColumnValue L dialect value
      else json_scalar L dialect value field)"
  by pat_completeness auto

termination
  by (relation "measure (\<lambda>x. case x of
      Inl (L, d, row, s) \<Rightarrow> 3 * size_list (size_prod (\<lambda>_. 0) size) row + 2
    | Inr (Inl (L, d, v, f)) \<Rightarrow> 3 * size v + 1
    | Inr (Inr (L, d, v, f)) \<Rightarrow> 3 * size v)") (auto dest: size_row_value size_element, (frule size_row_value, simp)?)

declare jsonObject.simps [simp del] jsonValue.simps [simp del] jsonElement.simps [simp del]

lemma size_jarray: "v \<in> set vs \<Longrightarrow> size v < size_list size vs"
  by (induction vs) auto

lemma size_jobject: "(k, v) \<in> set ms \<Longrightarrow> size v < size_list (size_prod (\<lambda>_. 0) size) ms"
  by (induction ms) auto

text \<open>\<open>encoding/json\<close> writes the members of a map by their sorted keys.\<close>

function encode_any :: "json_lib \<Rightarrow> jany \<Rightarrow> gerr + string" where
  "encode_any L JNil = Inr ''null''"
| "encode_any L (JAsIs v) = js_encode L v"
| "encode_any L (JInt64 i) = Inr (show_int i)"
| "encode_any L (JText s) = Inr (js_quote L s)"
| "encode_any L (JRaw s) = Inr (js_compact L s)"
| "encode_any L (JArray xs) =
     and_then (traverse (encode_any L) xs) (\<lambda>ts. Inr (''['' @ go_join '','' ts @ '']''))"
| "encode_any L (JObject ms) =
     and_then (traverse (\<lambda>(k, v). and_then (encode_any L v) (\<lambda>t. Inr (js_quote L k @ '':'' @ t))) (sort_key fst ms))
       (\<lambda>ts. Inr (''{'' @ go_join '','' ts @ ''}''))"
  by pat_completeness auto

termination
  by (relation "measure (\<lambda>(L, x). size x)") (auto dest: size_jarray size_jobject simp: less_Suc_eq)

definition encodeRow :: "json_lib \<Rightarrow> row_values \<Rightarrow> Schema \<Rightarrow> rowDialect \<Rightarrow> gerr + string" where
  "encodeRow L row schema dialect =
     and_then (jsonObject L dialect row schema) (\<lambda>object.
       map_error (EWrap (EncodeSite EncodeRow)) (encode_any L (JObject object)))"

definition encodeJSONRow :: "json_lib \<Rightarrow> row_values \<Rightarrow> Schema \<Rightarrow> gerr + string" where
  "encodeJSONRow L row schema = encodeRow L row schema loadJobDialect"

definition encodeStorageWriteRow :: "json_lib \<Rightarrow> row_values \<Rightarrow> Schema \<Rightarrow> gerr + string" where
  "encodeStorageWriteRow L row schema = encodeRow L row schema storageWriteDialect"

section \<open>The decimal text denotes the number\<close>

definition digit_value :: "char \<Rightarrow> nat" where
  "digit_value c = of_char c - 48"

definition read_nat :: "string \<Rightarrow> nat" where
  "read_nat s = foldl (\<lambda>n c. 10 * n + digit_value c) 0 s"

definition read_unsigned :: "string \<Rightarrow> rat" where
  "read_unsigned s =
     (let (a, b, _) = go_cut CHR ''.'' s in of_nat (read_nat a) + of_nat (read_nat b) / 10 ^ length b)"

definition read_decimal :: "string \<Rightarrow> rat" where
  "read_decimal s =
     (if s \<noteq> [] \<and> hd s = CHR ''-'' then - read_unsigned (tl s) else read_unsigned s)"

lemma read_nat_snoc: "read_nat (s @ [c]) = 10 * read_nat s + digit_value c"
  by (simp add: read_nat_def)

lemma digit_value_of [simp]: "d < 10 \<Longrightarrow> digit_value (char_of (48 + d)) = d"
  by (simp add: digit_value_def)

lemma read_show_nat [simp]: "read_nat (show_nat n) = n"
proof (induction n rule: show_nat.induct)
  case (1 n)
  show ?case
  proof (cases "n < 10")
    case True
    then show ?thesis by (subst show_nat.simps) (simp add: read_nat_def)
  next
    case False
    with 1 show ?thesis by (subst show_nat.simps) (simp add: read_nat_snoc)
  qed
qed

definition is_digit :: "char \<Rightarrow> bool" where
  "is_digit c \<longleftrightarrow> 48 \<le> (of_char c :: nat) \<and> (of_char c :: nat) \<le> 57"

lemma is_digit_of: "d < (10::nat) \<Longrightarrow> is_digit (char_of (48 + d))"
  by (simp add: is_digit_def)

lemma show_nat_digits: "c \<in> set (show_nat n) \<Longrightarrow> is_digit c"
proof (induction n rule: show_nat.induct)
  case (1 n)
  then show ?case
    by (subst (asm) show_nat.simps) (auto simp: is_digit_of split: if_splits)
qed

lemma show_nat_not_Nil [simp]: "show_nat n \<noteq> []"
  by (subst show_nat.simps) simp

lemma not_digit: "is_digit c \<Longrightarrow> c \<noteq> CHR ''.''" "is_digit c \<Longrightarrow> c \<noteq> CHR ''-''"
  by (auto simp: is_digit_def)

lemma show_nat_plain: "CHR ''.'' \<notin> set (show_nat n)" "hd (show_nat n) \<noteq> CHR ''-''"
  using show_nat_digits not_digit show_nat_not_Nil by (metis, metis hd_in_set)

lemma show_nat_length: "n < 10 ^ k \<Longrightarrow> k > 0 \<Longrightarrow> length (show_nat n) \<le> k"
proof (induction k arbitrary: n)
  case 0
  then show ?case by simp
next
  case (Suc k)
  show ?case
  proof (cases "n < 10")
    case True
    then show ?thesis by (subst show_nat.simps) simp
  next
    case False
    then have "k > 0" using Suc.prems by (cases k) auto
    moreover have "n div 10 < 10 ^ k" using Suc.prems by (simp add: less_mult_imp_div_less mult.commute)
    ultimately have "length (show_nat (n div 10)) \<le> k" using Suc.IH by blast
    then show ?thesis using False by (subst show_nat.simps) simp
  qed
qed

lemma read_pad: "read_nat (replicate n CHR ''0'' @ s) = read_nat s"
  by (induction n) (simp_all add: read_nat_def digit_value_def)

lemma float_parts_close:
  assumes "den > 0"
  shows "snd (float_parts num den prec) < 10 ^ prec"
    and "2 * \<bar>int ((fst (float_parts num den prec) * 10 ^ prec + snd (float_parts num den prec)) * den) - int (num * 10 ^ prec)\<bar> \<le> int den"
proof -
  define p :: nat where "p = 10 ^ prec"
  define f where "f = (num mod den) * p div den"
  define m where "m = (num mod den) * p mod den"
  have p: "p > 0" by (simp add: p_def)
  have m: "m < den" using assms by (simp add: m_def)
  have fm: "(num mod den) * p = f * den + m" by (simp add: f_def m_def)
  have "(num mod den) * p < den * p" using assms p by simp
  then have "f * den < p * den" unfolding fm by (simp only: mult.commute[of den p])
  then have f: "f < p" using assms by simp
  have num: "num * p = (num div den * p + f) * den + m"
  proof -
    have "num * p = (num div den * den + num mod den) * p" by simp
    also have "\<dots> = num div den * p * den + (f * den + m)"
      unfolding distrib_right fm by (simp add: ac_simps)
    finally show ?thesis by (simp add: algebra_simps)
  qed
  have parts: "float_parts num den prec =
      (if den \<le> 2 * m then (if f + 1 \<ge> p then (num div den + 1, f + 1 - p) else (num div den, f + 1))
       else (num div den, f))"
    by (simp add: float_parts_def Let_def p_def f_def m_def)
  show "snd (float_parts num den prec) < 10 ^ prec"
    unfolding parts p_def[symmetric] using f p by auto
  have val: "fst (float_parts num den prec) * p + snd (float_parts num den prec)
      = num div den * p + f + (if den \<le> 2 * m then 1 else 0)"
    unfolding parts using f by (auto simp: algebra_simps)
  show "2 * \<bar>int ((fst (float_parts num den prec) * 10 ^ prec + snd (float_parts num den prec)) * den) - int (num * 10 ^ prec)\<bar> \<le> int den"
    unfolding p_def[symmetric] val num using m by (auto simp: algebra_simps)
qed

lemma read_unsigned_parts:
  assumes "f < 10 ^ prec" and "prec > 0"
  shows "read_unsigned (show_nat q @ ''.'' @ pad_zeros prec (show_nat f)) = of_nat (q * 10 ^ prec + f) / 10 ^ prec"
proof -
  have "go_cut CHR ''.'' (show_nat q @ CHR ''.'' # pad_zeros prec (show_nat f)) = (show_nat q, pad_zeros prec (show_nat f), True)"
    by (rule go_cut_append) (rule show_nat_plain)
  moreover have "length (pad_zeros prec (show_nat f)) = prec"
    using show_nat_length[OF assms] by (simp add: pad_zeros_def)
  ultimately show ?thesis
    by (simp add: read_unsigned_def pad_zeros_def read_pad add_divide_distrib)
qed

lemma read_unsigned_nat: "read_unsigned (show_nat n) = of_nat n"
  by (simp add: read_unsigned_def go_cut_no_sep show_nat_plain) (simp add: read_nat_def)

lemma read_decimal_sign:
  "s \<noteq> [] \<Longrightarrow> hd s \<noteq> CHR ''-'' \<Longrightarrow> read_decimal ((if b then ''-'' else []) @ s) = (if b then - read_unsigned s else read_unsigned s)"
  by (simp add: read_decimal_def)

lemma read_show_int: "read_decimal (show_int i) = of_int i"
  using read_decimal_sign[of "show_nat (nat \<bar>i\<bar>)" "i < 0"]
  by (auto simp: show_int_def show_nat_plain read_unsigned_nat)

lemma small_abs: "2 * \<bar>x\<bar> \<le> 1 \<Longrightarrow> x = (0 :: int)"
  by linarith

lemma read_FloatString:
  assumes "prec > 0"
  shows "\<bar>read_decimal (FloatString r prec) - r\<bar> \<le> 1 / (2 * 10 ^ prec)"
    and "r * 10 ^ prec \<in> \<int> \<Longrightarrow> read_decimal (FloatString r prec) = r"
proof -
  obtain num den where nd: "quotient_of r = (num, den)" by force
  then have den: "den > 0" and r: "r = of_int num / of_int den"
    by (auto dest: quotient_of_denom_pos quotient_of_div)
  obtain q f where qf: "float_parts (nat \<bar>num\<bar>) (nat den) prec = (q, f)" by force
  let ?v = "of_nat (q * 10 ^ prec + f) / 10 ^ prec :: rat"
  have f: "f < 10 ^ prec" and close: "2 * \<bar>int ((q * 10 ^ prec + f) * nat den) - int (nat \<bar>num\<bar> * 10 ^ prec)\<bar> \<le> den"
    using float_parts_close[of "nat den" "nat \<bar>num\<bar>" prec] den by (simp_all add: qf)
  have read: "read_decimal (FloatString r prec) = (if num < 0 then - ?v else ?v)"
    using assms read_decimal_sign[of "show_nat q @ ''.'' @ pad_zeros prec (show_nat f)" "num < 0"] show_nat_plain(2)[of q]
    using read_unsigned_parts[OF f assms, of q] by (simp add: FloatString_def nd qf)
  define e :: int where "e = int (q * 10 ^ prec + f) * den - \<bar>num\<bar> * 10 ^ prec"
  have e: "2 * \<bar>e\<bar> \<le> den" using close den by (simp add: e_def)
  have "of_nat (q * 10 ^ prec + f) * of_int den - \<bar>of_int num\<bar> * 10 ^ prec = (of_int e :: rat)"
    by (simp add: e_def)
  moreover have "?v - \<bar>r\<bar> = (of_nat (q * 10 ^ prec + f) * of_int den - \<bar>of_int num\<bar> * 10 ^ prec) / (of_int den * 10 ^ prec)"
    using den by (simp add: r abs_divide diff_frac_eq mult.commute)
  ultimately have diff: "?v - \<bar>r\<bar> = of_int e / (of_int den * 10 ^ prec)" by simp
  have sign: "read_decimal (FloatString r prec) - r = (if num < 0 then - (?v - \<bar>r\<bar>) else ?v - \<bar>r\<bar>)"
  proof -
    have "\<bar>r\<bar> = (if num < 0 then - r else r)" using den by (simp add: r abs_divide)
    then show ?thesis unfolding read by simp
  qed
  have abs: "\<bar>read_decimal (FloatString r prec) - r\<bar> = of_int \<bar>e\<bar> / (of_int den * 10 ^ prec)"
    unfolding sign diff using den by (simp add: abs_divide)
  have "2 * of_int \<bar>e\<bar> \<le> (of_int den :: rat)" using e by (metis of_int_le_iff of_int_mult of_int_numeral)
  with den show "\<bar>read_decimal (FloatString r prec) - r\<bar> \<le> 1 / (2 * 10 ^ prec)"
    unfolding abs by (simp add: field_simps)
  assume "r * 10 ^ prec \<in> \<int>"
  then obtain k where "r * 10 ^ prec = of_int k" by (auto elim: Ints_cases)
  then have "(of_int (num * 10 ^ prec) :: rat) = of_int (k * den)"
    using den by (simp add: r field_simps)
  then have "num * 10 ^ prec = k * den" by (simp only: of_int_eq_iff)
  then have "\<bar>num * 10 ^ prec\<bar> = \<bar>k * den\<bar>" by simp
  then have "\<bar>num\<bar> * 10 ^ prec = \<bar>k\<bar> * den" using den by (simp add: abs_mult)
  then have ek: "e = (int (q * 10 ^ prec + f) - \<bar>k\<bar>) * den" by (simp add: e_def algebra_simps)
  then have "\<bar>e\<bar> = \<bar>int (q * 10 ^ prec + f) - \<bar>k\<bar>\<bar> * den" using den by (simp add: abs_mult)
  with e den have "2 * \<bar>int (q * 10 ^ prec + f) - \<bar>k\<bar>\<bar> * den \<le> 1 * den" by simp
  then have "2 * \<bar>int (q * 10 ^ prec + f) - \<bar>k\<bar>\<bar> \<le> 1" using den by (simp only: mult_le_cancel_right_pos)
  then have "int (q * 10 ^ prec + f) - \<bar>k\<bar> = 0" by (rule small_abs)
  then have "e = 0" using ek by simp
  with abs show "read_decimal (FloatString r prec) = r" by simp
qed

lemma decimalString_within:
  "\<exists>s. decimalString (Some r) field = Inr s
    \<and> \<bar>read_decimal s - r\<bar> \<le> 1 / (2 * 10 ^ nat (decimalScale field))
    \<and> (r * 10 ^ nat (decimalScale field) \<in> \<int> \<longrightarrow> read_decimal s = r)"
proof -
  have scale: "nat (decimalScale field) > 0"
    by (simp add: decimalScale_def numericScale_def bigNumericScale_def)
  show ?thesis
  proof (cases "snd (quotient_of r) = 1")
    case True
    then have "r = of_int (fst (quotient_of r))"
      by (metis div_by_1 of_int_1 prod.collapse quotient_of_div)
    then have "read_decimal (show_int (fst (quotient_of r))) = r" by (simp add: read_show_int)
    then show ?thesis using True by (simp add: decimalString_def)
  next
    case False
    then show ?thesis using read_FloatString[OF scale, of r] by (simp add: decimalString_def)
  qed
qed

text \<open>
  C21: decimal text loses no digit the column keeps. What is written for a number, whatever its
  sign and size, denotes a number at most half a unit in the last kept digit away from it, and the
  number itself where it needs no more digits than are kept: as many as the column's own scale says
  where it states one, 38 in a BIGNUMERIC column that states none, and 9 in any other.
\<close>

theorem decimalString_denotes:
  "let kept = (if fs_Scale field > 0 then nat (fs_Scale field)
               else if fs_Type field = BigNumericFieldType then 38 else 9)
   in \<exists>s. decimalString (Some r) field = Inr s
        \<and> \<bar>read_decimal s - r\<bar> \<le> 1 / (2 * 10 ^ kept)
        \<and> (r * 10 ^ kept \<in> \<int> \<longrightarrow> read_decimal s = r)"
proof -
  have kept: "(if fs_Scale field > 0 then nat (fs_Scale field)
      else if fs_Type field = BigNumericFieldType then 38 else 9) = nat (decimalScale field)"
    by (simp add: decimalScale_def numericScale_def bigNumericScale_def)
  show ?thesis unfolding kept Let_def by (rule decimalString_within)
qed

text \<open>Twenty digits after the point: BIGNUMERIC keeps them all.\<close>

theorem decimalString_denotes_witness:
  "\<exists>s. decimalString (Some (1 / 2 ^ 20)) (FieldSchema ''n'' BigNumericFieldType False False [] 0 []) = Inr s
    \<and> read_decimal s = 1 / 2 ^ 20"
proof -
  let ?f = "FieldSchema ''n'' BigNumericFieldType False False [] 0 []"
  have "(1 / 2 ^ 20 :: rat) * 10 ^ 38 = of_int (5 ^ 20 * 10 ^ 18)" by simp
  then have "(1 / 2 ^ 20 :: rat) * 10 ^ 38 \<in> \<int>" by (metis Ints_of_int)
  with decimalString_denotes[of ?f "1 / 2 ^ 20"] show ?thesis by (simp add: Let_def) blast
qed

section \<open>One row, one line\<close>

text \<open>
  What package json documents of the texts it writes: a string is quoted with its control
  characters escaped; the insignificant space of a valid JSON text is left out when the text
  is embedded; and no other value's text spans lines, nor does a name of package civil or a
  formatted instant.
\<close>

abbreviation newline :: char where "newline \<equiv> CHR 0x0A"

definition json_contract :: "json_lib \<Rightarrow> bool" where
  "json_contract L \<longleftrightarrow>
     (\<forall>s. newline \<notin> set (js_quote L s)) \<and>
     (\<forall>s. js_Valid L s \<longrightarrow> newline \<notin> set (js_compact L s)) \<and>
     (\<forall>v t. js_encode L v = Inr t \<longrightarrow> newline \<notin> set t)"

text \<open>Every embedded text in the tree has been found valid.\<close>

fun raw_valid :: "json_lib \<Rightarrow> jany \<Rightarrow> bool" where
  "raw_valid L (JRaw s) \<longleftrightarrow> js_Valid L s"
| "raw_valid L (JArray xs) \<longleftrightarrow> (\<forall>x\<in>set xs. raw_valid L x)"
| "raw_valid L (JObject ms) \<longleftrightarrow> (\<forall>m\<in>set ms. raw_valid L (snd m))"
| "raw_valid L x \<longleftrightarrow> True"

lemma raw_valid_column: "jsonColumnValue L d v = Inr x \<Longrightarrow> raw_valid L x"
  by (auto simp: jsonColumnValue_def split: option.splits if_splits)

lemma raw_valid_scalar: "json_scalar L d v f = Inr x \<Longrightarrow> raw_valid L x"
  by (cases v) (auto simp: and_then_Inr split: if_splits)

lemma rendered_raw_valid:
  "jsonObject L d row schema = Inr object \<Longrightarrow> raw_valid L (JObject object)"
  "jsonValue L d v field = Inr x \<Longrightarrow> raw_valid L x"
  "jsonElement L d v field = Inr x \<Longrightarrow> raw_valid L x"
proof (induction L d row schema and L d v field and L d v field arbitrary: object and x and x
    rule: jsonObject_jsonValue_jsonElement.induct)
  case (1 L dialect row schema)
  have "raw_valid L (snd m)" if m: "m \<in> set object" for m
  proof -
    note rows = "1.prems"[unfolded jsonObject.simps[of L dialect row schema] Let_def]
    obtain i where i: "i < length row" "m = object ! i"
      using m traverse_length[OF rows] by (auto simp: in_set_conv_nth)
    obtain n v where nv: "row ! i = (n, v)" by force
    then have mem: "(n, v) \<in> set row" using i(1) by (metis nth_mem)
    have "(case index_by fs_Name schema n of None \<Rightarrow> Inl (EMsg (EncodeSite (NoSuchColumn n)))
        | Some field \<Rightarrow> map_error (EWrap (MarshalSite (InColumn n)))
            (and_then (jsonValue L dialect v field) (\<lambda>rendered. Inr (n, rendered)))) = Inr m"
      using traverse_nth[OF rows i(1)] nv i(2)
      by simp
    then obtain field y where "index_by fs_Name schema n = Some field" "jsonValue L dialect v field = Inr y" "m = (n, y)"
      by (auto simp: map_error_Inr and_then_Inr split: option.splits)
    with "1.IH"[OF refl mem refl] show ?thesis by auto
  qed
  then show ?case by simp
next
  case (2 L dialect v field)
  show ?case
  proof (cases v)
    case (BList es)
    show ?thesis
    proof (cases "fs_Repeated field")
      case True
      with BList "2.prems" obtain out where out: "x = JArray out" "length out = length es"
        "\<forall>i<length es. jsonElement L dialect (es ! i) field = Inr (out ! i)"
        by (auto simp: jsonValue.simps and_then_Inr traverse_indexed_Inr map_error_Inr)
      have "raw_valid L y" if "y \<in> set out" for y
        using that out(2,3) "2.IH"(1)[of es] BList True by (fastforce simp: in_set_conv_nth)
      with out(1) show ?thesis by simp
    next
      case False
      with BList "2.prems" "2.IH"(2) show ?thesis by (simp add: jsonValue.simps)
    qed
  qed (use "2.prems" "2.IH"(2) in \<open>auto simp: jsonValue.simps split: if_splits\<close>)
next
  case (3 L dialect v field)
  then show ?case
    by (cases v)
      (auto simp: jsonElement.simps and_then_Inr split: if_splits dest: raw_valid_column raw_valid_scalar)
qed

lemma show_int_line: "newline \<notin> set (show_int i)"
proof -
  have "\<not> is_digit newline" by (simp add: is_digit_def)
  then have "newline \<notin> set (show_nat n)" for n using show_nat_digits by blast
  then show ?thesis by (simp add: show_int_def)
qed

lemma go_join_line: "newline \<notin> set sep \<Longrightarrow> (\<And>t. t \<in> set ts \<Longrightarrow> newline \<notin> set t) \<Longrightarrow> newline \<notin> set (go_join sep ts)"
  by (induction sep ts rule: go_join.induct) auto

lemma encode_any_line:
  "encode_any L x = Inr t \<Longrightarrow> raw_valid L x \<Longrightarrow> json_contract L \<Longrightarrow> newline \<notin> set t"
proof (induction L x arbitrary: t rule: encode_any.induct)
  case (6 L xs)
  then obtain ts where ts: "traverse (encode_any L) xs = Inr ts" "t = ''['' @ go_join '','' ts @ '']''"
    by (auto simp: and_then_Inr)
  have "newline \<notin> set u" if u: "u \<in> set ts" for u
  proof -
    obtain i where i: "i < length xs" "ts ! i = u"
      using u traverse_length[OF ts(1)] by (auto simp: in_set_conv_nth)
    with traverse_nth[OF ts(1)] have "encode_any L (xs ! i) = Inr u" by blast
    with 6 nth_mem[OF i(1)] show ?thesis by simp
  qed
  then show ?case using go_join_line[of "'',''" ts] ts(2) by auto
next
  case (7 L ms)
  let ?f = "\<lambda>(k, v). and_then (encode_any L v) (\<lambda>t. Inr (js_quote L k @ '':'' @ t))"
  obtain ts where ts: "traverse ?f (sort_key fst ms) = Inr ts" "t = ''{'' @ go_join '','' ts @ ''}''"
    using "7.prems" by (auto simp: and_then_Inr)
  have "newline \<notin> set u" if u: "u \<in> set ts" for u
  proof -
    obtain i where i: "i < length (sort_key fst ms)" "ts ! i = u"
      using u traverse_length[OF ts(1)] by (auto simp: in_set_conv_nth)
    obtain k v where kv: "sort_key fst ms ! i = (k, v)" by force
    then have mem: "(k, v) \<in> set ms" using i(1) by (metis nth_mem set_sort)
    obtain w where w: "encode_any L v = Inr w" "u = js_quote L k @ '':'' @ w"
      using traverse_nth[OF ts(1) i(1)] kv i(2) by (auto simp: and_then_Inr)
    have "newline \<notin> set w"
      using "7.IH"[of "(k, v)" k v w] mem w(1) "7.prems" by force
    then show ?thesis using w(2) "7.prems" by (auto simp: json_contract_def)
  qed
  then show ?case using go_join_line[of "'',''" ts] ts(2) by auto
qed (auto simp: json_contract_def show_int_line)

lemma encodeRow_line:
  assumes "json_contract L" and "encodeRow L row schema dialect = Inr line"
  shows "newline \<notin> set line"
proof -
  from assms(2) obtain object where "jsonObject L dialect row schema = Inr object" "encode_any L (JObject object) = Inr line"
    by (auto simp: encodeRow_def and_then_Inr map_error_Inr)
  then show ?thesis using encode_any_line rendered_raw_valid(1) assms(1) by blast
qed

text \<open>
  C22: a rendered row is one line, whichever transport it is for. A load job reads its rows
  separated by newlines, so no value a row holds, not even JSON text spread over several
  lines, can end the row early or start another.
\<close>

theorem rendered_row_is_one_line:
  assumes "json_contract L" and "encodeRow L row schema dialect = Inr line"
  shows "newline \<notin> set line"
  using encodeRow_line[OF assms] .

text \<open>A library that keeps the contract, with texts as simple as it allows.\<close>

definition plain_civil :: civil where
  "plain_civil = \<lparr>
     civil_DateOf = (\<lambda>t. \<lparr>cd_Year = 1970, cd_Month = 1, cd_Day = 1 + gt_nanos t div 86400000000000\<rparr>),
     civil_TimeOf = (\<lambda>t. \<lparr>ct_Hour = 0, ct_Minute = 0, ct_Second = 0, ct_Nanosecond = gt_nanos t\<rparr>),
     civil_DateTimeOf = (\<lambda>t. (\<lparr>cd_Year = 1970, cd_Month = 1, cd_Day = 1\<rparr>,
        \<lparr>ct_Hour = 0, ct_Minute = 0, ct_Second = 0, ct_Nanosecond = gt_nanos t\<rparr>)),
     Date_String = (\<lambda>d. show_int (cd_Year d) @ ''-'' @ show_int (cd_Month d) @ ''-'' @ show_int (cd_Day d)),
     Time_String = (\<lambda>t. show_int (ct_Hour t)), DateTime_String = (\<lambda>dt. show_int (cd_Year (fst dt)))\<rparr>"

definition strip_newlines :: "string \<Rightarrow> string" where
  "strip_newlines s = filter (\<lambda>c. c \<noteq> newline) s"

definition plain_json :: json_lib where
  "plain_json = \<lparr>js_civil = plain_civil, js_Format = (\<lambda>t. show_int (gt_nanos t)), js_Valid = (\<lambda>s. s \<noteq> []),
     js_quote = (\<lambda>s. [CHR 0x22] @ strip_newlines s @ [CHR 0x22]), js_compact = strip_newlines,
     js_encode = (\<lambda>v. case v of BInt i \<Rightarrow> Inr (show_int i) | BString s \<Rightarrow> Inr ([CHR 0x22] @ strip_newlines s @ [CHR 0x22])
       | BNil \<Rightarrow> Inr ''null'' | _ \<Rightarrow> Inl (EOther []))\<rparr>"

lemma plain_json_contract: "json_contract plain_json"
  using show_int_line
  by (auto simp: json_contract_def plain_json_def strip_newlines_def split: bqval.splits)

theorem rendered_row_is_one_line_witness:
  "\<exists>line. encodeJSONRow plain_json [(''j'', BRawMessage [CHR ''1'', newline])]
     [FieldSchema ''j'' JSONFieldType False False [] 0 []] = Inr line \<and> newline \<notin> set line"
proof -
  have "encodeRow plain_json [(''j'', BRawMessage [CHR ''1'', newline])]
     [FieldSchema ''j'' JSONFieldType False False [] 0 []] loadJobDialect
    = Inr (''{'' @ [CHR 0x22] @ ''j'' @ [CHR 0x22] @ '':1}'')"
    by (simp add: encodeRow_def jsonObject.simps jsonValue.simps jsonElement.simps jsonColumnValue_def
        index_by_def plain_json_def strip_newlines_def)
  from rendered_row_is_one_line[OF plain_json_contract this] this show ?thesis
    by (simp add: encodeJSONRow_def)
qed

section \<open>The two dialects\<close>

text \<open>No TIMESTAMP value and no JSON column is reached in rendering.\<close>

fun no_times :: "bqval \<Rightarrow> bool" where
  "no_times (BTime t) \<longleftrightarrow> False"
| "no_times (BList vs) \<longleftrightarrow> (\<forall>v\<in>set vs. no_times v)"
| "no_times (BMap m) \<longleftrightarrow> (\<forall>e\<in>set m. no_times (snd e))"
| "no_times v \<longleftrightarrow> True"

function no_json_columns :: "Schema \<Rightarrow> bool" where
  "no_json_columns s \<longleftrightarrow> (\<forall>f\<in>set s. fs_Type f \<noteq> JSONFieldType \<and> no_json_columns (fs_Schema f))"
  by pat_completeness auto

termination by (relation "measure (size_list size)") (auto simp: size_in_schema)

declare no_json_columns.simps [simp del]

lemma dialects_agree:
  "\<forall>e\<in>set row. no_times (snd e) \<Longrightarrow> no_json_columns schema \<Longrightarrow>
     jsonObject L d row schema = jsonObject L d' row schema"
  "no_times v \<Longrightarrow> fs_Type field \<noteq> JSONFieldType \<Longrightarrow> no_json_columns (fs_Schema field) \<Longrightarrow>
     jsonValue L d v field = jsonValue L d' v field"
  "no_times v \<Longrightarrow> fs_Type field \<noteq> JSONFieldType \<Longrightarrow> no_json_columns (fs_Schema field) \<Longrightarrow>
     jsonElement L d v field = jsonElement L d' v field"
proof (induction L d row schema and L d v field and L d v field rule: jsonObject_jsonValue_jsonElement.induct)
  case (1 L d row schema)
  have "jsonValue L d v f = jsonValue L d' v f"
    if "(n, v) \<in> set row" "index_by fs_Name schema n = Some f" for n v f
  proof -
    from that(2) have "f \<in> set schema" by (auto dest: index_by_Some_set)
    with "1.prems" that(1) "1.IH"[OF refl that(1) refl that(2)] show ?thesis
      by (subst (asm) no_json_columns.simps) fastforce
  qed
  then show ?case
    unfolding jsonObject.simps Let_def by (intro traverse_cong refl) (auto split: option.splits)
next
  case (2 L d v field)
  then show ?case
    unfolding jsonValue.simps
    by (cases v) (auto intro!: arg_cong2[of _ _ _ _ and_then] traverse_indexed_cong)
next
  case (3 L d v field)
  then show ?case
    unfolding jsonElement.simps by (cases v) auto
qed

text \<open>
  The two transports disagree on TIMESTAMP and JSON columns only. A row that holds no
  instant, for a schema without JSON columns at any depth, is rendered as the same text, or
  refused with the same error, for both.
\<close>

theorem dialects_disagree_on_time_and_json_only:
  assumes "\<forall>e\<in>set row. no_times (snd e)" and "no_json_columns schema"
  shows "encodeJSONRow L row schema = encodeStorageWriteRow L row schema"
  using dialects_agree(1)[OF assms, of L loadJobDialect storageWriteDialect]
  by (simp add: encodeJSONRow_def encodeStorageWriteRow_def encodeRow_def)

theorem dialects_disagree_on_time_and_json_only_witness:
  "encodeJSONRow plain_json [(''n'', BInt 7)] [FieldSchema ''n'' IntegerFieldType False False [] 0 []]
     = encodeStorageWriteRow plain_json [(''n'', BInt 7)] [FieldSchema ''n'' IntegerFieldType False False [] 0 []]"
  by (rule dialects_disagree_on_time_and_json_only)
    (simp_all add: no_json_columns.simps[of "[FieldSchema n t r p d k []]" for n t r p d k] no_json_columns.simps[of "[]"])

end
