(* ===== verification/RowRendering.thy ===== *)
theory RowRendering
  imports RowValues Layout JsonRow
begin

text \<open>
  The rows a plan makes are rows of the schema it declares: the same columns, and shaped so that
  rendering them never meets a column it does not know or a value of the wrong structure.
\<close>

section \<open>The columns of a row\<close>

definition column_gets :: "go_env \<Rightarrow> goval \<Rightarrow> fieldPlan \<Rightarrow> bqval \<Rightarrow> bool" where
  "column_gets G v f val \<longleftrightarrow>
     (case fieldByIndexErr (ge_types G) v (fp_index f) of
        None \<Rightarrow> val = BNil
      | Some fv \<Rightarrow> marshalValue G f (field_unexported (ge_types G) (type_of v) (fp_index f), fv) = Inr val)"

lemma marshal_fields_Inr:
  assumes "marshal_fields G fs v row = Inr row'" and "distinct (map fp_name fs)"
    and "fst ` set row \<inter> set (map fp_name fs) = {}"
  shows "\<exists>vals. row' = row @ zip (map fp_name fs) vals \<and> list_all2 (column_gets G v) fs vals"
  using assms
proof (induction fs arbitrary: row)
  case (Cons f fs)
  obtain val where val: "column_gets G v f val"
    and rest: "marshal_fields G fs v (map_put (fp_name f) val row) = Inr row'"
    using Cons.prems(1) by (auto simp: column_gets_def and_then_Inr map_error_Inr split: option.splits)
  have put: "map_put (fp_name f) val row = row @ [(fp_name f, val)]"
    using Cons.prems(3) by (intro map_put_new) auto
  have "\<exists>vals. row' = (row @ [(fp_name f, val)]) @ zip (map fp_name fs) vals \<and> list_all2 (column_gets G v) fs vals"
  proof (rule Cons.IH)
    show "marshal_fields G fs v (row @ [(fp_name f, val)]) = Inr row'" using rest put by simp
    show "distinct (map fp_name fs)" using Cons.prems(2) by simp
    show "fst ` set (row @ [(fp_name f, val)]) \<inter> set (map fp_name fs) = {}" using Cons.prems(2,3) by auto
  qed
  then obtain vals where "row' = (row @ [(fp_name f, val)]) @ zip (map fp_name fs) vals"
    "list_all2 (column_gets G v) fs vals" by blast
  with val show ?case by (intro exI[of _ "val # vals"]) simp
qed simp

lemma marshalRow_Inr:
  assumes "marshalRow G p rv = Inr row" and "plan_ok p"
  obtains v vals where "derefValue (snd rv) = Some v" "row = zip (columnNames p) vals"
    "list_all2 (column_gets G v) (rp_fields p) vals"
proof -
  from assms(1) obtain v where v: "derefValue (snd rv) = Some v" "marshal_fields G (rp_fields p) v [] = Inr row"
    by (auto simp: marshalRow.simps[of G p rv] split: option.splits)
  with assms(2) marshal_fields_Inr[OF v(2)] that show ?thesis
    by (auto simp: plan_ok_iff columnNames_def)
qed

text \<open>
  C29: schema and rows read the same plan, so they cannot drift apart: a row has exactly the
  columns the inferred schema declares, in its order, whatever value it is made from.
\<close>

theorem row_has_the_schema_columns:
  assumes "buildRowPlan n (ge_types G) ms t = Some (Inr p)" and "marshalRow G p rv = Inr row"
  shows "map fst row = namesOf (plan_schema p)"
proof -
  have ok: "plan_ok p" using assms(1) built_plan_ok by (auto simp: buildRowPlan_Inr)
  from assms(2) ok show ?thesis
    by (rule marshalRow_Inr) (auto simp: namesOf_plan columnNames_def dest: list_all2_lengthD)
qed

section \<open>The structure of a row\<close>

text \<open>A value fits a column when lists, and maps for RECORD columns, stand where they must.\<close>

function row_fits :: "row_values \<Rightarrow> Schema \<Rightarrow> bool"
  and value_fits :: "bqval \<Rightarrow> FieldSchema \<Rightarrow> bool"
  and element_fits :: "bqval \<Rightarrow> FieldSchema \<Rightarrow> bool" where
  "row_fits row s \<longleftrightarrow> (\<forall>(n, v)\<in>set row. case index_by fs_Name s n of None \<Rightarrow> False | Some f \<Rightarrow> value_fits v f)"
| "value_fits v f \<longleftrightarrow>
     v = BNil \<or> (if fs_Repeated f then (case v of BList vs \<Rightarrow> \<forall>w\<in>set vs. element_fits w f | _ \<Rightarrow> False)
                else element_fits v f)"
| "element_fits v f \<longleftrightarrow>
     v = BNil \<or> fs_Type f \<noteq> RecordFieldType \<or> (case v of BMap m \<Rightarrow> row_fits m (fs_Schema f) | _ \<Rightarrow> False)"
  by pat_completeness auto

termination
  by (relation "measure (\<lambda>x. case x of
      Inl (row, s) \<Rightarrow> 3 * size_list (size_prod (\<lambda>_. 0) size) row + 2
    | Inr (Inl (v, f)) \<Rightarrow> 3 * size v + 1
    | Inr (Inr (v, f)) \<Rightarrow> 3 * size v)") (auto dest: size_row_value size_element, (frule size_row_value, simp)?)

declare row_fits.simps [simp del] value_fits.simps [simp del] element_fits.simps [simp del]

text \<open>The errors of rendering that say a row does not have the structure of its schema.\<close>

fun structural :: "gerr \<Rightarrow> bool" where
  "structural (EWrap s e) \<longleftrightarrow> structural e"
| "structural (EMsg (EncodeSite (NoSuchColumn n))) \<longleftrightarrow> True"
| "structural (EMsg (EncodeSite RepeatedNeedsValues)) \<longleftrightarrow> True"
| "structural (EMsg (EncodeSite RecordNeedsValues)) \<longleftrightarrow> True"
| "structural e \<longleftrightarrow> False"

lemma not_structural_leaf:
  "jsonColumnValue L d v = Inl e \<Longrightarrow> \<not> structural e"
  "decimalString r f = Inl e \<Longrightarrow> \<not> structural e"
  by (auto simp: jsonColumnValue_def decimalString_def split: option.splits if_splits)

lemma not_structural_scalar: "json_scalar L d v f = Inl e \<Longrightarrow> \<not> structural e"
  by (cases v) (auto simp: and_then_Inl dest: not_structural_leaf(2))

lemma fitting_renders:
  "row_fits row s \<Longrightarrow> jsonObject L d row s = Inl e \<Longrightarrow> \<not> structural e"
  "value_fits v f \<Longrightarrow> jsonValue L d v f = Inl e \<Longrightarrow> \<not> structural e"
  "element_fits v f \<Longrightarrow> jsonElement L d v f = Inl e \<Longrightarrow> \<not> structural e"
proof (induction L d row s and L d v f and L d v f arbitrary: e and e and e
    rule: jsonObject_jsonValue_jsonElement.induct)
  case (1 L d row s)
  let ?entry = "\<lambda>(name, value). case index_by fs_Name s name of
             None \<Rightarrow> Inl (EMsg (EncodeSite (NoSuchColumn name)))
           | Some field \<Rightarrow>
               map_error (EWrap (MarshalSite (InColumn name)))
                 (and_then (jsonValue L d value field) (\<lambda>rendered. Inr (name, rendered)))"
  have "traverse ?entry row = Inl e"
    using "1.prems"(2) by (simp add: jsonObject.simps[of L d row s] Let_def)
  then obtain x where x: "x \<in> set row" "?entry x = Inl e" by (rule traverse_error[THEN bexE])
  obtain n v where xv: "x = (n, v)" by (cases x)
  have nv: "(n, v) \<in> set row" "?entry (n, v) = Inl e" using x unfolding xv by this
  from "1.prems"(1) nv(1) obtain f where f: "index_by fs_Name s n = Some f" "value_fits v f"
    by (auto simp: row_fits.simps[of row s] split: option.splits)
  with nv(2) obtain e' where "jsonValue L d v f = Inl e'" "e = EWrap (MarshalSite (InColumn n)) e'"
    by (auto simp: map_error_Inl and_then_Inl)
  with "1.IH"[OF refl nv(1) refl f(1) f(2)] show ?case by simp
next
  case (2 L d v f)
  show ?case
  proof (cases "v = BNil")
    case True
    with "2.prems"(2) show ?thesis by (auto simp: jsonValue.simps split: if_splits)
  next
    case nonnil: False
    show ?thesis
    proof (cases "fs_Repeated f")
      case True
      with "2.prems"(1) nonnil obtain vs where vs: "v = BList vs" "\<forall>w\<in>set vs. element_fits w f"
        by (cases v) (auto simp: value_fits.simps[of _ f])
      with "2.prems"(2) True have "traverse_indexed (\<lambda>i w. map_error (EWrap (MarshalSite (InElement i))) (jsonElement L d w f)) vs = Inl e"
        by (simp add: jsonValue.simps and_then_Inl)
      then obtain i e' where "i < length vs" "jsonElement L d (vs ! i) f = Inl e'" "e = EWrap (MarshalSite (InElement i)) e'"
        by (auto simp: map_error_Inl dest!: traverse_indexed_Inl)
      with "2.IH"(1)[OF nonnil True vs(1) nth_mem] vs(2) show ?thesis by simp
    next
      case False
      with nonnil "2.prems" "2.IH"(2) show ?thesis by (simp add: jsonValue.simps value_fits.simps)
    qed
  qed
next
  case (3 L d v f)
  show ?case
  proof (cases "v \<noteq> BNil \<and> fs_Type f = RecordFieldType")
    case True
    with "3.prems"(1) obtain m where m: "v = BMap m" "row_fits m (fs_Schema f)"
      by (cases v) (auto simp: element_fits.simps[of _ f])
    with "3.prems"(2) True "3.IH" show ?thesis by (auto simp: jsonElement.simps and_then_Inl)
  next
    case False
    with "3.prems"(2) show ?thesis
      by (auto simp: jsonElement.simps split: if_splits dest: not_structural_leaf(1) not_structural_scalar)
  qed
qed

section \<open>Rows a plan makes fit its schema\<close>

lemma plan_field:
  assumes "plan_ok p" and "f \<in> set (rp_fields p)"
  shows "index_by fs_Name (plan_schema p) (fp_name f) = Some (field_schema f)"
proof -
  have "distinct (map fs_Name (plan_schema p))"
    using assms(1) by (simp add: plan_ok_iff plan_schema_eq columnNames_def o_def)
  moreover have "field_schema f \<in> set (plan_schema p)" using assms(2) by (simp add: plan_schema_eq)
  ultimately show ?thesis using index_by_distinct[of fs_Name "plan_schema p" "field_schema f"] by simp
qed

lemma value_fits_nil [simp]: "value_fits BNil f" "element_fits BNil f"
  by (simp_all add: value_fits.simps element_fits.simps)

lemma element_fits_scalar: "fs_Type f \<noteq> RecordFieldType \<Longrightarrow> element_fits v f"
  by (simp add: element_fits.simps)

lemma field_schema_nested: "fp_nested f = Some p \<Longrightarrow> fs_Schema (field_schema f) = plan_schema p"
  by simp

definition conforms :: "Schema \<Rightarrow> fieldPlan \<Rightarrow> bqval \<Rightarrow> bool" where
  "conforms s f val \<longleftrightarrow> index_by fs_Name s (fp_name f) = Some (field_schema f) \<and> value_fits val (field_schema f)"

lemma row_fits_append: "row_fits (row @ row') s \<longleftrightarrow> row_fits row s \<and> row_fits row' s"
  by (auto simp: row_fits.simps[of _ s])

lemma row_fits_put:
  assumes "row_fits row s" and "conforms s f val" and "fp_name f \<notin> fst ` set row"
  shows "row_fits (map_put (fp_name f) val row) s"
  using assms by (simp add: map_put_new row_fits_append) (simp add: row_fits.simps conforms_def)

lemma made_rows_fit:
  "marshalRow G p rv = Inr row \<Longrightarrow> plan_ok p \<Longrightarrow> row_fits row (plan_schema p)"
  "marshal_fields G fs v row0 = Inr row \<Longrightarrow> (\<And>f. f \<in> set fs \<Longrightarrow> column_ok f \<and> index_by fs_Name s (fp_name f) = Some (field_schema f))
     \<Longrightarrow> distinct (map fp_name fs) \<Longrightarrow> fst ` set row0 \<inter> set (map fp_name fs) = {} \<Longrightarrow> row_fits row0 s \<Longrightarrow> row_fits row s"
  "marshalValue G f rv = Inr val \<Longrightarrow> column_ok f \<Longrightarrow> value_fits val (field_schema f)"
  "marshalRepeated G f rv = Inr val \<Longrightarrow> column_ok f \<Longrightarrow> fp_repeated f \<Longrightarrow> value_fits val (field_schema f)"
  "marshalScalar G f rv = Inr val \<Longrightarrow> column_ok f \<Longrightarrow> element_fits val (field_schema f)"
proof (induction G p rv and G fs v row0 and G f rv and G f rv and G f rv arbitrary: row and row s and val and val and val
    rule: marshalRow_marshal_fields_marshalValue_marshalRepeated_marshalScalar.induct)
  case (1 G p rv)
  then obtain v where v: "derefValue (snd rv) = Some v" "marshal_fields G (rp_fields p) v [] = Inr row"
    by (auto simp: marshalRow.simps[of G p rv] split: option.splits)
  from "1.prems"(2) have "distinct (map fp_name (rp_fields p))" "\<forall>f\<in>set (rp_fields p). column_ok f"
    by (simp_all add: plan_ok_iff columnNames_def)
  with "1.IH"[OF v(1) v(2), of "plan_schema p"] "1.prems"(2) plan_field show ?case
    by (simp add: row_fits.simps[of "[]"])
next
  case (2 G v row)
  then show ?case by simp
next
  case (3 G f fs v row0)
  have f: "column_ok f" "index_by fs_Name s (fp_name f) = Some (field_schema f)" using "3.prems"(2) by simp_all
  have new: "fp_name f \<notin> fst ` set row0" using "3.prems"(4) by simp
  have disjoint: "fst ` set (map_put (fp_name f) x row0) \<inter> set (map fp_name fs) = {}" for x
    using "3.prems"(3,4) by (simp add: map_put_new[OF new])
  show ?case
  proof (cases "fieldByIndexErr (ge_types G) v (fp_index f)")
    case None
    have "row_fits (map_put (fp_name f) BNil row0) s"
      using "3.prems"(5) f(2) new by (intro row_fits_put) (simp_all add: conforms_def)
    with "3.IH"(1)[OF None _ _ _ disjoint] "3.prems" None show ?thesis by simp
  next
    case (Some fv)
    let ?rv = "(field_unexported (ge_types G) (type_of v) (fp_index f), fv)"
    from "3.prems"(1) Some obtain x where x: "marshalValue G f ?rv = Inr x"
      and rest: "marshal_fields G fs v (map_put (fp_name f) x row0) = Inr row"
      by (auto simp: and_then_Inr map_error_Inr)
    have "row_fits (map_put (fp_name f) x row0) s"
      using "3.prems"(5) f new "3.IH"(2)[OF Some x f(1)] by (intro row_fits_put) (simp_all add: conforms_def)
    with "3.IH"(3)[OF Some _ rest _ _ disjoint] "3.prems" x show ?thesis by (simp add: map_error_Inr)
  qed
next
  case (4 G f rv)
  from "4.prems"(1) obtain null where null: "null_before G f rv = Inr null"
    and rest: "(if null then Inr BNil else if fp_repeated f then marshalRepeated G f rv else marshalScalar G f rv) = Inr val"
    by (auto simp: marshalValue.simps and_then_Inr)
  show ?case
  proof (cases "null \<or> fp_repeated f")
    case True
    with rest "4.IH"(1)[OF null _ _ _ "4.prems"(2)] show ?thesis by (auto split: if_splits)
  next
    case False
    with rest have "element_fits val (field_schema f)"
      using "4.IH"(2)[OF null _ _ _ "4.prems"(2)] by simp
    with False show ?thesis by (simp add: value_fits.simps)
  qed
next
  case (5 G f rv)
  show ?case
  proof (cases "derefValue (snd rv)")
    case None
    with "5.prems"(1) show ?thesis by (simp add: marshalRepeated.simps)
  next
    case (Some v)
    with "5.prems"(1) obtain xs where xs: "sequence_elements v = Some xs"
      by (auto simp: marshalRepeated.simps reflect_panic_def split: option.splits)
    with "5.prems"(1) Some obtain vals where vals: "length vals = length xs" "val = BList vals"
      "\<forall>i<length xs. marshalScalar G f (fst rv, xs ! i) = Inr (vals ! i)"
      by (auto simp: marshalRepeated.simps and_then_Inr traverse_indexed_Inr map_error_Inr)
    have "element_fits (vals ! i) (field_schema f)" if "i < length xs" for i
      using "5.IH"[OF Some xs nth_mem[OF that] _ "5.prems"(2)] vals(3) that by simp
    then have "\<forall>w\<in>set vals. element_fits w (field_schema f)"
      using vals(1) by (auto simp: in_set_conv_nth)
    with "5.prems"(3) vals(2) show ?thesis by (simp add: value_fits.simps)
  qed
next
  case (6 G f rv)
  note kinds = column_okD[OF "6.prems"(2)]
  show ?case
  proof (cases "fp_nested f")
    case None
    with kinds(1) show ?thesis by (intro element_fits_scalar) simp
  next
    case (Some p)
    note none = kinds(3)[OF Some]
    show ?thesis
    proof (cases "nil_pointer (snd rv)")
      case True
      with "6.prems"(1) none show ?thesis by (simp add: marshalScalar.simps)
    next
      case False
      with "6.prems"(1) none Some obtain row where row: "marshalRow G p rv = Inr row" "val = BMap row"
        by (auto simp: marshalScalar.simps and_then_Inr)
      have "row_fits row (plan_schema p)"
        by (rule "6.IH"[OF none False Some row(1) kinds(4)[OF Some]])
      with row(2) Some show ?thesis by (simp add: element_fits.simps)
    qed
  qed
qed

text \<open>
  C23: a row made by a struct's plan can be rendered by the schema the plan declares: whatever
  stops the rendering, in either dialect, it is no column the schema lacks and no value where a
  list or a RECORD's map should stand.
\<close>

theorem rendering_a_row_is_never_structural:
  assumes "buildRowPlan n (ge_types G) ms t = Some (Inr p)" and "marshalRow G p rv = Inr row"
    and "jsonObject L dialect row (plan_schema p) = Inl e"
  shows "\<not> structural e"
proof -
  have "plan_ok p" using assms(1) built_plan_ok by (auto simp: buildRowPlan_Inr)
  with assms(2) have "row_fits row (plan_schema p)" by (rule made_rows_fit(1))
  with assms(3) fitting_renders(1) show ?thesis by blast
qed

section \<open>Concrete rows\<close>

definition log_env :: go_env where
  "log_env = \<lparr>ge_types = log_types, ge_civil = plain_civil, ge_MarshalBigQueryValue = (\<lambda>v. Inl (EOther [])),
     ge_IsZero = (\<lambda>v. False), ge_Encode = (\<lambda>v. Inl (EOther []))\<rparr>"

definition log_value :: goval where
  "log_value = GStruct (Ty 20) [GTime \<lparr>gt_nanos = 5, gt_offset = 0\<rparr>, GString (Ty 10) ''ann'',
     GSlice (Ty 11) (Some [GString (Ty 10) ''a'', GString (Ty 10) ''b'']),
     GPtr (Ptr (Ty 21)) (Some (GStruct (Ty 21) [GString (Ty 10) ''x'', GInt (Ty 12) 7]))]"

definition log_row :: row_values where
  "log_row = [(''at'', BTime \<lparr>gt_nanos = 5, gt_offset = 0\<rparr>), (''User'', BString ''ann''),
     (''Tags'', BList [BString ''a'', BString ''b'']), (''Request'', BMap [(''Path'', BString ''x''), (''Size'', BInt 7)])]"

lemmas row_simps = marshalRow.simps marshalValue.simps marshalRepeated.simps marshalScalar.simps null_before_def
  nth_value_def field_unexported_def path_field_def nth_field_def wellKnownType_def wellKnownValue_def Interface_def
  scalarValue_def map_put_def traverse_indexed_def

lemma log_row_made: "marshalRow log_env log_plan (False, log_value) = Inr log_row"
  by (simp add: row_simps log_env_def log_value_def log_row_def log_plan_def type_simps log_fields_def tagged_field_def
      plain_field_def)

theorem row_has_the_schema_columns_witness:
  "map fst log_row = namesOf (plan_schema log_plan)"
proof (rule row_has_the_schema_columns[OF _ log_row_made])
  show "buildRowPlan 2 (ge_types log_env) None (Ptr (Ty 20)) = Some (Inr log_plan)"
    using log_plan_built[of 0] by (simp add: log_env_def numeral_2_eq_2)
qed

text \<open>A required column behind a nil pointer.\<close>

definition note_types :: types where
  "note_types n =
     (if n = 20 then plain_info KStruct [tagged_field ''Text'' (Ptr (Ty 10)) [(''bqsink'', ''text,required'')]]
      else plain_info KString [])"

definition note_plan :: rowPlan where
  "note_plan = RowPlan (Ty 20) [FieldPlan ''text'' [0] True False False [] StringFieldType None None] None None False [] []"

lemma note_tag: "parseFieldTags [(''bqsink'', ''text,required'')] = Inr (empty_tag\<lparr>tag_name := ''text'', tag_required := True\<rparr>)"
  by (simp add: tag_simps)

lemma note_candidates:
  "collectFields note_types (Ty 20) = Some (Inr
     [candidate_of (tagged_field ''Text'' (Ptr (Ty 10)) [(''bqsink'', ''text,required'')])
        (empty_tag\<lparr>tag_name := ''text'', tag_required := True\<rparr>) [] 0])"
  by (simp add: collectFields_def collect_levels.simps walk_simps note_types_def tagged_field_def note_tag
      resolveCollisions_def kept_field_def winnerFor_def empty_tag_def)

lemma note_plan_built: "buildRowPlan 1 note_types None (Ty 20) = Some (Inr note_plan)"
  by (simp add: buildRowPlan_def marshalers_err_def struct_plan_def note_candidates plan_simps walk_simps note_types_def
      named_types empty_tag_def tagged_field_def note_plan_def)

theorem rendering_a_row_is_never_structural_witness:
  "\<exists>e. jsonObject plain_json loadJobDialect [(''text'', BNil)] (plan_schema note_plan) = Inl e \<and> \<not> structural e"
proof (intro exI conjI)
  show e: "jsonObject plain_json loadJobDialect [(''text'', BNil)] (plan_schema note_plan)
      = Inl (EWrap (MarshalSite (InColumn ''text'')) (EMsg (EncodeSite RequiredColumnNull)))"
    by (simp add: note_plan_def jsonObject.simps jsonValue.simps index_by_def)
  have "marshalRow (log_env\<lparr>ge_types := note_types\<rparr>) note_plan
      (False, GStruct (Ty 20) [GPtr (Ptr (Ty 10)) None]) = Inr [(''text'', BNil)]"
    by (simp add: note_plan_def row_simps)
  from rendering_a_row_is_never_structural[OF _ this e] note_plan_built
  show "\<not> structural (EWrap (MarshalSite (InColumn ''text'')) (EMsg (EncodeSite RequiredColumnNull)))"
    by (simp add: log_env_def)
qed

end
