(* ===== verification/MapPlan.thy ===== *)
theory MapPlan
  imports RowRendering "HOL-Library.Word"
begin

text \<open>
  maprow.go: rows given as \<open>map[string]any\<close>, converted by a schema known only at run time.
  What a column accepts is decided by its type, against the dynamic type of the value the map
  holds.
\<close>

section \<open>Plans\<close>

text \<open>
  The two maps of a \<open>mapPlan\<close> are association lists, their keys the columns' names.
\<close>

datatype mapPlan = MapPlan
  (mp_schema: Schema)
  (mp_byName: "(string \<times> FieldSchema) list")
  (mp_nested: "(string \<times> mapPlan) list")
  (mp_marshalers: "Marshalers option")

text \<open>\<open>buildMapPlanFor\<close>, and the loop it runs over the columns.\<close>

fun buildMapPlanFor :: "Schema \<Rightarrow> Marshalers option \<Rightarrow> gerr + mapPlan"
  and index_columns :: "Schema \<Rightarrow> Marshalers option \<Rightarrow> (string \<times> FieldSchema) list \<Rightarrow> (string \<times> mapPlan) list
      \<Rightarrow> gerr + (string \<times> FieldSchema) list \<times> (string \<times> mapPlan) list" where
  "buildMapPlanFor schema marshalers =
     and_then (index_columns schema marshalers [] [])
       (\<lambda>(byName, nested). Inr (MapPlan schema byName nested marshalers))"
| "index_columns [] marshalers byName nested = Inr (byName, nested)"
| "index_columns (f # fs) marshalers byName nested =
     (let byName' = map_put (fs_Name f) f byName
      in if fs_Type f \<noteq> RecordFieldType then index_columns fs marshalers byName' nested
         else and_then (map_error (EWrap (MarshalSite (InColumn (fs_Name f)))) (buildMapPlanFor (fs_Schema f) marshalers))
           (\<lambda>n. index_columns fs marshalers byName' (map_put (fs_Name f) n nested)))"

definition buildMapPlan :: "Schema \<Rightarrow> Marshalers option \<Rightarrow> gerr + mapPlan" where
  "buildMapPlan schema marshalers = guarded (marshalers_err marshalers) (buildMapPlanFor schema marshalers)"

section \<open>Nil values\<close>

text \<open>\<open>IsNil\<close>, which panics for a kind that has no nil.\<close>

fun IsNil :: "types \<Rightarrow> goval \<Rightarrow> gerr + bool" where
  "IsNil u (GMap t m) = Inr (m = None)"
| "IsNil u (GSlice t xs) = Inr (xs = None)"
| "IsNil u (GBytes t b) = Inr (b = None)"
| "IsNil u (GPtr t v) = Inr (v = None)"
| "IsNil u (GIface t v) = Inr (v = None)"
| "IsNil u (GOther t nil) = (if kind_of u t \<in> {KChan, KFunc, KUnsafePointer} then Inr nil else reflect_panic)"
| "IsNil u v = reflect_panic"

text \<open>\<open>isNilAny\<close>: what an \<open>any\<close> holds is followed through every pointer.\<close>

fun nil_behind :: "types \<Rightarrow> goval \<Rightarrow> bool" where
  "nil_behind u (GPtr t None) \<longleftrightarrow> True"
| "nil_behind u (GPtr t (Some v)) \<longleftrightarrow> nil_behind u v"
| "nil_behind u (GMap t m) \<longleftrightarrow> m = None"
| "nil_behind u (GSlice t xs) \<longleftrightarrow> xs = None"
| "nil_behind u (GBytes t b) \<longleftrightarrow> b = None"
| "nil_behind u (GIface t v) \<longleftrightarrow> v = None"
| "nil_behind u (GOther t nil) \<longleftrightarrow> kind_of u t \<in> {KChan, KFunc} \<and> nil"
| "nil_behind u v \<longleftrightarrow> False"

definition isNilAny :: "types \<Rightarrow> goval option \<Rightarrow> bool" where
  "isNilAny u value \<longleftrightarrow> (case value of None \<Rightarrow> True | Some v \<Rightarrow> nil_behind u v)"

section \<open>Integers\<close>

definition MaxInt64 :: nat where
  "MaxInt64 = 2 ^ 63 - 1"

text \<open>\<open>int64(v)\<close> of a \<open>uint64\<close> keeps the bits.\<close>

definition int64FromUint64 :: "64 word \<Rightarrow> gerr + bqval" where
  "int64FromUint64 v =
     (if unat v > MaxInt64 then Inl (EMsg (MarshalSite Uint64Overflow)) else Inr (BInt (sint v)))"

definition maxInt64Boundary :: rat where
  "maxInt64Boundary = 9223372036854775808"

text \<open>
  A finite number, \<open>math.Trunc\<close> of it, and \<open>int64(v)\<close>, which truncates and is held in 64
  bits. Negative zero is zero to every comparison.
\<close>

definition rat_trunc :: "rat \<Rightarrow> int" where
  "rat_trunc r = (if r < 0 then \<lceil>r\<rceil> else \<lfloor>r\<rfloor>)"

definition int64_of_rat :: "rat \<Rightarrow> 64 word" where
  "int64_of_rat r = word_of_int (rat_trunc r)"

definition int64FromFinite :: "rat \<Rightarrow> gerr + bqval" where
  "int64FromFinite r =
     (if r \<ge> maxInt64Boundary \<or> r < - maxInt64Boundary then Inl (EMsg (MarshalSite FloatOverflow))
      else if r \<noteq> of_int (rat_trunc r) then Inl (EMsg (MarshalSite FloatFraction))
      else Inr (BInt (sint (int64_of_rat r))))"

fun int64FromFloat :: "float64 \<Rightarrow> gerr + bqval" where
  "int64FromFloat FNaN = Inl (EMsg (MarshalSite NaNInteger))"
| "int64FromFloat (FInf neg) = Inl (EMsg (MarshalSite InfInteger))"
| "int64FromFloat FNegZero = int64FromFinite 0"
| "int64FromFloat (FFin r) = int64FromFinite r"

definition marshalInteger :: "types \<Rightarrow> goval \<Rightarrow> gerr + bqval" where
  "marshalInteger u value =
     (case value of
        GInt t i \<Rightarrow> Inr (BInt i)
      | GUint t i \<Rightarrow> if kind_of u t = KUintptr then Inl (EMsg (MarshalSite (ColumnNeeds ''INTEGER'' t)))
                      else int64FromUint64 (word_of_int i)
      | GFloat t f \<Rightarrow> int64FromFloat f
      | v \<Rightarrow> Inl (EMsg (MarshalSite (ColumnNeeds ''INTEGER'' (type_of v)))))"

section \<open>Rows\<close>

text \<open>
  The entries of a \<open>map[string]any\<close>, with what the \<open>any\<close> of each holds.
\<close>

fun key_text :: "goval \<Rightarrow> string" where
  "key_text (GString t s) = s"
| "key_text v = []"

type_synonym any_map = "(string \<times> goval option) list"

definition any_entries :: "(goval \<times> goval) list \<Rightarrow> any_map" where
  "any_entries m = map (\<lambda>(k, v). (key_text k, unbox v)) m"

text \<open>The assertion \<open>value.(map[string]any)\<close>, which a nil map passes with no entries.\<close>

fun as_any_map :: "goval \<Rightarrow> any_map option" where
  "as_any_map (GMap t m) = (if t = typeMapStringAny then Some (case m of None \<Rightarrow> [] | Some es \<Rightarrow> any_entries es) else None)"
| "as_any_map v = None"

fun as_any_slice :: "goval \<Rightarrow> goval option list option" where
  "as_any_slice (GSlice t xs) = (if t = typeAnySlice then Some (case xs of None \<Rightarrow> [] | Some vs \<Rightarrow> map unbox vs) else None)"
| "as_any_slice v = None"

definition needs :: "string \<Rightarrow> goval \<Rightarrow> gerr + bqval" where
  "needs column v = Inl (EMsg (MarshalSite (ColumnNeeds column (type_of v))))"

text \<open>The part of \<open>marshalAccepted\<close> below the RECORD columns.\<close>

definition accepted_rat :: "FieldType \<Rightarrow> goval \<Rightarrow> gerr + bqval" where
  "accepted_rat ft value =
     (case value of
        GPtr t r \<Rightarrow>
          if t = Ptr typeRat then Inr (BRatPtr (case r of Some (GRat q) \<Rightarrow> Some q | _ \<Rightarrow> None))
          else needs (FieldType_text ft) value
      | v \<Rightarrow> needs (FieldType_text ft) v)"

definition accepted_scalar :: "types \<Rightarrow> FieldType \<Rightarrow> goval \<Rightarrow> gerr + bqval" where
  "accepted_scalar u ft value =
     (case ft of
        StringFieldType \<Rightarrow> (case value of GString t s \<Rightarrow> Inr (BString s) | v \<Rightarrow> needs (FieldType_text ft) v)
      | GeographyFieldType \<Rightarrow> (case value of GString t s \<Rightarrow> Inr (BString s) | v \<Rightarrow> needs (FieldType_text ft) v)
      | IntegerFieldType \<Rightarrow> marshalInteger u value
      | FloatFieldType \<Rightarrow> (case value of GFloat t f \<Rightarrow> Inr (BFloat f) | v \<Rightarrow> needs ''FLOAT'' v)
      | NumericFieldType \<Rightarrow> accepted_rat ft value
      | BigNumericFieldType \<Rightarrow> accepted_rat ft value
      | BooleanFieldType \<Rightarrow> (case value of GBool t b \<Rightarrow> Inr (BBool b) | v \<Rightarrow> needs ''BOOLEAN'' v)
      | TimestampFieldType \<Rightarrow> (case value of GTime t \<Rightarrow> Inr (BTime t) | v \<Rightarrow> needs ''TIMESTAMP'' v)
      | DateFieldType \<Rightarrow> (case value of GDate d \<Rightarrow> Inr (BDate d) | v \<Rightarrow> needs ''DATE'' v)
      | TimeFieldType \<Rightarrow> (case value of GCivilTime t \<Rightarrow> Inr (BCivilTime t) | v \<Rightarrow> needs ''TIME'' v)
      | DateTimeFieldType \<Rightarrow> (case value of GDateTime d \<Rightarrow> Inr (BDateTime d) | v \<Rightarrow> needs ''DATETIME'' v)
      | BytesFieldType \<Rightarrow> (case value of GBytes t b \<Rightarrow> Inr (BBytes b) | v \<Rightarrow> needs ''BYTES'' v)
      | JSONFieldType \<Rightarrow>
          (case value of
             GBytes t b \<Rightarrow>
               if t = typeRawMessage then Inr (BRawMessage (case b of None \<Rightarrow> [] | Some text \<Rightarrow> text))
               else if t = typeByteSlice then Inr (BBytes b)
               else needs ''JSON'' value
           | GString t s \<Rightarrow> Inr (BString s)
           | v \<Rightarrow> needs ''JSON'' v)
      | _ \<Rightarrow> Inl (EMsg (MarshalSite (CannotWriteInto (type_of value) (FieldType_text ft)))))"

lemma size_nested_plan:
  assumes "map_of (mp_nested p) k = Some n"
  shows "size n < size p"
proof -
  have "(k, n) \<in> set (mp_nested p)" using assms by (rule map_of_SomeD)
  then have "size n \<le> size_list (size_prod (\<lambda>_. 0) size) (mp_nested p)"
    by (rule size_list_estimation') simp
  then show ?thesis by (cases p) simp
qed

text \<open>
  One value of a column: a registered marshaler, then the value's own, then the accepted types.
  The methods of \<open>mapPlan\<close> call one another down to the plan of a nested column.
\<close>

function marshalMap :: "go_env \<Rightarrow> mapPlan \<Rightarrow> any_map \<Rightarrow> gerr + row_values"
  and marshalField :: "go_env \<Rightarrow> mapPlan \<Rightarrow> FieldSchema \<Rightarrow> any_map \<Rightarrow> gerr + bqval"
  and mapPlan_marshalRepeated :: "go_env \<Rightarrow> mapPlan \<Rightarrow> FieldSchema \<Rightarrow> goval \<Rightarrow> gerr + bqval"
  and mapPlan_marshalScalar :: "go_env \<Rightarrow> mapPlan \<Rightarrow> FieldSchema \<Rightarrow> goval \<Rightarrow> gerr + bqval"
  and marshalAccepted :: "go_env \<Rightarrow> mapPlan \<Rightarrow> FieldSchema \<Rightarrow> goval \<Rightarrow> gerr + bqval"
  and marshalNestedRecord :: "go_env \<Rightarrow> mapPlan \<Rightarrow> FieldSchema \<Rightarrow> goval \<Rightarrow> gerr + bqval" where
  "marshalMap G p row =
     guarded (first_error (\<lambda>(key, _). if map_of (mp_byName p) key = None
                then Some (EMsg (MarshalSite (UndeclaredColumn key))) else None) row)
       (and_then (traverse (\<lambda>field.
            map_error (EWrap (MarshalSite (InColumn (fs_Name field))))
              (and_then (marshalField G p field row) (\<lambda>value. Inr (fs_Name field, value)))) (mp_schema p))
         (\<lambda>entries. Inr (foldl (\<lambda>out (name, value). map_put name value out) [] entries)))"
| "marshalField G p field row =
     (case map_of row (fs_Name field) of
        Some (Some value) \<Rightarrow>
          if isNilAny (ge_types G) (Some value)
          then (if fs_Required field then Inl (EMsg (MarshalSite RequiredNull)) else Inr BNil)
          else if fs_Repeated field then mapPlan_marshalRepeated G p field value
          else mapPlan_marshalScalar G p field value
      | _ \<Rightarrow> if fs_Required field then Inl (EMsg (MarshalSite RequiredNull)) else Inr BNil)"
| "mapPlan_marshalRepeated G p field value =
     (case as_any_slice value of
        None \<Rightarrow> Inl (EMsg (MarshalSite (RepeatedNeedsSlice (type_of value))))
      | Some elements \<Rightarrow>
          and_then (traverse_indexed (\<lambda>i element.
              case element of
                None \<Rightarrow> Inl (EMsg (MarshalSite (NullElement i)))
              | Some v \<Rightarrow>
                  if isNilAny (ge_types G) (Some v) then Inl (EMsg (MarshalSite (NullElement i)))
                  else map_error (EWrap (MarshalSite (InElement i))) (mapPlan_marshalScalar G p field v)) elements)
            (\<lambda>out. Inr (BList out)))"
| "mapPlan_marshalScalar G p field value =
     (case lookup_marshaler (mp_marshalers p) (type_of value) of
        Some m \<Rightarrow>
          if tm_fieldType m \<noteq> fs_Type field
          then Inl (EMsg (MarshalSite (RegisteredTypeMismatch (type_of value)
                 (FieldType_text (tm_fieldType m)) (FieldType_text (fs_Type field)))))
          else marshalRegistered m (False, value)
      | None \<Rightarrow>
          (case fieldMarshalerOf (ge_types G) (type_of value) of
             Some ft \<Rightarrow>
               if ft \<noteq> fs_Type field
               then Inl (EMsg (MarshalSite (FieldMarshalerMismatch (type_of value)
                      (FieldType_text ft) (FieldType_text (fs_Type field)))))
               else marshalViaFieldMarshaler G (False, value)
           | None \<Rightarrow> marshalAccepted G p field value))"
| "marshalAccepted G p field value =
     (if fs_Type field = RecordFieldType then marshalNestedRecord G p field value
      else accepted_scalar (ge_types G) (fs_Type field) value)"
| "marshalNestedRecord G p field value =
     (case as_any_map value of
        None \<Rightarrow> Inl (EMsg (MarshalSite (RecordNeedsMap (type_of value))))
      | Some m \<Rightarrow>
          (case map_of (mp_nested p) (fs_Name field) of
             None \<Rightarrow> Inl (EMsg (MarshalSite (RecordWithoutPlan (fs_Name field))))
           | Some nested \<Rightarrow> and_then (marshalMap G nested m) (\<lambda>out. Inr (BMap out))))"
  by pat_completeness auto

termination
  by (relation "measures [
      (\<lambda>x. case x of Inl (Inl (G, p, _)) \<Rightarrow> size p | Inl (Inr (Inl (G, p, _))) \<Rightarrow> size p
         | Inl (Inr (Inr (G, p, _))) \<Rightarrow> size p | Inr (Inl (G, p, _)) \<Rightarrow> size p
         | Inr (Inr (Inl (G, p, _))) \<Rightarrow> size p | Inr (Inr (Inr (G, p, _))) \<Rightarrow> size p),
      (\<lambda>x. case x of Inl (Inl _) \<Rightarrow> 5 | Inl (Inr (Inl _)) \<Rightarrow> 4 | Inl (Inr (Inr _)) \<Rightarrow> 3
         | Inr (Inl _) \<Rightarrow> 2 | Inr (Inr (Inl _)) \<Rightarrow> 1 | Inr (Inr (Inr _)) \<Rightarrow> (0 :: nat))]")
    (auto dest: size_nested_plan)

declare marshalMap.simps [simp del] marshalField.simps [simp del] mapPlan_marshalRepeated.simps [simp del]
  mapPlan_marshalScalar.simps [simp del] marshalAccepted.simps [simp del] marshalNestedRecord.simps [simp del]

text \<open>\<open>(*mapPlan).marshalRow\<close>: an interface behind a pointer passes the assertion as well.\<close>

definition mapPlan_marshalRow :: "go_env \<Rightarrow> mapPlan \<Rightarrow> rvalue \<Rightarrow> gerr + row_values" where
  "mapPlan_marshalRow G p rv =
     (case derefValue (snd rv) of
        None \<Rightarrow> Inl (EMsg (MarshalSite NilMapRow))
      | Some v \<Rightarrow>
          and_then (IsNil (ge_types G) v) (\<lambda>nil.
            if nil then Inl (EMsg (MarshalSite NilMapRow))
            else and_then (Interface (fst rv, v)) (\<lambda>held.
              case held of
                None \<Rightarrow> Inl (EMsg (MarshalSite (NotAMapRow (type_of v))))
              | Some w \<Rightarrow>
                  (case as_any_map w of
                     None \<Rightarrow> Inl (EMsg (MarshalSite (NotAMapRow (type_of v))))
                   | Some row \<Rightarrow> marshalMap G p row))))"

section \<open>What a plan knows\<close>

text \<open>A plan built for a schema: its indexes are the schema's, at every depth.\<close>

fun plan_of :: "Schema \<Rightarrow> mapPlan \<Rightarrow> bool" where
  "plan_of s (MapPlan s' byName nested ms) \<longleftrightarrow>
     s' = s \<and> (\<forall>k. map_of byName k \<noteq> None \<longleftrightarrow> k \<in> fs_Name ` set s)
     \<and> (\<forall>f\<in>set s. fs_Type f = RecordFieldType \<longrightarrow>
          (\<exists>n. map_of nested (fs_Name f) = Some n \<and> mp_marshalers n = ms \<and> plan_of (fs_Schema f) n))"

lemma plans_are_built:
  "\<exists>p. buildMapPlanFor s ms = Inr p \<and> mp_marshalers p = ms \<and> (wf_schema s \<longrightarrow> plan_of s p)"
  "\<exists>byName' nested'. index_columns fs ms byName nested = Inr (byName', nested')
    \<and> (\<forall>k. map_of byName' k \<noteq> None \<longleftrightarrow> map_of byName k \<noteq> None \<or> k \<in> fs_Name ` set fs)
    \<and> (\<forall>k. k \<notin> fs_Name ` set fs \<longrightarrow> map_of nested' k = map_of nested k)
    \<and> (wf_schema fs \<longrightarrow> (\<forall>f\<in>set fs. fs_Type f = RecordFieldType \<longrightarrow>
          (\<exists>n. map_of nested' (fs_Name f) = Some n \<and> mp_marshalers n = ms \<and> plan_of (fs_Schema f) n)))"
proof (induction s ms and fs ms byName nested rule: buildMapPlanFor_index_columns.induct)
  case (1 schema marshalers)
  then show ?case by auto
next
  case (2 marshalers byName nested)
  then show ?case by simp
next
  case (3 f fs marshalers byName nested)
  show ?case
  proof (cases "fs_Type f = RecordFieldType")
    case False
    with "3.IH"(1)[OF refl] obtain b' n' where b': "index_columns fs marshalers (map_put (fs_Name f) f byName) nested = Inr (b', n')"
      "\<forall>k. map_of b' k \<noteq> None \<longleftrightarrow> map_of (map_put (fs_Name f) f byName) k \<noteq> None \<or> k \<in> fs_Name ` set fs"
      "\<forall>k. k \<notin> fs_Name ` set fs \<longrightarrow> map_of n' k = map_of nested k"
      "wf_schema fs \<longrightarrow> (\<forall>f\<in>set fs. fs_Type f = RecordFieldType \<longrightarrow>
          (\<exists>n. map_of n' (fs_Name f) = Some n \<and> mp_marshalers n = marshalers \<and> plan_of (fs_Schema f) n))"
      by blast
    with False show ?thesis by (auto simp: map_put_of)
  next
    case True
    then obtain n where n: "buildMapPlanFor (fs_Schema f) marshalers = Inr n" "mp_marshalers n = marshalers"
      "wf_schema (fs_Schema f) \<longrightarrow> plan_of (fs_Schema f) n"
      using "3.IH"(2)[OF refl] by auto
    from "3.IH"(3)[OF refl, of n] True n(1) obtain b' n' where b':
      "index_columns fs marshalers (map_put (fs_Name f) f byName) (map_put (fs_Name f) n nested) = Inr (b', n')"
      "\<forall>k. map_of b' k \<noteq> None \<longleftrightarrow> map_of (map_put (fs_Name f) f byName) k \<noteq> None \<or> k \<in> fs_Name ` set fs"
      "\<forall>k. k \<notin> fs_Name ` set fs \<longrightarrow> map_of n' k = map_of (map_put (fs_Name f) n nested) k"
      "wf_schema fs \<longrightarrow> (\<forall>f\<in>set fs. fs_Type f = RecordFieldType \<longrightarrow>
          (\<exists>n. map_of n' (fs_Name f) = Some n \<and> mp_marshalers n = marshalers \<and> plan_of (fs_Schema f) n))"
      by (simp add: result_simps) blast
    with True n show ?thesis by (auto simp: map_put_of)
  qed
qed

section \<open>Rows of a schema\<close>

text \<open>What a column of each type but RECORD holds.\<close>

fun scalar_declared :: "FieldType \<Rightarrow> bqval \<Rightarrow> bool" where
  "scalar_declared ft (BString s) \<longleftrightarrow> ft \<in> {StringFieldType, GeographyFieldType, JSONFieldType}"
| "scalar_declared ft (BInt i) \<longleftrightarrow> ft = IntegerFieldType"
| "scalar_declared ft (BFloat x) \<longleftrightarrow> ft = FloatFieldType"
| "scalar_declared ft (BRatPtr r) \<longleftrightarrow> ft \<in> {NumericFieldType, BigNumericFieldType}"
| "scalar_declared ft (BBool b) \<longleftrightarrow> ft = BooleanFieldType"
| "scalar_declared ft (BTime t) \<longleftrightarrow> ft = TimestampFieldType"
| "scalar_declared ft (BDate d) \<longleftrightarrow> ft = DateFieldType"
| "scalar_declared ft (BCivilTime t) \<longleftrightarrow> ft = TimeFieldType"
| "scalar_declared ft (BDateTime d) \<longleftrightarrow> ft = DateTimeFieldType"
| "scalar_declared ft (BBytes b) \<longleftrightarrow> ft \<in> {BytesFieldType, JSONFieldType}"
| "scalar_declared ft (BRawMessage s) \<longleftrightarrow> ft = JSONFieldType"
| "scalar_declared ft v \<longleftrightarrow> False"

text \<open>
  What the code a row brings along answers, about a value that is not nil, for a column of a type:
  the method of a type that declares itself that column, or a registered marshaler that does.
\<close>

definition marshaler_gives :: "go_env \<Rightarrow> Marshalers option \<Rightarrow> FieldType \<Rightarrow> bqval \<Rightarrow> bool" where
  "marshaler_gives G ms ft v \<longleftrightarrow>
     (\<exists>x. \<not> nil_behind (ge_types G) x
        \<and> (fieldMarshalerOf (ge_types G) (type_of x) = Some ft \<and> marshalViaFieldMarshaler G (False, x) = Inr v
           \<or> (\<exists>m. lookup_marshaler ms (type_of x) = Some m \<and> tm_fieldType m = ft \<and> marshalRegistered m (False, x) = Inr v)))"

text \<open>
  A row its schema describes, for the values \<open>gives ft\<close> taken on trust in a column of type \<open>ft\<close>:
  exactly its columns, in its order; no NULL where a column is REQUIRED and none inside a list; a
  list where a column is repeated and nowhere else; the map of a row in a RECORD column; and in any
  other column a value of its type.
\<close>

function row_declared :: "(FieldType \<Rightarrow> bqval \<Rightarrow> bool) \<Rightarrow> row_values \<Rightarrow> Schema \<Rightarrow> bool"
  and value_declared :: "(FieldType \<Rightarrow> bqval \<Rightarrow> bool) \<Rightarrow> bqval \<Rightarrow> FieldSchema \<Rightarrow> bool"
  and element_declared :: "(FieldType \<Rightarrow> bqval \<Rightarrow> bool) \<Rightarrow> bqval \<Rightarrow> FieldSchema \<Rightarrow> bool" where
  "row_declared gives row s \<longleftrightarrow> map fst row = namesOf s
     \<and> (\<forall>(n, v)\<in>set row. case index_by fs_Name s n of None \<Rightarrow> False | Some f \<Rightarrow> value_declared gives v f)"
| "value_declared gives v f \<longleftrightarrow>
     v = BNil \<and> \<not> fs_Required f
     \<or> (if fs_Repeated f then (case v of BList vs \<Rightarrow> \<forall>w\<in>set vs. element_declared gives w f | _ \<Rightarrow> False)
        else element_declared gives v f)"
| "element_declared gives v f \<longleftrightarrow>
     gives (fs_Type f) v
     \<or> (if fs_Type f = RecordFieldType then (case v of BMap m \<Rightarrow> row_declared gives m (fs_Schema f) | _ \<Rightarrow> False)
        else scalar_declared (fs_Type f) v)"
  by pat_completeness auto

termination
  by (relation "measure (\<lambda>x. case x of
      Inl (g, row, s) \<Rightarrow> 3 * size_list (size_prod (\<lambda>_. 0) size) row + 2
    | Inr (Inl (g, v, f)) \<Rightarrow> 3 * size v + 1
    | Inr (Inr (g, v, f)) \<Rightarrow> 3 * size v)") (auto dest: size_row_value size_element, (frule size_row_value, simp)?)

declare row_declared.simps [simp del] value_declared.simps [simp del] element_declared.simps [simp del]

lemma int64_value:
  "int64FromUint64 w = Inr x \<Longrightarrow> \<exists>i. x = BInt i" "int64FromFinite r = Inr x \<Longrightarrow> \<exists>i. x = BInt i"
  "int64FromFloat f = Inr x \<Longrightarrow> \<exists>i. x = BInt i"
  by (auto simp: int64FromUint64_def int64FromFinite_def split: if_splits elim!: int64FromFloat.elims)

lemma accepted_scalar_value: "accepted_scalar u ft v = Inr x \<Longrightarrow> scalar_declared ft x"
  by (cases v) (auto simp: accepted_scalar_def needs_def accepted_rat_def marshalInteger_def
      split: FieldType.splits if_splits dest!: int64_value)

lemma entries_put:
  "distinct (map fst entries) \<Longrightarrow> foldl (\<lambda>out (name, value). map_put name value out) [] entries = entries"
  using foldl_map_put[of entries "[]"] by simp

lemma marshalMap_Inr:
  assumes "marshalMap G p row = Inr out" and "distinct (map fs_Name (mp_schema p))"
  shows "list_all2 (\<lambda>f (n, v). n = fs_Name f \<and> marshalField G p f row = Inr v) (mp_schema p) out"
    and "map fst out = map fs_Name (mp_schema p)"
    and "\<And>k. k \<in> fst ` set row \<Longrightarrow> map_of (mp_byName p) k \<noteq> None"
proof -
  let ?column = "\<lambda>f. map_error (EWrap (MarshalSite (InColumn (fs_Name f))))
      (and_then (marshalField G p f row) (\<lambda>value. Inr (fs_Name f, value)))"
  from assms(1) obtain entries where made: "list_all2 (\<lambda>f e. ?column f = Inr e) (mp_schema p) entries"
    and out: "out = foldl (\<lambda>out (name, value). map_put name value out) [] entries"
    and keys: "\<forall>(k, v)\<in>set row. map_of (mp_byName p) k \<noteq> None"
    by (auto simp: marshalMap.simps[of G p row] result_simps case_prod_beta split: if_splits)
  from made have entries: "list_all2 (\<lambda>f (n, v). n = fs_Name f \<and> marshalField G p f row = Inr v) (mp_schema p) entries"
    by (rule list_all2_mono) (auto simp: result_simps)
  have names: "map fst entries = map fs_Name (mp_schema p)"
    using entries by (induction rule: list_all2_induct) auto
  with assms(2) out have "out = entries" by (simp add: entries_put)
  with entries names keys show "list_all2 (\<lambda>f (n, v). n = fs_Name f \<and> marshalField G p f row = Inr v) (mp_schema p) out"
    "map fst out = map fs_Name (mp_schema p)" "\<And>k. k \<in> fst ` set row \<Longrightarrow> map_of (mp_byName p) k \<noteq> None"
    by auto
qed

lemma plan_of_schema: "plan_of s p \<Longrightarrow> mp_schema p = s"
  by (cases p) simp

lemma plan_of_nested:
  assumes "plan_of s p" and "f \<in> set s" and "fs_Type f = RecordFieldType"
  obtains n where "map_of (mp_nested p) (fs_Name f) = Some n" "mp_marshalers n = mp_marshalers p" "plan_of (fs_Schema f) n"
  using assms by (cases p) auto

lemma repeated_Inr:
  assumes "mapPlan_marshalRepeated G p f x = Inr v"
  obtains xs out where "as_any_slice x = Some xs" "v = BList out" "length out = length xs"
    "\<And>i. i < length xs \<Longrightarrow> \<exists>y. xs ! i = Some y \<and> \<not> isNilAny (ge_types G) (Some y)
      \<and> mapPlan_marshalScalar G p f y = Inr (out ! i)"
proof (cases "as_any_slice x")
  case None
  with assms show ?thesis by (simp add: mapPlan_marshalRepeated.simps)
next
  case (Some xs)
  let ?element = "\<lambda>i element. case element of None \<Rightarrow> Inl (EMsg (MarshalSite (NullElement i)))
    | Some y \<Rightarrow> if isNilAny (ge_types G) (Some y) then Inl (EMsg (MarshalSite (NullElement i)))
        else map_error (EWrap (MarshalSite (InElement i))) (mapPlan_marshalScalar G p f y)"
  from assms Some obtain out where out: "traverse_indexed ?element xs = Inr out" "v = BList out"
    by (auto simp: mapPlan_marshalRepeated.simps and_then_Inr)
  then have made: "length out = length xs" "\<And>i. i < length xs \<Longrightarrow> ?element i (xs ! i) = Inr (out ! i)"
    by (auto simp: traverse_indexed_Inr)
  have "\<exists>y. xs ! i = Some y \<and> \<not> isNilAny (ge_types G) (Some y) \<and> mapPlan_marshalScalar G p f y = Inr (out ! i)"
    if "i < length xs" for i
    using made(2)[OF that] by (auto simp: map_error_Inr split: option.splits if_splits)
  with that Some out(2) made(1) show ?thesis by blast
qed

text \<open>The methods together: what they make is what the column declares.\<close>

lemma map_rows_declared:
  "marshalMap G p row = Inr out \<Longrightarrow> plan_of s p \<Longrightarrow> wf_schema s \<Longrightarrow> row_declared (marshaler_gives G (mp_marshalers p)) out s"
  "marshalField G p f row = Inr v \<Longrightarrow> plan_of s p \<Longrightarrow> wf_schema s \<Longrightarrow> f \<in> set s
     \<Longrightarrow> value_declared (marshaler_gives G (mp_marshalers p)) v f"
  "mapPlan_marshalRepeated G p f x = Inr v \<Longrightarrow> plan_of s p \<Longrightarrow> wf_schema s \<Longrightarrow> f \<in> set s
     \<Longrightarrow> fs_Repeated f \<Longrightarrow> value_declared (marshaler_gives G (mp_marshalers p)) v f"
  "mapPlan_marshalScalar G p f x = Inr v \<Longrightarrow> plan_of s p \<Longrightarrow> wf_schema s \<Longrightarrow> f \<in> set s
     \<Longrightarrow> \<not> nil_behind (ge_types G) x \<Longrightarrow> element_declared (marshaler_gives G (mp_marshalers p)) v f"
  "marshalAccepted G p f x = Inr v \<Longrightarrow> plan_of s p \<Longrightarrow> wf_schema s \<Longrightarrow> f \<in> set s
     \<Longrightarrow> element_declared (marshaler_gives G (mp_marshalers p)) v f"
  "marshalNestedRecord G p f x = Inr v \<Longrightarrow> plan_of s p \<Longrightarrow> wf_schema s \<Longrightarrow> f \<in> set s
     \<Longrightarrow> fs_Type f = RecordFieldType \<Longrightarrow> element_declared (marshaler_gives G (mp_marshalers p)) v f"
proof (induction G p row and G p f row and G p f x and G p f x and G p f x and G p f x
    arbitrary: out s and v s and v s and v s and v s and v s
    rule: marshalMap_marshalField_mapPlan_marshalRepeated_mapPlan_marshalScalar_marshalAccepted_marshalNestedRecord.induct)
  case (1 G p row)
  note schema = plan_of_schema[OF "1.prems"(2)]
  have distinct: "distinct (map fs_Name s)" using "1.prems"(3) by (simp add: wf_schema.simps[of s])
  with schema have "distinct (map fs_Name (mp_schema p))" by simp
  note made = marshalMap_Inr[OF "1.prems"(1) this]
  have "\<exists>f. index_by fs_Name s n = Some f \<and> value_declared (marshaler_gives G (mp_marshalers p)) v f"
    if nv: "(n, v) \<in> set out" for n v
  proof -
    obtain f where f: "f \<in> set (mp_schema p)" "n = fs_Name f" "marshalField G p f row = Inr v"
      using list_all2_right[OF made(1) nv] by auto
    have "value_declared (marshaler_gives G (mp_marshalers p)) v f"
      by (rule "1.IH"[OF f(1,3) "1.prems"(2,3)]) (use f(1) schema in simp)
    with f distinct schema index_by_distinct[of fs_Name s f] show ?thesis by auto
  qed
  then have "\<forall>(n, v)\<in>set out. case index_by fs_Name s n of None \<Rightarrow> False
      | Some f \<Rightarrow> value_declared (marshaler_gives G (mp_marshalers p)) v f"
    by fastforce
  with made(2) schema show ?case by (simp add: row_declared.simps[of _ out s] namesOf_def)
next
  case (2 G p field row)
  show ?case
  proof (cases "\<exists>x. map_of row (fs_Name field) = Some (Some x) \<and> \<not> isNilAny (ge_types G) (Some x)")
    case False
    with "2.prems"(1) show ?thesis
      by (auto simp: marshalField.simps value_declared.simps split: option.splits if_splits)
  next
    case True
    then obtain x where x: "map_of row (fs_Name field) = Some (Some x)" "\<not> isNilAny (ge_types G) (Some x)" by blast
    show ?thesis
    proof (cases "fs_Repeated field")
      case True
      with x "2.prems"(1) have "mapPlan_marshalRepeated G p field x = Inr v" by (simp add: marshalField.simps)
      from "2.IH"(1)[OF x(1) refl x(2) True this "2.prems"(2-4) True] show ?thesis .
    next
      case False
      with x "2.prems"(1) have scalar: "mapPlan_marshalScalar G p field x = Inr v" by (simp add: marshalField.simps)
      have "\<not> nil_behind (ge_types G) x" using x(2) by (simp add: isNilAny_def)
      with "2.IH"(2)[OF x(1) refl x(2) False scalar "2.prems"(2-4)] False show ?thesis by (simp add: value_declared.simps)
    qed
  qed
next
  case (3 G p field x)
  obtain xs out where xs: "as_any_slice x = Some xs" and v: "v = BList out" and len: "length out = length xs"
    and out: "\<And>i. i < length xs \<Longrightarrow> \<exists>y. xs ! i = Some y \<and> \<not> isNilAny (ge_types G) (Some y)
      \<and> mapPlan_marshalScalar G p field y = Inr (out ! i)"
    using repeated_Inr[OF "3.prems"(1)] by blast
  have "element_declared (marshaler_gives G (mp_marshalers p)) (out ! i) field" if i: "i < length xs" for i
  proof -
    from out[OF i] obtain y where x: "xs ! i = Some y" "\<not> isNilAny (ge_types G) (Some y)"
      "mapPlan_marshalScalar G p field y = Inr (out ! i)"
      by blast
    have "\<not> nil_behind (ge_types G) y" using x(2) by (simp add: isNilAny_def)
    from "3.IH"[OF xs nth_mem[OF i] x(1,2,3) "3.prems"(2-4) this] show ?thesis .
  qed
  with len v "3.prems"(5) show ?case by (auto simp: value_declared.simps in_set_conv_nth)
next
  case (4 G p field x)
  show ?case
  proof (cases "lookup_marshaler (mp_marshalers p) (type_of x)")
    case (Some m)
    with "4.prems"(1) have "tm_fieldType m = fs_Type field" "marshalRegistered m (False, x) = Inr v"
      by (auto simp: mapPlan_marshalScalar.simps split: if_splits)
    with Some "4.prems"(5) have "marshaler_gives G (mp_marshalers p) (fs_Type field) v" unfolding marshaler_gives_def by blast
    then show ?thesis by (simp add: element_declared.simps)
  next
    case unregistered: None
    show ?thesis
    proof (cases "fieldMarshalerOf (ge_types G) (type_of x)")
      case (Some ft)
      with unregistered "4.prems"(1) have "ft = fs_Type field" "marshalViaFieldMarshaler G (False, x) = Inr v"
        by (auto simp: mapPlan_marshalScalar.simps split: if_splits)
      with Some "4.prems"(5) have "marshaler_gives G (mp_marshalers p) (fs_Type field) v" unfolding marshaler_gives_def by blast
      then show ?thesis by (simp add: element_declared.simps)
    next
      case None
      with unregistered "4.prems"(1) have "marshalAccepted G p field x = Inr v"
        by (simp add: mapPlan_marshalScalar.simps)
      then show ?thesis by (rule "4.IH"[OF unregistered None _ "4.prems"(2-4)])
    qed
  qed
next
  case (5 G p field x)
  show ?case
  proof (cases "fs_Type field = RecordFieldType")
    case True
    with "5.IH"[OF True _ "5.prems"(2-4) True] "5.prems"(1) show ?thesis by (simp add: marshalAccepted.simps)
  next
    case False
    with "5.prems"(1) have "accepted_scalar (ge_types G) (fs_Type field) x = Inr v" by (simp add: marshalAccepted.simps)
    with False show ?thesis by (simp add: accepted_scalar_value element_declared.simps)
  qed
next
  case (6 G p field x)
  obtain n where n: "map_of (mp_nested p) (fs_Name field) = Some n" "mp_marshalers n = mp_marshalers p"
    "plan_of (fs_Schema field) n"
    using plan_of_nested[OF "6.prems"(2,4,5)] by blast
  from "6.prems"(1) n(1) obtain m out where m: "as_any_map x = Some m" "marshalMap G n m = Inr out" "v = BMap out"
    by (auto simp: marshalNestedRecord.simps and_then_Inr split: option.splits)
  have "row_declared (marshaler_gives G (mp_marshalers p)) out (fs_Schema field)"
    using "6.IH"[OF m(1) n(1) m(2) n(3)] "6.prems"(3,4) n(2) wf_schemaD(2) by auto
  with m(3) "6.prems"(5) show ?case by (simp add: element_declared.simps)
qed

lemma buildMapPlan_Inr:
  assumes "buildMapPlan s ms = Inr p" and "wf_schema s"
  shows "plan_of s p" and "mp_marshalers p = ms"
  using assms plans_are_built(1)[of s ms] by (auto simp: buildMapPlan_def guarded_Inr)

lemma mapPlan_marshalRow_Inr:
  assumes "mapPlan_marshalRow G p rv = Inr row"
  obtains v w m where "derefValue (snd rv) = Some v" "unbox v = Some w" "as_any_map w = Some m"
    "marshalMap G p m = Inr row"
  using assms by (auto simp: mapPlan_marshalRow_def and_then_Inr Interface_def reflect_panic_def
      split: option.splits if_splits prod.splits)


text \<open>An order with a nested customer and a list of quantities.\<close>

definition order_schema :: Schema where
  "order_schema =
     [FieldSchema ''id'' StringFieldType True False [] 0 [],
      FieldSchema ''customer'' RecordFieldType False False [] 0 [FieldSchema ''name'' StringFieldType True False [] 0 []],
      FieldSchema ''counts'' IntegerFieldType False True [] 0 []]"

definition order_row :: goval where
  "order_row = GMap typeMapStringAny (Some
     [(GString (Ty 10) ''counts'', GIface (Ty 13) (Some (GSlice typeAnySlice (Some
        [GIface (Ty 13) (Some (GInt (Ty 12) 3)), GIface (Ty 13) (Some (GFloat (Ty 14) (FFin 2)))])))),
      (GString (Ty 10) ''customer'', GIface (Ty 13) (Some (GMap typeMapStringAny (Some
        [(GString (Ty 10) ''name'', GIface (Ty 13) (Some (GString (Ty 10) ''ann'')))])))),
      (GString (Ty 10) ''id'', GIface (Ty 13) (Some (GString (Ty 10) ''o1'')))])"

definition order_plan :: mapPlan where
  "order_plan = MapPlan order_schema (map (\<lambda>f. (fs_Name f, f)) order_schema)
     [(''customer'', MapPlan (fs_Schema (order_schema ! 1)) [(''name'', fs_Schema (order_schema ! 1) ! 0)] [] None)] None"

definition order_values :: row_values where
  "order_values = [(''id'', BString ''o1''), (''customer'', BMap [(''name'', BString ''ann'')]), (''counts'', BList [BInt 3, BInt 2])]"

lemma order_plan_built: "buildMapPlan order_schema None = Inr order_plan"
  by (simp add: buildMapPlan_def marshalers_err_def order_schema_def order_plan_def map_put_def)

lemmas map_row_simps = mapPlan_marshalRow_def marshalMap.simps marshalField.simps mapPlan_marshalRepeated.simps
  mapPlan_marshalScalar.simps marshalAccepted.simps marshalNestedRecord.simps accepted_scalar_def marshalInteger_def
  isNilAny_def any_entries_def lookup_marshaler_def fieldMarshalerOf_def traverse_indexed_def Interface_def map_put_def

lemma order_row_made: "mapPlan_marshalRow log_env order_plan (False, order_row) = Inr order_values"
  by (simp add: map_row_simps order_plan_def order_row_def order_schema_def order_values_def type_simps log_env_def
      int64FromFinite_def maxInt64Boundary_def rat_trunc_def int64_of_rat_def)

text \<open>No marshaler has a say in the order, so nothing of it is taken on trust.\<close>

lemma no_marshaler_gives: "marshaler_gives log_env None = (\<lambda>ft v. False)"
proof -
  have "fieldMarshalerOf (ge_types log_env) t = None" for t
    by (simp add: fieldMarshalerOf_def log_env_def type_simps split: rtype.split)
  then show ?thesis by (simp add: marshaler_gives_def lookup_marshaler_def fun_eq_iff)
qed


text \<open>What the predicate refuses: a list, or a number, in a STRING column, and NULL in a REQUIRED one.\<close>

lemma not_declared:
  "\<not> value_declared (\<lambda>ft v. False) (BList []) (FieldSchema ''id'' StringFieldType r False d k s)"
  "\<not> value_declared (\<lambda>ft v. False) (BInt i) (FieldSchema ''id'' StringFieldType r False d k s)"
  "\<not> value_declared (\<lambda>ft v. False) BNil (FieldSchema ''id'' StringFieldType True False d k s)"
  by (simp_all add: value_declared.simps element_declared.simps)

section \<open>Integers are exact\<close>

text \<open>
  The number a value of an integer or float kind stands for; \<open>uintptr\<close> is no number. Go holds
  the integers of a kind in at most 64 bits.
\<close>

fun float_number :: "float64 \<Rightarrow> rat option" where
  "float_number FNaN = None"
| "float_number (FInf neg) = None"
| "float_number FNegZero = Some 0"
| "float_number (FFin r) = Some r"

fun number_of :: "types \<Rightarrow> goval \<Rightarrow> rat option" where
  "number_of u (GInt t i) = Some (of_int i)"
| "number_of u (GUint t i) = (if kind_of u t = KUintptr then None else Some (of_int i))"
| "number_of u (GFloat t f) = float_number f"
| "number_of u v = None"

fun in_64_bits :: "goval \<Rightarrow> bool" where
  "in_64_bits (GInt t i) \<longleftrightarrow> - (2 ^ 63) \<le> i \<and> i < 2 ^ 63"
| "in_64_bits (GUint t i) \<longleftrightarrow> 0 \<le> i \<and> i < 2 ^ 64"
| "in_64_bits v \<longleftrightarrow> True"

lemma sint_word_of_int: "- (2 ^ 63) \<le> i \<Longrightarrow> i < 2 ^ 63 \<Longrightarrow> sint (word_of_int i :: 64 word) = i"
  by (simp add: sint_sbintrunc' signed_take_bit_int_eq_self)

lemma rat_trunc_of_int [simp]: "rat_trunc (of_int i) = i"
  by (simp add: rat_trunc_def)

lemma int64FromUint64_iff:
  assumes "0 \<le> i" and "i < 2 ^ 64"
  shows "int64FromUint64 (word_of_int i) = Inr x \<longleftrightarrow> x = BInt i \<and> i < 2 ^ 63"
proof -
  have "unat (word_of_int i :: 64 word) = nat i"
    using assms by (simp add: unat_eq_nat_uint uint_word_of_int)
  moreover have "nat i > MaxInt64 \<longleftrightarrow> \<not> i < 2 ^ 63"
    using assms(1) by (auto simp: MaxInt64_def)
  ultimately show ?thesis
    using assms(1) sint_word_of_int[of i] by (auto simp: int64FromUint64_def)
qed

lemma int64FromFinite_iff:
  "int64FromFinite r = Inr x \<longleftrightarrow> (\<exists>i. x = BInt i \<and> r = of_int i \<and> - (2 ^ 63) \<le> i \<and> i < 2 ^ 63)"
proof (cases "\<exists>i. r = of_int i")
  case True
  then obtain i where r: "r = of_int i" ..
  have "r \<ge> maxInt64Boundary \<longleftrightarrow> 9223372036854775808 \<le> i" "r < - maxInt64Boundary \<longleftrightarrow> i < - 9223372036854775808"
    unfolding r maxInt64Boundary_def by linarith+
  with r sint_word_of_int[of i] show ?thesis
    by (auto simp: int64FromFinite_def int64_of_rat_def)
next
  case False
  then show ?thesis by (auto simp: int64FromFinite_def)
qed

text \<open>
  C27: an INTEGER column gets exactly the number the row holds, and refuses every number an
  INT64 cannot hold: a fraction, a number out of range, an infinity or NaN. No conversion wraps
  around or rounds.
\<close>

theorem marshalInteger_exact:
  assumes "in_64_bits v"
  shows "marshalInteger u v = Inr x \<longleftrightarrow>
    (\<exists>i. x = BInt i \<and> number_of u v = Some (of_int i) \<and> - (2 ^ 63) \<le> i \<and> i < 2 ^ 63)"
proof (cases v)
  case (GInt t i)
  with assms show ?thesis by (auto simp: marshalInteger_def)
next
  case (GUint t i)
  with assms show ?thesis by (auto simp: marshalInteger_def int64FromUint64_iff)
next
  case (GFloat t f)
  show ?thesis by (cases f) (auto simp: GFloat marshalInteger_def int64FromFinite_iff)
qed (simp_all add: marshalInteger_def)

theorem marshalInteger_exact_witness:
  "marshalInteger log_types (GFloat (Ty 12) (FFin 9223372036854775808)) \<noteq> Inr (BInt (- 9223372036854775808))"
  using marshalInteger_exact[of "GFloat (Ty 12) (FFin 9223372036854775808)" log_types "BInt (- 9223372036854775808)"]
  by simp

section \<open>Rendering\<close>

text \<open>The errors of rendering that are about one value and not about the row's structure.\<close>

fun value_error :: "gerr \<Rightarrow> bool" where
  "value_error (EWrap s e) \<longleftrightarrow> value_error e"
| "value_error (EMsg (EncodeSite JSONNeedsText)) \<longleftrightarrow> True"
| "value_error (EMsg (EncodeSite (JSONInvalid t))) \<longleftrightarrow> True"
| "value_error (EMsg (EncodeSite NilRat)) \<longleftrightarrow> True"
| "value_error e \<longleftrightarrow> False"

lemma value_error_leaf:
  "jsonColumnValue L d v = Inl e \<Longrightarrow> value_error e"
  "decimalString r f = Inl e \<Longrightarrow> value_error e"
  by (auto simp: jsonColumnValue_def decimalString_def split: option.splits if_splits)

lemma value_error_scalar: "json_scalar L d v f = Inl e \<Longrightarrow> value_error e"
  by (cases v) (auto simp: and_then_Inl dest: value_error_leaf(2))

text \<open>
  Where a marshaler's answer does not fit: somewhere in the row it answered NULL for a REQUIRED
  column, or it answered for a RECORD column, whose schema no marshaler knows.
\<close>

function row_misfit :: "(FieldType \<Rightarrow> bqval \<Rightarrow> bool) \<Rightarrow> row_values \<Rightarrow> Schema \<Rightarrow> bool"
  and value_misfit :: "(FieldType \<Rightarrow> bqval \<Rightarrow> bool) \<Rightarrow> bqval \<Rightarrow> FieldSchema \<Rightarrow> bool"
  and element_misfit :: "(FieldType \<Rightarrow> bqval \<Rightarrow> bool) \<Rightarrow> bqval \<Rightarrow> FieldSchema \<Rightarrow> bool" where
  "row_misfit gives row s \<longleftrightarrow>
     (\<exists>(n, v)\<in>set row. case index_by fs_Name s n of None \<Rightarrow> False | Some f \<Rightarrow> value_misfit gives v f)"
| "value_misfit gives v f \<longleftrightarrow>
     v = BNil \<and> fs_Required f \<and> gives (fs_Type f) v
     \<or> (if fs_Repeated f then (case v of BList vs \<Rightarrow> \<exists>w\<in>set vs. element_misfit gives w f | _ \<Rightarrow> False)
        else element_misfit gives v f)"
| "element_misfit gives v f \<longleftrightarrow>
     fs_Type f = RecordFieldType
     \<and> (gives RecordFieldType v \<or> (case v of BMap m \<Rightarrow> row_misfit gives m (fs_Schema f) | _ \<Rightarrow> False))"
  by pat_completeness auto

termination
  by (relation "measure (\<lambda>x. case x of
      Inl (g, row, s) \<Rightarrow> 3 * size_list (size_prod (\<lambda>_. 0) size) row + 2
    | Inr (Inl (g, v, f)) \<Rightarrow> 3 * size v + 1
    | Inr (Inr (g, v, f)) \<Rightarrow> 3 * size v)") (auto dest: size_row_value size_element, (frule size_row_value, simp)?)

declare row_misfit.simps [simp del] value_misfit.simps [simp del] element_misfit.simps [simp del]

lemma declared_renders:
  "row_declared gives row s \<Longrightarrow> jsonObject L d row s = Inl e \<Longrightarrow> value_error e \<or> row_misfit gives row s"
  "value_declared gives v f \<Longrightarrow> jsonValue L d v f = Inl e \<Longrightarrow> value_error e \<or> value_misfit gives v f"
  "element_declared gives v f \<Longrightarrow> jsonElement L d v f = Inl e \<Longrightarrow> value_error e \<or> element_misfit gives v f"
proof (induction L d row s and L d v f and L d v f arbitrary: e and e and e
    rule: jsonObject_jsonValue_jsonElement.induct)
  case (1 L d row s)
  let ?entry = "\<lambda>(name, value). case index_by fs_Name s name of
             None \<Rightarrow> Inl (EMsg (EncodeSite (NoSuchColumn name)))
           | Some field \<Rightarrow>
               map_error (EWrap (MarshalSite (InColumn name)))
                 (and_then (jsonValue L d value field) (\<lambda>rendered. Inr (name, rendered)))"
  have "traverse ?entry row = Inl e"
    using "1.prems"(2) by (simp add: jsonObject.simps[of L d row s] Let_def)
  then obtain n v where nv: "(n, v) \<in> set row" "?entry (n, v) = Inl e" by (auto dest!: traverse_error simp del: split_paired_Ex)
  from "1.prems"(1) nv(1) obtain f where f: "index_by fs_Name s n = Some f" "value_declared gives v f"
    by (auto simp: row_declared.simps[of _ row s] split: option.splits)
  with nv(2) obtain e' where e': "jsonValue L d v f = Inl e'" "e = EWrap (MarshalSite (InColumn n)) e'"
    by (auto simp: map_error_Inl and_then_Inl)
  from "1.IH"[OF refl nv(1) refl f(1) f(2) e'(1)] show ?case
  proof
    assume "value_misfit gives v f"
    with nv(1) f(1) show ?thesis by (auto simp: row_misfit.simps[of _ row s] intro!: bexI[of _ "(n, v)"])
  qed (simp add: e'(2))
next
  case (2 L d v f)
  show ?case
  proof (cases "fs_Repeated f \<and> v \<noteq> BNil")
    case True
    with "2.prems"(1) obtain vs where vs: "v = BList vs" "\<forall>w\<in>set vs. element_declared gives w f"
      by (cases v) (auto simp: value_declared.simps[of _ _ f])
    with "2.prems"(2) True have "traverse_indexed (\<lambda>i w. map_error (EWrap (MarshalSite (InElement i))) (jsonElement L d w f)) vs = Inl e"
      by (simp add: jsonValue.simps and_then_Inl)
    then obtain i e' where i: "i < length vs" "jsonElement L d (vs ! i) f = Inl e'" "e = EWrap (MarshalSite (InElement i)) e'"
      by (auto simp: map_error_Inl dest!: traverse_indexed_Inl)
    from True have "v \<noteq> BNil" "fs_Repeated f" by simp_all
    from "2.IH"(1)[OF this vs(1) nth_mem[OF i(1)] _ i(2)] vs(2) i(1)
    have "value_error e' \<or> element_misfit gives (vs ! i) f" by simp
    with i(1,3) True vs(1) show ?thesis by (auto simp: value_misfit.simps[of _ _ f])
  next
    case False
    show ?thesis
    proof (cases "v = BNil")
      case True
      with "2.prems" have "fs_Required f" "element_declared gives BNil f \<and> \<not> fs_Repeated f"
        by (auto simp: jsonValue.simps value_declared.simps[of _ _ f] split: if_splits)
      with True show ?thesis by (auto simp: value_misfit.simps element_declared.simps split: if_splits)
    next
      case nonnil: False
      with False have "\<not> fs_Repeated f" by simp
      with nonnil "2.prems" "2.IH"(2)[OF nonnil] show ?thesis
        by (simp add: jsonValue.simps value_declared.simps[of _ _ f] value_misfit.simps[of _ _ f])
    qed
  qed
next
  case (3 L d v f)
  show ?case
  proof (cases "v \<noteq> BNil \<and> fs_Type f = RecordFieldType")
    case True
    show ?thesis
    proof (cases "gives RecordFieldType v")
      case False
      with True "3.prems"(1) obtain m where m: "v = BMap m" "row_declared gives m (fs_Schema f)"
        by (cases v) (auto simp: element_declared.simps[of _ _ f])
      with "3.prems"(2) True have "jsonObject L d m (fs_Schema f) = Inl e" by (simp add: jsonElement.simps and_then_Inl)
      with "3.IH" True m show ?thesis by (auto simp: element_misfit.simps[of _ _ f])
    qed (use True in \<open>simp add: element_misfit.simps\<close>)
  next
    case False
    with "3.prems"(2) show ?thesis
      by (auto simp: jsonElement.simps split: if_splits dest: value_error_leaf(1) value_error_scalar)
  qed
qed

text \<open>Writing the tree as text fails only where the encoder refuses a value of the row.\<close>

lemma encode_any_Inl: "encode_any L x = Inl e \<Longrightarrow> \<exists>v. js_encode L v = Inl e"
proof (induction L x arbitrary: e rule: encode_any.induct)
  case (6 L xs)
  then have "traverse (encode_any L) xs = Inl e" by (simp add: and_then_Inl)
  then obtain x where "x \<in> set xs" "encode_any L x = Inl e" by (rule traverse_error[THEN bexE])
  with "6.IH" show ?case by blast
next
  case (7 L ms)
  let ?f = "\<lambda>(k, v). and_then (encode_any L v) (\<lambda>t. Inr (js_quote L k @ '':'' @ t))"
  from "7.prems" have "traverse ?f (sort_key fst ms) = Inl e" by (simp add: and_then_Inl)
  then obtain m where m: "m \<in> set (sort_key fst ms)" "?f m = Inl e" by (rule traverse_error[THEN bexE])
  obtain k v where kv: "m = (k, v)" by (cases m)
  with m have "(k, v) \<in> set ms" "encode_any L v = Inl e" by (simp_all add: and_then_Inl)
  with "7.IH"[of "(k, v)" k v] show ?case by auto
qed auto


text \<open>A JSON column given text that is none.\<close>

definition note_schema :: Schema where
  "note_schema = [FieldSchema ''body'' JSONFieldType True False [] 0 []]"


end
