(* ===== verification/RowTyping.thy ===== *)
theory RowTyping
  imports RowRendering
begin

text \<open>
  Type soundness of the conversions: on a value of the type a plan was built for, no conversion
  meets a value it cannot take; what stops a row comes from the caller's own code, or is a nil
  where a struct or a value was needed, or the panic of a column read from a field that is not
  exported.
\<close>

section \<open>Well-typed values\<close>

definition int_kinds :: "kind set" where
  "int_kinds = {KInt, KInt8, KInt16, KInt32, KInt64}"

definition uint_kinds :: "kind set" where
  "uint_kinds = {KUint, KUint8, KUint16, KUint32, KUint64}"

text \<open>
  What Go guarantees of the types: a numbered type is no pointer, the named ones are of their
  kinds, an embedded field is of a named type or a pointer to one.
\<close>

definition fields_ok :: "types \<Rightarrow> bool" where
  "fields_ok u \<longleftrightarrow> (\<forall>n. \<forall>sf\<in>set (ti_fields (u n)). sf_Anonymous sf \<longrightarrow>
     (\<exists>m. sf_Type sf = Ty m \<or> sf_Type sf = Ptr (Ty m)))"

definition universe_ok :: "types \<Rightarrow> bool" where
  "universe_ok u \<longleftrightarrow> (\<forall>n. ti_kind (u n) \<noteq> KPointer) \<and> fields_ok u
     \<and> (\<forall>t\<in>{typeTime, typeDate, typeCivilTime, typeDateTime, typeRat}. kind_of u t = KStruct)
     \<and> kind_of u typeRawMessage = KSlice \<and> isByteSequence u typeRawMessage
     \<and> (\<forall>sf\<in>set (fields_of u typeDate) \<union> set (fields_of u typeCivilTime). kind_of u (sf_Type sf) \<in> int_kinds)
     \<and> map sf_Type (fields_of u typeDateTime) = [typeDate, typeCivilTime]"

fun wt :: "types \<Rightarrow> goval \<Rightarrow> bool" where
  "wt u (GBool t b) \<longleftrightarrow> kind_of u t = KBool"
| "wt u (GInt t i) \<longleftrightarrow> kind_of u t \<in> int_kinds"
| "wt u (GUint t i) \<longleftrightarrow> kind_of u t \<in> insert KUintptr uint_kinds"
| "wt u (GFloat t f) \<longleftrightarrow> kind_of u t \<in> {KFloat32, KFloat64}"
| "wt u (GString t s) \<longleftrightarrow> kind_of u t = KString"
| "wt u (GBytes t b) \<longleftrightarrow> kind_of u t = KSlice \<and> isByteSequence u t"
| "wt u (GByteArray t b) \<longleftrightarrow> kind_of u t = KArray \<and> isByteSequence u t"
| "wt u (GSlice t xs) \<longleftrightarrow> kind_of u t = KSlice \<and> \<not> isByteSequence u t
     \<and> (case xs of None \<Rightarrow> True | Some ys \<Rightarrow> \<forall>y\<in>set ys. wt u y \<and> type_of y = elem_of u t)"
| "wt u (GArray t xs) \<longleftrightarrow> kind_of u t = KArray \<and> \<not> isByteSequence u t
     \<and> (\<forall>y\<in>set xs. wt u y \<and> type_of y = elem_of u t)"
| "wt u (GMap t m) \<longleftrightarrow> kind_of u t = KMap"
| "wt u (GStruct t fs) \<longleftrightarrow> kind_of u t = KStruct \<and> wellKnownType t = None
     \<and> map type_of fs = map sf_Type (fields_of u t) \<and> (\<forall>f\<in>set fs. wt u f)"
| "wt u (GPtr t v) \<longleftrightarrow> kind_of u t = KPointer
     \<and> (case v of None \<Rightarrow> True | Some w \<Rightarrow> wt u w \<and> type_of w = elem_of u t)"
| "wt u (GIface t v) \<longleftrightarrow> kind_of u t = KInterface
     \<and> (case v of None \<Rightarrow> True | Some w \<Rightarrow> wt u w \<and> kind_of u (type_of w) \<noteq> KInterface)"
| "wt u (GTime t) \<longleftrightarrow> True"
| "wt u (GDate d) \<longleftrightarrow> True"
| "wt u (GCivilTime t) \<longleftrightarrow> True"
| "wt u (GDateTime d) \<longleftrightarrow> True"
| "wt u (GRat r) \<longleftrightarrow> True"
| "wt u (GOther t nil) \<longleftrightarrow> kind_of u t \<in> {KChan, KFunc, KComplex64, KComplex128, KUnsafePointer}"

lemma elem_of_pointer: "universe_ok u \<Longrightarrow> kind_of u t = KPointer \<Longrightarrow> deref (elem_of u t) = deref t"
  by (cases t) (auto simp: universe_ok_def)

lemma deref_not_pointer_kind: "universe_ok u \<Longrightarrow> kind_of u (deref t) \<noteq> KPointer"
  using deref_Ty[of t] by (auto simp: universe_ok_def)

lemma deref_nonpointer: "kind_of u t \<noteq> KPointer \<Longrightarrow> deref t = t"
  by (cases t) auto

lemma wt_nonpointer:
  assumes "wt u v" and "universe_ok u" and "\<nexists>t x. v = GPtr t x"
  shows "kind_of u (type_of v) \<noteq> KPointer"
  using assms by (cases v) (auto simp: int_kinds_def uint_kinds_def universe_ok_def)

lemma derefValue_nonpointer: "\<nexists>t x. v = GPtr t x \<Longrightarrow> derefValue v = Some v"
  by (cases v) auto

lemma derefValue_wt:
  assumes "universe_ok u"
  shows "wt u v \<Longrightarrow> derefValue v = Some w \<Longrightarrow> wt u w \<and> type_of w = deref (type_of v)"
proof (induction v rule: measure_induct_rule[of size])
  case (less v)
  show ?case
  proof (cases "\<exists>t x. v = GPtr t x")
    case True
    then obtain t x where v: "v = GPtr t x" by blast
    with less.prems obtain y where y: "x = Some y" "derefValue y = Some w" "wt u y" "type_of y = elem_of u t"
        "kind_of u t = KPointer"
      by (cases x) auto
    with less.IH[of y] v elem_of_pointer[OF assms y(5)] show ?thesis by simp
  next
    case False
    then show ?thesis
      using less.prems derefValue_nonpointer[OF False] deref_nonpointer[OF wt_nonpointer[OF less.prems(1) assms False]]
      by simp
  qed
qed

text \<open>A value of a given kind is of the constructors for it.\<close>

lemma wt_sequence:
  assumes "wt u v" and "isRepeated u (type_of v)"  and "universe_ok u"
  shows "\<exists>xs. sequence_elements v = Some xs \<and> (\<forall>x\<in>set xs. wt u x \<and> type_of x = elem_of u (type_of v))"
  using assms
  by (cases v) (auto simp: isRepeated_def int_kinds_def uint_kinds_def universe_ok_def split: kind.splits option.splits)

lemma wt_time: "wt u v \<Longrightarrow> universe_ok u \<Longrightarrow> type_of v = typeTime \<Longrightarrow> \<exists>t. v = GTime t"
  by (cases v) (auto simp: universe_ok_def wellKnownType_def int_kinds_def uint_kinds_def named_types)

lemma wt_raw: "wt u v \<Longrightarrow> universe_ok u \<Longrightarrow> type_of v = typeRawMessage \<Longrightarrow> \<exists>b. v = GBytes typeRawMessage b"
  by (cases v) (auto simp: universe_ok_def int_kinds_def uint_kinds_def named_types)

section \<open>Fields of well-typed structs\<close>

lemma struct_fields_wt:
  assumes "universe_ok u" and "wt u v" and "nth_value (struct_fields u v) i = Some w" and "nth_field u (type_of v) i = Some sf"
  shows "wt u w \<and> type_of w = sf_Type sf"
proof (cases v)
  case (GStruct t fs)
  with assms have i: "i < length fs" "w = fs ! i" "sf = fields_of u t ! i" "map type_of fs = map sf_Type (fields_of u t)"
    by (auto simp: nth_value_def nth_field_def split: if_splits)
  then have len: "length fs = length (fields_of u t)" by (metis length_map)
  have "map type_of fs ! i = map sf_Type (fields_of u t) ! i" using i(4) by simp
  then have "type_of (fs ! i) = sf_Type (fields_of u t ! i)" using i(1) len by (simp del: i(4))
  with i(1-3) GStruct assms(2) show ?thesis by simp
next
  case (GDate d)
  with assms show ?thesis
    by (auto simp: nth_value_def nth_field_def universe_ok_def split: if_splits)
next
  case (GCivilTime d)
  with assms show ?thesis
    by (auto simp: nth_value_def nth_field_def universe_ok_def split: if_splits)
next
  case (GDateTime d)
  with assms have "i < 2" "w = [GDate (fst d), GCivilTime (snd d)] ! i" "sf = fields_of u typeDateTime ! i"
    "map sf_Type (fields_of u typeDateTime) = [typeDate, typeCivilTime]" "i < length (fields_of u typeDateTime)"
    by (auto simp: nth_value_def nth_field_def universe_ok_def split: if_splits)
  then have "sf_Type sf = [typeDate, typeCivilTime] ! i" by (metis nth_map)
  moreover have "i = 0 \<or> i = 1" using \<open>i < 2\<close> by linarith
  ultimately show ?thesis using \<open>w = _\<close> by auto
qed (use assms in \<open>auto simp: nth_value_def\<close>)

lemma embedded_type:
  assumes "universe_ok u" and "sf \<in> set (fields_of u t)" and "sf_Anonymous sf"
  shows "\<exists>n. sf_Type sf = Ty n \<or> sf_Type sf = Ptr (Ty n)"
proof (cases t)
  case (Ty n)
  with assms(2,3) have "sf \<in> set (ti_fields (u n))" by simp
  with assms(1,3) show ?thesis unfolding universe_ok_def fields_ok_def by blast
qed (use assms(2) in simp_all)

lemma fieldByIndexErr_wt:
  "universe_ok u \<Longrightarrow> wt u v \<Longrightarrow> fieldByIndexErr u v index = Some w \<Longrightarrow> path_field u (type_of v) index = Some sf \<Longrightarrow>
     wt u w \<and> type_of w = sf_Type sf"
proof (induction u v index rule: fieldByIndexErr.induct)
  case (2 u v i)
  then show ?case by (intro struct_fields_wt[of u v i]) (auto simp: path_field_def)
next
  case (3 u v i j "is")
  from "3.prems"(3) obtain x where x: "nth_value (struct_fields u v) i = Some x"
    by (auto split: option.splits)
  from "3.prems"(4) obtain sf1 where sf1: "nth_field u (type_of v) i = Some sf1" "sf_Anonymous sf1"
    "path_field u (deref (sf_Type sf1)) (j # is) = Some sf"
    by (auto simp: path_field_Cons[of u "type_of v" i] split: option.splits if_splits)
  have x_ok: "wt u x \<and> type_of x = sf_Type sf1"
    by (rule struct_fields_wt[OF "3.prems"(1,2) x sf1(1)])
  have "sf1 \<in> set (fields_of u (type_of v))" using sf1(1) by (auto simp: nth_field_def split: if_splits)
  then obtain n where n: "sf_Type sf1 = Ty n \<or> sf_Type sf1 = Ptr (Ty n)"
    using "3.prems"(1) sf1(2) embedded_type by blast
  obtain z where z: "through_pointer x = Some z" "fieldByIndexErr u z (j # is) = Some w"
    using "3.prems"(3) x by (auto split: option.splits)
  have z_ok: "wt u z \<and> type_of z = deref (sf_Type sf1)"
  proof (cases "\<exists>t y. x = GPtr t y")
    case True
    then obtain t y where ptr: "x = GPtr t y" by blast
    with z(1) x_ok have t: "t = sf_Type sf1" "kind_of u t = KPointer" "type_of z = elem_of u t" "wt u z" by auto
    with n "3.prems"(1) have "t = Ptr (Ty n)" by (auto simp: universe_ok_def)
    with t show ?thesis by (metis deref.simps(1,3) elem_of.simps(2))
  next
    case False
    then have "z = x" using z(1) by (cases x) auto
    moreover have "kind_of u (sf_Type sf1) \<noteq> KPointer"
      using wt_nonpointer[of u x] x_ok "3.prems"(1) False by simp
    ultimately show ?thesis using x_ok deref_nonpointer by simp
  qed
  with "3.IH"[OF x z(1) "3.prems"(1) _ z(2)] sf1(3) show ?case by simp
qed simp

section \<open>Plans made for a type\<close>

definition conversion_for :: "types \<Rightarrow> Marshalers option \<Rightarrow> conversion \<Rightarrow> rtype \<Rightarrow> bool" where
  "conversion_for u ms c t \<longleftrightarrow>
     (case c of
        Registered m \<Rightarrow> lookup_marshaler ms t = Some m
      | OwnMarshaler \<Rightarrow> fieldMarshalerOf u t \<noteq> None
      | CivilOf opt \<Rightarrow> t = typeTime
      | RawJSON \<Rightarrow> t = typeRawMessage
      | AsJSON \<Rightarrow> True)"

definition scalar_type :: "types \<Rightarrow> rtype \<Rightarrow> bool" where
  "scalar_type u t \<longleftrightarrow> wellKnownType t \<noteq> None \<or> kind_of u t \<in> {KString, KBool, KFloat32, KFloat64} \<union> int_kinds \<union> uint_kinds
     \<or> kind_of u t \<in> {KSlice, KArray} \<and> isByteSequence u t"

text \<open>The type of the values one column converts, elements for a repeated one.\<close>

definition column_type :: "types \<Rightarrow> rtype \<Rightarrow> rtype" where
  "column_type u t = deref (if isRepeated u (deref t) then elem_of u (deref t) else deref t)"

fun plan_for :: "types \<Rightarrow> Marshalers option \<Rightarrow> rowPlan \<Rightarrow> rtype \<Rightarrow> bool"
  and column_for :: "types \<Rightarrow> Marshalers option \<Rightarrow> fieldPlan \<Rightarrow> rtype \<Rightarrow> bool" where
  "plan_for u ms (RowPlan t fs p c r d l) t' \<longleftrightarrow> t' = t \<and> kind_of u t = KStruct \<and>
     (\<forall>f\<in>set fs. case path_field u t (fp_index f) of
        None \<Rightarrow> False | Some sf \<Rightarrow> column_for u ms f (sf_Type sf))"
| "column_for u ms (FieldPlan name index required repeated nullIfZero d ft marshal nested) t \<longleftrightarrow>
     repeated = isRepeated u (deref t)
     \<and> (case marshal of
          Some c \<Rightarrow> conversion_for u ms c (column_type u t)
        | None \<Rightarrow> (case nested of
            Some p \<Rightarrow> plan_for u ms p (column_type u t)
          | None \<Rightarrow> scalar_type u (column_type u t)))"

lemma plan_for_iff:
  "plan_for u ms p t \<longleftrightarrow> t = rp_goType p \<and> kind_of u t = KStruct \<and> (\<forall>f\<in>set (rp_fields p).
     case path_field u t (fp_index f) of None \<Rightarrow> False | Some sf \<Rightarrow> column_for u ms f (sf_Type sf))"
  by (cases p) auto

lemma column_for_iff:
  "column_for u ms f t \<longleftrightarrow> fp_repeated f = isRepeated u (deref t)
     \<and> (case fp_marshal f of
          Some c \<Rightarrow> conversion_for u ms c (column_type u t)
        | None \<Rightarrow> (case fp_nested f of
            Some p \<Rightarrow> plan_for u ms p (column_type u t)
          | None \<Rightarrow> scalar_type u (column_type u t)))"
  by (cases f) (simp split: option.splits)

lemma resolveJSON_kind: "resolveJSON u dt = Inr (ft, m, nested) \<Longrightarrow>
    nested = None \<and> (m = Some RawJSON \<and> dt = typeRawMessage \<or> m = Some AsJSON)"
  by (auto simp: resolveJSON_def Let_def split: if_splits)

lemma kind_column_kind: "kind_column u dt = Inr (ft, m, nested) \<Longrightarrow>
    nested = None \<and> (m = None \<and> scalar_type u dt \<or> m = Some RawJSON \<and> dt = typeRawMessage \<or> m = Some AsJSON)"
  by (cases "kind_of u dt")
    (auto simp: kind_column_def scalar_type_def int_kinds_def uint_kinds_def dest: resolveJSON_kind split: if_splits)

lemma fieldMarshalerOf_deref: "fieldMarshalerOf u (deref t) = fieldMarshalerOf u t"
  by (simp add: fieldMarshalerOf_def)

lemma lookup_deref: "lookup_marshaler ms (deref t) = lookup_marshaler ms t"
  by (simp add: lookup_marshaler_def split: option.split)

lemma resolveType_kind:
  assumes "resolveType rec u ms t tag = Some (Inr (ft, m, nested))"
  shows "case m of Some c \<Rightarrow> conversion_for u ms c (deref t)
    | None \<Rightarrow> (case nested of Some p \<Rightarrow> rec (deref t) = Some (Inr p) | None \<Rightarrow> scalar_type u (deref t))"
proof (cases "tag_timeType tag = []")
  case False
  with assms show ?thesis
    by (auto simp: resolveType_def resolveTimeType_def conversion_for_def split: option.splits if_splits)
next
  case no_time: True
  show ?thesis
  proof (cases "lookup_marshaler ms t")
    case (Some k)
    with assms no_time show ?thesis
      by (auto simp: resolveType_def conversion_for_def lookup_deref split: if_splits)
  next
    case no_marshaler: None
    show ?thesis
    proof (cases "fieldMarshalerOf u t")
      case (Some k)
      with assms no_time no_marshaler show ?thesis
        by (auto simp: resolveType_def conversion_for_def fieldMarshalerOf_deref split: if_splits)
    next
      case no_method: None
      show ?thesis
      proof (cases "wellKnownType (deref t)")
        case (Some k)
        with assms no_time no_marshaler no_method show ?thesis by (auto simp: resolveType_def scalar_type_def)
      next
        case no_known: None
        note none = no_time no_marshaler no_method no_known
        show ?thesis
        proof (cases "tag_record tag")
          case True
          with assms none show ?thesis by (auto simp: resolveType_def returns_then_Inr split: if_splits)
        next
          case False
          with assms none have "kind_column u (deref t) = Inr (ft, m, nested)" by (simp add: resolveType_def)
          from kind_column_kind[OF this] show ?thesis by (auto simp: conversion_for_def)
        qed
      qed
    qed
  qed
qed

lemma built_column_for:
  assumes "buildFieldPlan rec u ms c = Some (Inr f)" and "\<And>t p. rec t = Some (Inr p) \<Longrightarrow> plan_for u ms p t"
  shows "column_for u ms f (sf_Type (cf_sf c)) \<and> fp_index f = cf_index c"
  using assms(1)
proof (rule buildFieldPlan_Inr)
  fix t ft m nested
  assume t: "t = deref (sf_Type (cf_sf c))"
    and r: "resolveType rec u ms (if isRepeated u t then elem_of u t else t) (cf_tag c) = Some (Inr (ft, m, nested))"
    and f: "f = FieldPlan (cf_name c) (cf_index c) (tag_required (cf_tag c) \<and> \<not> isRepeated u t) (isRepeated u t)
       (tag_nullIfZero (cf_tag c)) (tag_description (cf_tag c)) ft m nested"
  from resolveType_kind[OF r] assms(2) show ?thesis
    by (auto simp: f t column_type_def split: option.splits if_splits)
qed

lemma built_plan_for:
  "buildRowPlanFor n u ms t = Some (Inr p) \<Longrightarrow> plan_for u ms p t"
proof (induction n arbitrary: t p)
  case (Suc n)
  from Suc.prems show ?case
  proof (rule buildRowPlanFor_Inr)
    fix m cs fs part clus filt meta
    assume m: "Suc n = Suc m" and t: "kind_of u t = KStruct" and cs: "collectFields u t = Some (Inr cs)"
      and fs: "list_all2 (\<lambda>c f. buildFieldPlan (buildRowPlanFor m u ms) u ms c = Some (Inr f)) cs fs"
      and p: "p = RowPlan t fs part clus filt (meta_description meta) (meta_labels meta)"
    have "\<exists>sf. path_field u t (fp_index f) = Some sf \<and> column_for u ms f (sf_Type sf)"
      if "f \<in> set fs" for f
    proof -
      from fs that obtain c where c: "c \<in> set cs" "buildFieldPlan (buildRowPlanFor m u ms) u ms c = Some (Inr f)"
        by (blast dest: list_all2_right)
      have "candidate_ok u t c"
        using collectFields_sound(3)[OF cs struct_not_pointer[OF t]] c(1) by blast
      moreover have "column_for u ms f (sf_Type (cf_sf c)) \<and> fp_index f = cf_index c"
        using c(2) by (rule built_column_for) (use Suc.IH m in simp)
      ultimately show ?thesis by (auto simp: candidate_ok_def)
    qed
    with t show ?thesis by (fastforce simp: plan_for_iff p)
  qed
qed simp

section \<open>What stops a row\<close>

text \<open>
  An error that begins outside the conversions: in code they call, or with a nil struct or a nil
  interface where a value is needed.
\<close>

fun outside :: "gerr \<Rightarrow> bool" where
  "outside (EWrap s e) \<longleftrightarrow> outside e"
| "outside (EMsg (MarshalSite (NilRow t))) \<longleftrightarrow> True"
| "outside (EMsg (MarshalSite (MarshalerGivenNil t))) \<longleftrightarrow> True"
| "outside (EMsg s) \<longleftrightarrow> False"
| "outside e \<longleftrightarrow> True"

text \<open>
  A column at any depth whose value is read from a field that is not exported, which only an
  embedded struct can be; and the panic of reflect on handing such a value out.
\<close>

fun hidden_in :: "types \<Rightarrow> rowPlan \<Rightarrow> bool"
  and hidden_below :: "types \<Rightarrow> fieldPlan \<Rightarrow> bool" where
  "hidden_in u (RowPlan t fs p c r d l) \<longleftrightarrow> (\<exists>f\<in>set fs. field_unexported u t (fp_index f) \<or> hidden_below u f)"
| "hidden_below u (FieldPlan name index required repeated nullIfZero d ft marshal nested) \<longleftrightarrow>
     (case nested of Some p \<Rightarrow> hidden_in u p | None \<Rightarrow> False)"

lemma hidden_in_iff:
  "hidden_in u p \<longleftrightarrow> (\<exists>f\<in>set (rp_fields p). field_unexported u (rp_goType p) (fp_index f) \<or> hidden_below u f)"
  by (cases p) simp

lemma hidden_below_nested: "fp_nested f = Some p \<Longrightarrow> hidden_below u f \<longleftrightarrow> hidden_in u p"
  by (cases f) simp

fun panics :: "gerr \<Rightarrow> bool" where
  "panics (EWrap s e) \<longleftrightarrow> panics e"
| "panics (EMsg (MarshalSite ReflectPanics)) \<longleftrightarrow> True"
| "panics e \<longleftrightarrow> False"

definition stops :: "bool \<Rightarrow> gerr \<Rightarrow> bool" where
  "stops hidden e \<longleftrightarrow> outside e \<or> hidden \<and> panics e"

lemma stops_wrap [simp]: "stops h (EWrap s e) \<longleftrightarrow> stops h e"
  by (simp add: stops_def)

lemma stops_panic [simp]: "stops h (EMsg (MarshalSite ReflectPanics)) \<longleftrightarrow> h"
  by (simp add: stops_def)

lemma outside_stops: "outside e \<Longrightarrow> stops h e"
  by (simp add: stops_def)

definition calls_outside :: "go_env \<Rightarrow> Marshalers option \<Rightarrow> bool" where
  "calls_outside G ms \<longleftrightarrow>
     (\<forall>v e. ge_MarshalBigQueryValue G v = Inl e \<longrightarrow> outside e)
     \<and> (\<forall>v e. ge_Encode G v = Inl e \<longrightarrow> outside e)
     \<and> (\<forall>t m. lookup_marshaler ms t = Some m \<longrightarrow>
          (\<exists>fn. tm_marshal m = typed_marshal (ge_types G) (deref t) fn \<and> (\<forall>v e. fn v = Inl e \<longrightarrow> outside e)))"

lemma typed_marshal_outside:
  assumes "typed_marshal u t fn (unbox v) = Inl e" and "type_of v = t" and "wt u v"
    and "\<And>v e. fn v = Inl e \<Longrightarrow> outside e"
  shows "outside e"
  using assms by (cases v) (auto simp: typed_marshal_def split: option.splits if_splits)

lemma conversion_outside:
  assumes "run_conversion G c (False, x) = Inl e" and "conversion_for (ge_types G) ms c t" and "wt (ge_types G) x"
    and "deref (type_of x) = t" and "universe_ok (ge_types G)" and "calls_outside G ms"
  shows "outside e"
proof (cases "derefValue x")
  case None
  with assms(1) show ?thesis
    by (cases c) (auto simp: marshalRegistered_def marshalViaFieldMarshaler_def marshalCivilOf_def marshalRawMessage_def
        marshalAsJSON_def)
next
  case (Some v)
  have v: "wt (ge_types G) v" "type_of v = t"
    using derefValue_wt[OF assms(5,3) Some] assms(4) by simp_all
  show ?thesis
  proof (cases c)
    case (Registered m)
    have t: "deref t = t" using assms(4) by auto
    from Registered assms(2) have "lookup_marshaler ms t = Some m" by (simp add: conversion_for_def)
    with assms(6) t obtain fn where fn: "tm_marshal m = typed_marshal (ge_types G) t fn"
        "\<forall>v e. fn v = Inl e \<longrightarrow> outside e"
      unfolding calls_outside_def by metis
    from assms(1) Registered Some fn(1) have "typed_marshal (ge_types G) t fn (unbox v) = Inl e"
      by (simp add: marshalRegistered_def Interface_def)
    then show ?thesis by (rule typed_marshal_outside) (use v fn(2) in blast)+
  next
    case OwnMarshaler
    then have "fieldMarshalerOf (ge_types G) t \<noteq> None" using assms(2) by (simp add: conversion_for_def)
    moreover have "t = deref t" using assms(4) by auto
    ultimately have "implements (map_option fst \<circ> ti_FieldMarshaler) (ge_types G) (Ptr t)"
      using deref_Ty[of t] by (auto simp: fieldMarshalerOf_def)
    with assms(1,6) OwnMarshaler Some v show ?thesis
      by (auto simp: marshalViaFieldMarshaler_def Interface_def calls_outside_def)
  next
    case (CivilOf opt)
    then have "t = typeTime" using assms(2) by (simp add: conversion_for_def)
    with wt_time[OF v(1) assms(5)] v(2) obtain s where "v = GTime s" by auto
    with assms(1) CivilOf Some show ?thesis by (simp add: marshalCivilOf_def Interface_def)
  next
    case RawJSON
    then have "t = typeRawMessage" using assms(2) by (simp add: conversion_for_def)
    with wt_raw[OF v(1) assms(5)] v(2) obtain b where "v = GBytes typeRawMessage b" by auto
    with assms(1) RawJSON Some show ?thesis
      by (simp add: marshalRawMessage_def Interface_def split: option.splits)
  next
    case AsJSON
    with assms(1,6) Some show ?thesis
      by (auto simp: marshalAsJSON_def Interface_def encodeJSON_def calls_outside_def split: sum.splits if_splits)
  qed
qed

lemma conversion_stops:
  assumes "run_conversion G c rv = Inl e" and "conversion_for (ge_types G) ms c t" and "wt (ge_types G) (snd rv)"
    and "deref (type_of (snd rv)) = t" and "universe_ok (ge_types G)" and "calls_outside G ms" and "fst rv \<longrightarrow> h"
  shows "stops h e"
proof (cases "fst rv")
  case False
  with assms conversion_outside[of G c "snd rv" e ms t] show ?thesis by (metis outside_stops prod.collapse)
next
  case True
  with assms(1,7) have "e = EMsg (MarshalSite ReflectPanics) \<and> h"
    by (cases c; cases rv) (auto simp: marshalRegistered_def marshalViaFieldMarshaler_def marshalCivilOf_def marshalRawMessage_def
        marshalAsJSON_def Interface_def reflect_panic_def split: option.splits if_splits)
  then show ?thesis by simp
qed

lemma wellKnown_named [simp]:
  "wellKnownType typeTime = Some TimestampFieldType" "wellKnownType typeDate = Some DateFieldType"
  "wellKnownType typeCivilTime = Some TimeFieldType" "wellKnownType typeDateTime = Some DateTimeFieldType"
  "wellKnownType typeRat = Some NumericFieldType"
  by (simp_all add: wellKnownType_def named_types)

lemma scalarValue_converts:
  assumes "wt u v" and "scalar_type u (type_of v)" and "wellKnownType (type_of v) = None"
  shows "is_ok (scalarValue u (Some v))"
  using assms by (cases v) (auto simp: scalarValue_def scalar_type_def int_kinds_def uint_kinds_def)

lemma wellKnown_stops: "wellKnownValue rv = Inl e \<Longrightarrow> fst rv \<longrightarrow> h \<Longrightarrow> stops h e"
  by (cases "derefValue (snd rv)") (auto simp: wellKnownValue_def Interface_def reflect_panic_def split: goval.splits if_splits)

lemma column_elements:
  assumes "wt u v" and "isRepeated u (type_of v)" and "universe_ok u" and "column_type u t = t'" and "type_of v = deref t"
  obtains xs where "sequence_elements v = Some xs" "\<forall>x\<in>set xs. wt u x \<and> deref (type_of x) = t'"
  using wt_sequence[OF assms(1-3)] assms(2,4,5) by (auto simp: column_type_def)

lemma null_before_stops: "null_before G f rv = Inl e \<Longrightarrow> fst rv \<longrightarrow> h \<Longrightarrow> stops h e"
  by (cases rv) (auto simp: null_before_def isZeroValue_def Interface_def reflect_panic_def and_then_Inl
      split: goval.splits option.splits if_splits)

text \<open>
  The five functions together: from values of the types the plan was made for, every error is
  one from outside, or the panic of a column that is hidden.
\<close>

lemma marshal_stops:
  shows "marshalRow G p rv = Inl e \<Longrightarrow> plan_for (ge_types G) ms p t \<Longrightarrow> wt (ge_types G) (snd rv) \<Longrightarrow>
      deref (type_of (snd rv)) = t \<Longrightarrow> hidden_in (ge_types G) p \<longrightarrow> h \<Longrightarrow> universe_ok (ge_types G) \<Longrightarrow> calls_outside G ms \<Longrightarrow> stops h e"
    and "marshal_fields G fs v row = Inl e \<Longrightarrow> wt (ge_types G) v \<Longrightarrow> type_of v = t \<Longrightarrow>
      (\<And>f. f \<in> set fs \<Longrightarrow> (field_unexported (ge_types G) t (fp_index f) \<or> hidden_below (ge_types G) f \<longrightarrow> h)
         \<and> (\<exists>sf. path_field (ge_types G) t (fp_index f) = Some sf \<and> column_for (ge_types G) ms f (sf_Type sf)))
      \<Longrightarrow> universe_ok (ge_types G) \<Longrightarrow> calls_outside G ms \<Longrightarrow> stops h e"
    and "marshalValue G f rv = Inl e \<Longrightarrow> column_for (ge_types G) ms f t \<Longrightarrow> wt (ge_types G) (snd rv) \<Longrightarrow>
      type_of (snd rv) = t \<Longrightarrow> fst rv \<or> hidden_below (ge_types G) f \<longrightarrow> h \<Longrightarrow> universe_ok (ge_types G) \<Longrightarrow> calls_outside G ms \<Longrightarrow> stops h e"
    and "marshalRepeated G f rv = Inl e \<Longrightarrow> column_for (ge_types G) ms f t \<Longrightarrow> fp_repeated f \<Longrightarrow> wt (ge_types G) (snd rv) \<Longrightarrow>
      type_of (snd rv) = t \<Longrightarrow> fst rv \<or> hidden_below (ge_types G) f \<longrightarrow> h \<Longrightarrow> universe_ok (ge_types G) \<Longrightarrow> calls_outside G ms \<Longrightarrow> stops h e"
    and "marshalScalar G f rv = Inl e \<Longrightarrow> column_for (ge_types G) ms f t \<Longrightarrow> wt (ge_types G) (snd rv) \<Longrightarrow>
      deref (type_of (snd rv)) = column_type (ge_types G) t \<Longrightarrow> fst rv \<or> hidden_below (ge_types G) f \<longrightarrow> h \<Longrightarrow> universe_ok (ge_types G) \<Longrightarrow> calls_outside G ms \<Longrightarrow> stops h e"
proof (induction G p rv and G fs v row and G f rv and G f rv and G f rv arbitrary: e t and e t and e t and e t and e t
    rule: marshalRow_marshal_fields_marshalValue_marshalRepeated_marshalScalar.induct)
  case (1 G p rv)
  note U = "1.prems"(6) and O = "1.prems"(7)
  show ?case
  proof (cases "derefValue (snd rv)")
    case None
    with "1.prems"(1) have "e = EMsg (MarshalSite (NilRow (rp_goType p)))"
      by (simp add: marshalRow.simps[of G p rv])
    then show ?thesis by (simp add: stops_def)
  next
    case (Some v)
    have v: "wt (ge_types G) v" "type_of v = t"
      using derefValue_wt[OF U "1.prems"(3) Some] "1.prems"(4) by simp_all
    have t: "rp_goType p = t" using "1.prems"(2) by (simp add: plan_for_iff)
    have "marshal_fields G (rp_fields p) v [] = Inl e"
      using "1.prems"(1) Some by (simp add: marshalRow.simps[of G p rv])
    moreover have "(field_unexported (ge_types G) t (fp_index f) \<or> hidden_below (ge_types G) f \<longrightarrow> h)
         \<and> (\<exists>sf. path_field (ge_types G) t (fp_index f) = Some sf \<and> column_for (ge_types G) ms f (sf_Type sf))"
      if "f \<in> set (rp_fields p)" for f
      using "1.prems"(2,5) that t by (auto simp: plan_for_iff hidden_in_iff split: option.splits)
    ultimately show ?thesis using "1.IH"[OF Some _ v _ U O] by blast
  qed
next
  case (2 G v row)
  then show ?case by simp
next
  case (3 G f fs v row)
  note U = "3.prems"(5) and O = "3.prems"(6)
  obtain sf where sf: "path_field (ge_types G) t (fp_index f) = Some sf" "column_for (ge_types G) ms f (sf_Type sf)"
    and hides: "field_unexported (ge_types G) t (fp_index f) \<or> hidden_below (ge_types G) f \<longrightarrow> h"
    using "3.prems"(4)[of f] by auto
  have rest: "(field_unexported (ge_types G) t (fp_index g) \<or> hidden_below (ge_types G) g \<longrightarrow> h)
         \<and> (\<exists>sf. path_field (ge_types G) t (fp_index g) = Some sf \<and> column_for (ge_types G) ms g (sf_Type sf))"
    if "g \<in> set fs" for g
    using "3.prems"(4)[of g] that by simp
  show ?case
  proof (cases "fieldByIndexErr (ge_types G) v (fp_index f)")
    case None
    with "3.prems"(1) have "marshal_fields G fs v (map_put (fp_name f) BNil row) = Inl e" by simp
    then show ?thesis by (rule "3.IH"(1)[OF None _ "3.prems"(2,3) rest U O])
  next
    case (Some fv)
    let ?rv = "(field_unexported (ge_types G) (type_of v) (fp_index f), fv)"
    have fv: "wt (ge_types G) fv" "type_of fv = sf_Type sf"
      using fieldByIndexErr_wt[OF U "3.prems"(2) Some, of sf] sf(1) "3.prems"(3) by auto
    show ?thesis
    proof (cases "marshalValue G f ?rv")
      case (Inl e')
      with "3.prems"(1) Some have "e = EWrap (MarshalSite (InColumn (fp_name f))) e'" by simp
      moreover have "stops h e'" using "3.IH"(2)[OF Some Inl sf(2) _ _ _ U O] fv hides "3.prems"(3) by simp
      ultimately show ?thesis by simp
    next
      case (Inr val)
      with "3.prems"(1) Some have "marshal_fields G fs v (map_put (fp_name f) val row) = Inl e" by simp
      with "3.IH"(3)[OF Some _ _ "3.prems"(2,3) rest U O] Inr show ?thesis by simp
    qed
  qed
next
  case (4 G f rv)
  note U = "4.prems"(6) and O = "4.prems"(7)
  show ?case
  proof (cases "null_before G f rv")
    case (Inl e')
    with "4.prems"(1) have "e = e'" by (simp add: marshalValue.simps)
    with null_before_stops[OF Inl] "4.prems"(5) show ?thesis by simp
  next
    case null: (Inr null)
    show ?thesis
    proof (cases "fp_repeated f")
      case True
      with "4.prems"(1) null have "\<not> null" "marshalRepeated G f rv = Inl e"
        by (auto simp: marshalValue.simps split: if_splits)
      with "4.IH"(1)[OF null _ True] "4.prems" True show ?thesis by simp
    next
      case False
      with "4.prems"(1) null have scalar: "\<not> null" "marshalScalar G f rv = Inl e"
        by (auto simp: marshalValue.simps split: if_splits)
      have "deref (type_of (snd rv)) = column_type (ge_types G) t"
        using False "4.prems"(2,4) by (auto simp: column_type_def column_for_iff)
      with "4.IH"(2)[OF null scalar(1) False scalar(2) "4.prems"(2,3)] "4.prems"(5) U O show ?thesis by simp
    qed
  qed
next
  case (5 G f rv)
  note U = "5.prems"(7) and O = "5.prems"(8)
  show ?case
  proof (cases "derefValue (snd rv)")
    case None
    with "5.prems"(1) show ?thesis by (simp add: marshalRepeated.simps)
  next
    case (Some v)
    have v: "wt (ge_types G) v" "type_of v = deref t"
      using derefValue_wt[OF U "5.prems"(4) Some] "5.prems"(5) by simp_all
    have repeated: "isRepeated (ge_types G) (type_of v)"
      using "5.prems"(2,3) v(2) by (simp add: column_for_iff)
    obtain xs where xs: "sequence_elements v = Some xs"
      "\<forall>x\<in>set xs. wt (ge_types G) x \<and> deref (type_of x) = column_type (ge_types G) t"
      by (rule column_elements[OF v(1) repeated U refl v(2)])
    have "traverse_indexed (\<lambda>i x. map_error (EWrap (MarshalSite (InElement i))) (marshalScalar G f (fst rv, x))) xs = Inl e"
      using "5.prems"(1) Some xs(1) by (simp add: marshalRepeated.simps and_then_Inl)
    then obtain i e' where i: "i < length xs" "marshalScalar G f (fst rv, xs ! i) = Inl e'"
      "e = EWrap (MarshalSite (InElement i)) e'"
      by (auto simp: map_error_Inl dest!: traverse_indexed_Inl)
    have "stops h e'"
      by (rule "5.IH"[OF Some xs(1) nth_mem[OF i(1)] i(2) "5.prems"(2) _ _ _ U O]) (use xs(2) i(1) "5.prems"(6) in auto)
    with i(3) show ?thesis by simp
  qed
next
  case (6 G f rv)
  note U = "6.prems"(6) and O = "6.prems"(7)
  show ?case
  proof (cases "fp_marshal f")
    case (Some c)
    with "6.prems"(1,2) have "run_conversion G c rv = Inl e" "conversion_for (ge_types G) ms c (column_type (ge_types G) t)"
      by (simp_all add: marshalScalar.simps column_for_iff)
    then show ?thesis by (rule conversion_stops) (use "6.prems" U O in auto)
  next
    case none: None
    with "6.prems"(1) have pointer: "\<not> nil_pointer (snd rv)" by (auto simp: marshalScalar.simps)
    show ?thesis
    proof (cases "fp_nested f")
      case (Some p)
      with none pointer "6.prems"(1) have "marshalRow G p rv = Inl e"
        by (simp add: marshalScalar.simps and_then_Inl)
      moreover have "plan_for (ge_types G) ms p (column_type (ge_types G) t)"
        using "6.prems"(2) none Some by (simp add: column_for_iff)
      moreover have "hidden_in (ge_types G) p \<longrightarrow> h" using "6.prems"(5) hidden_below_nested[OF Some] by simp
      ultimately show ?thesis using "6.IH"[OF none pointer Some] "6.prems"(3,4) U O by blast
    next
      case None
      note plain = none pointer None
      show ?thesis
      proof (cases "wellKnownType (deref (type_of (snd rv)))")
        case (Some ft)
        with "6.prems"(1) plain have "wellKnownValue rv = Inl e" by (simp add: marshalScalar.simps)
        then show ?thesis by (rule wellKnown_stops) (use "6.prems"(5) in blast)
      next
        case unknown: None
        have scalar: "scalar_type (ge_types G) (deref (type_of (snd rv)))"
          using "6.prems"(2,4) none None by (simp add: column_for_iff)
        have "is_ok (scalarValue (ge_types G) (derefValue (snd rv)))"
        proof (cases "derefValue (snd rv)")
          case (Some v)
          then show ?thesis
            using derefValue_wt[OF U _ Some] "6.prems"(3) scalar unknown by (simp add: scalarValue_converts)
        qed (simp add: scalarValue_def)
        with "6.prems"(1) plain unknown show ?thesis by (simp add: marshalScalar.simps)
      qed
    qed
  qed
qed


text \<open>A list of a type that writes itself, whose method refuses the second element.\<close>

definition part_types :: types where
  "part_types n =
     (if n = 20 then plain_info KStruct [plain_field ''Levels'' (Ty 11)]
      else if n = 21 then (plain_info KString [])\<lparr>ti_FieldMarshaler := Some (ValueReceiver, StringFieldType)\<rparr>
      else if n = 11 then (plain_info KSlice [])\<lparr>ti_elem := Ptr (Ty 21)\<rparr>
      else if n = 5 then (plain_info KSlice [])\<lparr>ti_elem := Ty 12\<rparr>
      else if n = 12 then plain_info KUint8 []
      else if n = 3 then plain_info KStruct [plain_field ''Date'' typeDate, plain_field ''Time'' typeCivilTime]
      else if n \<le> 4 then plain_info KStruct []
      else plain_info KString [])"

definition part_env :: go_env where
  "part_env = log_env\<lparr>ge_types := part_types, ge_MarshalBigQueryValue := (\<lambda>v.
     case derefValue v of Some (GString t s) \<Rightarrow> if s = ''low'' then Inr (BInt 1) else Inl (EOther s) | _ \<Rightarrow> Inl (EOther []))\<rparr>"

definition part_plan :: rowPlan where
  "part_plan = RowPlan (Ty 20)
     [FieldPlan ''Levels'' [0] False True False [] StringFieldType (Some OwnMarshaler) None] None None False [] []"

lemmas part_simps = part_types_def plain_info_def named_types

lemma part_candidates:
  "collectFields part_types (Ty 20) = Some (Inr [candidate_of (plain_field ''Levels'' (Ty 11)) empty_tag [] 0])"
  by (simp add: collectFields_def collect_levels.simps walk_simps part_simps
      resolveCollisions_def kept_field_def winnerFor_def empty_tag_def)

lemma part_plan_built: "buildRowPlan (Suc 0) part_types None (Ty 20) = Some (Inr part_plan)"
  by (simp add: buildRowPlan_def marshalers_err_def struct_plan_def part_candidates plan_simps walk_simps part_simps
      empty_tag_def part_plan_def)

lemma part_universe: "universe_ok part_types"
  by (auto simp: universe_ok_def fields_ok_def part_simps isByteSequence_def plain_field_def int_kinds_def)

definition part_value :: goval where
  "part_value = GStruct (Ty 20) [GSlice (Ty 11) (Some
     [GPtr (Ptr (Ty 21)) (Some (GString (Ty 21) ''low'')), GPtr (Ptr (Ty 21)) (Some (GString (Ty 21) ''x''))])]"

definition part_error :: gerr where
  "part_error = EWrap (MarshalSite (InColumn ''Levels'')) (EWrap (MarshalSite (InElement 1)) (EOther ''x''))"


text \<open>
  The exception is real: where a struct of an unexported type is embedded under a tag that names a
  column, that column's value is asked for on every row, and the conversion panics.
\<close>

definition hidden_field :: StructField where
  "hidden_field = (tagged_field ''meta'' (Ty 21) [(''bqsink'', ''meta'')])\<lparr>sf_Anonymous := True, sf_Exported := False\<rparr>"

definition hidden_types :: types where
  "hidden_types n =
     (if n = 20 then plain_info KStruct [hidden_field]
      else if n = 21 then plain_info KStruct [plain_field ''Size'' (Ty 12)]
      else if n = 12 then plain_info KInt64 []
      else plain_info KString [])"

definition hidden_plan :: rowPlan where
  "hidden_plan = RowPlan (Ty 20) [FieldPlan ''meta'' [0] False False False [] JSONFieldType (Some AsJSON) None] None None False [] []"

lemma hidden_candidates:
  "collectFields hidden_types (Ty 20) = Some (Inr [candidate_of hidden_field (empty_tag\<lparr>tag_name := ''meta''\<rparr>) [] 0])"
  by (simp add: collectFields_def collect_levels.simps walk_simps hidden_types_def hidden_field_def tagged_field_def tag_simps
      resolveCollisions_def kept_field_def winnerFor_def empty_tag_def plain_info_def)

lemma hidden_plan_built: "buildRowPlan 1 hidden_types None (Ty 20) = Some (Inr hidden_plan)"
  by (simp add: buildRowPlan_def marshalers_err_def struct_plan_def hidden_candidates plan_simps walk_simps hidden_types_def
      hidden_field_def tagged_field_def plain_info_def named_types empty_tag_def hidden_plan_def resolveJSON_def)

lemma hidden_column_panics:
  "marshalRow (part_env\<lparr>ge_types := hidden_types\<rparr>) hidden_plan
     (False, GStruct (Ty 20) [GStruct (Ty 21) [GInt (Ty 12) 7]])
   = Inl (EWrap (MarshalSite (InColumn ''meta'')) (EMsg (MarshalSite ReflectPanics)))"
  by (simp add: hidden_plan_def hidden_types_def hidden_field_def row_simps marshalAsJSON_def reflect_panic_def plain_info_def
      tagged_field_def)

end
