(* ===== verification/Converters.thy ===== *)
theory Converters
  imports MapPlan RowTyping
begin

text \<open>
  \<open>rowConverter\<close> of bqsink.go: what a Sinker needs from a plan, whichever of the two it holds.
  The interface is a locale, given by plans for structs and by plans for maps; and the two agree
  on what one Go value becomes.
\<close>

section \<open>Maps and structs agree\<close>

lemma kind_column_of_kind:
  assumes "kind_column u t = Inr (ft, c, n)"
  shows "n = None"
    and "kind_of u t = KString \<Longrightarrow> ft = StringFieldType \<and> c = None"
    and "kind_of u t = KBool \<Longrightarrow> ft = BooleanFieldType \<and> c = None"
    and "kind_of u t \<in> int_kinds \<Longrightarrow> ft = IntegerFieldType \<and> c = None"
    and "kind_of u t \<in> {KUint8, KUint16, KUint32} \<Longrightarrow> ft = IntegerFieldType \<and> c = None"
    and "kind_of u t \<in> {KUint, KUint64} \<Longrightarrow> ft = NumericFieldType"
    and "kind_of u t \<in> {KFloat32, KFloat64} \<Longrightarrow> ft = FloatFieldType \<and> c = None"
    and "kind_of u t = KSlice \<Longrightarrow> isByteSequence u t \<Longrightarrow>
      (if t = typeRawMessage then ft = JSONFieldType \<and> c = Some RawJSON else ft = BytesFieldType \<and> c = None)"
    and "kind_of u t = KUintptr \<Longrightarrow> False"
  using assms by (auto simp: kind_column_def resolveJSON_def Let_def int_kinds_def split: kind.splits if_splits)

lemma deref_named [simp]:
  "deref typeTime = typeTime" "deref typeDate = typeDate" "deref typeCivilTime = typeCivilTime"
  "deref typeDateTime = typeDateTime" "deref typeRat = typeRat"
  by (simp_all add: named_types)

lemma wt_rat: "wt u v \<Longrightarrow> universe_ok u \<Longrightarrow> type_of v = typeRat \<Longrightarrow> \<exists>r. v = GRat r"
  by (cases v) (auto simp: universe_ok_def wellKnownType_def int_kinds_def uint_kinds_def named_types)

text \<open>What the accepted type table accepts.\<close>

fun accepts :: "types \<Rightarrow> FieldType \<Rightarrow> goval \<Rightarrow> bool" where
  "accepts u ft (GString t s) \<longleftrightarrow> ft \<in> {StringFieldType, GeographyFieldType, JSONFieldType}"
| "accepts u ft (GInt t i) \<longleftrightarrow> ft = IntegerFieldType"
| "accepts u ft (GUint t i) \<longleftrightarrow> ft = IntegerFieldType \<and> kind_of u t \<noteq> KUintptr"
| "accepts u ft (GFloat t f) \<longleftrightarrow> ft \<in> {IntegerFieldType, FloatFieldType}"
| "accepts u ft (GBool t b) \<longleftrightarrow> ft = BooleanFieldType"
| "accepts u ft (GPtr t r) \<longleftrightarrow> ft \<in> {NumericFieldType, BigNumericFieldType} \<and> t = Ptr typeRat"
| "accepts u ft (GTime t) \<longleftrightarrow> ft = TimestampFieldType"
| "accepts u ft (GDate d) \<longleftrightarrow> ft = DateFieldType"
| "accepts u ft (GCivilTime t) \<longleftrightarrow> ft = TimeFieldType"
| "accepts u ft (GDateTime d) \<longleftrightarrow> ft = DateTimeFieldType"
| "accepts u ft (GBytes t b) \<longleftrightarrow> ft = BytesFieldType \<or> ft = JSONFieldType \<and> t \<in> {typeRawMessage, typeByteSlice}"
| "accepts u ft v \<longleftrightarrow> False"

lemma accepted_accepts: "accepted_scalar u ft v = Inr y \<Longrightarrow> accepts u ft v"
  by (cases v; cases ft)
    (simp_all add: accepted_scalar_def needs_def accepted_rat_def marshalInteger_def split: if_splits)

text \<open>
  What the two conversions make of one value: the same, but for JSON text held in a
  \<open>json.RawMessage\<close>, which a struct turns into a string, or NULL where it is empty, and a map hands
  on as it is.
\<close>

definition same_value :: "conversion option \<Rightarrow> goval \<Rightarrow> bqval \<Rightarrow> bqval \<Rightarrow> bool" where
  "same_value c v x y \<longleftrightarrow>
     (if c = Some RawJSON
      then \<exists>text. v = GBytes typeRawMessage (Some text) \<and> y = BRawMessage text \<and> x = (if text = [] then BNil else BString text)
      else x = y)"

text \<open>The difference does not show in the JSON.\<close>

lemma same_value_renders:
  assumes "same_value c v x y" and "c = Some RawJSON \<longrightarrow> fs_Type field = JSONFieldType"
  shows "jsonElement L d x field = jsonElement L d y field"
  using assms by (auto simp: same_value_def jsonElement.simps jsonColumnValue_def split: if_splits)

lemma agree_on_scalars:
  assumes "wt u v" and "in_64_bits v" and "wellKnownType (deref (type_of v)) = None"
    and "kind_column u (type_of v) = Inr (ft, c, n)"
    and "(case c of Some conv \<Rightarrow> run_conversion G conv (False, v) | None \<Rightarrow> scalarValue u (Some v)) = Inr x"
    and "accepted_scalar u ft v = Inr y" and "\<not> nil_behind u v"
  shows "same_value c v x y" and "c = Some RawJSON \<longrightarrow> ft = JSONFieldType"
proof -
  note kinds = kind_column_of_kind[OF assms(4)]
  have "same_value c v x y \<and> (c = Some RawJSON \<longrightarrow> ft = JSONFieldType)"
    using accepted_accepts[OF assms(6)]
  proof (cases v)
    case (GBytes t b)
    with assms(1) have t: "kind_of u t = KSlice" "isByteSequence u t" by simp_all
    show ?thesis
    proof (cases "t = typeRawMessage")
      case True
      with kinds(8) t GBytes have "ft = JSONFieldType" "c = Some RawJSON" by auto
      with assms(5-7) True GBytes show ?thesis
        by (auto simp: accepted_scalar_def marshalRawMessage_def Interface_def same_value_def split: option.splits if_splits)
    next
      case False
      with kinds(8) t GBytes have "ft = BytesFieldType" "c = None" by auto
      with assms(5-7) GBytes show ?thesis by (simp add: accepted_scalar_def scalarValue_def same_value_def)
    qed
  next
    case (GUint t i)
    with accepted_accepts[OF assms(6)] have ft: "ft = IntegerFieldType" "kind_of u t \<noteq> KUintptr" by simp_all
    with assms(1) GUint kinds(5,6) have "kind_of u t \<in> {KUint8, KUint16, KUint32}" "c = None"
      by (auto simp: uint_kinds_def)
    with assms(2,5-7) ft GUint show ?thesis
      by (auto simp: accepted_scalar_def marshalInteger_def scalarValue_def int64FromUint64_iff same_value_def)
  next
    case (GFloat t f)
    with assms(1) kinds(7) have "ft = FloatFieldType" "c = None" by auto
    with assms(5-7) GFloat show ?thesis by (simp add: accepted_scalar_def scalarValue_def same_value_def)
  next
    case (GString t s)
    with assms(1) kinds(2) have "ft = StringFieldType" "c = None" by auto
    with assms(5-7) GString show ?thesis by (simp add: accepted_scalar_def scalarValue_def same_value_def)
  next
    case (GInt t i)
    with assms(1) kinds(4) have "ft = IntegerFieldType" "c = None" by auto
    with assms(5-7) GInt show ?thesis by (simp add: accepted_scalar_def scalarValue_def marshalInteger_def same_value_def)
  next
    case (GBool t b)
    with assms(1) kinds(3) have "ft = BooleanFieldType" "c = None" by auto
    with assms(5-7) GBool show ?thesis by (simp add: accepted_scalar_def scalarValue_def same_value_def)
  qed (use assms(3) in \<open>simp_all\<close>)
  then show "same_value c v x y" "c = Some RawJSON \<longrightarrow> ft = JSONFieldType" by simp_all
qed

lemma agree_on_well_known:
  assumes "wellKnownValue (False, v) = Inr x" and "wellKnownType (deref (type_of v)) = Some ft"
    and "accepted_scalar u ft v = Inr y" and "wt u v" and "universe_ok u" and "\<not> nil_behind u v"
  shows "x = y"
proof -
  have ft: "ft \<in> {TimestampFieldType, DateFieldType, TimeFieldType, DateTimeFieldType, NumericFieldType}"
    using assms(2) by (auto simp: wellKnownType_def split: if_splits)
  from accepted_accepts[OF assms(3)] show ?thesis
  proof (cases v)
    case (GPtr t r)
    with accepted_accepts[OF assms(3)] have t: "t = Ptr typeRat" by simp
    with assms(2) GPtr have "ft = NumericFieldType" by simp
    moreover from assms(4-6) GPtr t have "\<exists>q. r = Some (GRat q)"
      using wt_rat by (cases r) fastforce+
    ultimately show ?thesis
      using assms(1,3) GPtr t by (auto simp: wellKnownValue_def Interface_def accepted_scalar_def accepted_rat_def)
  qed (use ft assms(1,3) in \<open>auto simp: wellKnownValue_def Interface_def accepted_scalar_def\<close>)
qed

text \<open>The columns whose type the kind of the value settles.\<close>

lemma agree_by_kind:
  assumes "universe_ok (ge_types G)" and "wt (ge_types G) v" and "in_64_bits v" and "\<not> nil_pointer v"
    and "\<not> nil_behind (ge_types G) v" and None: "wellKnownType (deref (type_of v)) = None"
    and column: "kind_column (ge_types G) (deref (type_of v)) = Inr (fp_fieldType f, fp_marshal f, fp_nested f)"
    and accepted: "accepted_scalar (ge_types G) (fp_fieldType f) v = Inr y"
    and "marshalScalar G f (False, v) = Inr x"
  shows "same_value (fp_marshal f) v x y" and "fp_marshal f = Some RawJSON \<longrightarrow> fp_fieldType f = JSONFieldType"
proof -
  have "fp_nested f = None" by (rule kind_column_of_kind(1)[OF column])
  from None have "kind_of (ge_types G) (type_of v) \<noteq> KPointer"
    using accepted_accepts[OF accepted] assms(1,2) by (intro wt_nonpointer) auto
  then have "deref (type_of v) = type_of v" by (rule deref_nonpointer)
  with column have column: "kind_column (ge_types G) (type_of v) = Inr (fp_fieldType f, fp_marshal f, fp_nested f)"
    by simp
  have "derefValue v = Some v"
    using accepted_accepts[OF accepted] None by (cases v) auto
  with \<open>fp_nested f = None\<close> None assms(4,9) have
    "(case fp_marshal f of Some conv \<Rightarrow> run_conversion G conv (False, v) | None \<Rightarrow> scalarValue (ge_types G) (Some v)) = Inr x"
    by (simp add: marshalScalar.simps split: option.splits)
  from agree_on_scalars[OF assms(2,3) None column this accepted assms(5)]
  show "same_value (fp_marshal f) v x y" "fp_marshal f = Some RawJSON \<longrightarrow> fp_fieldType f = JSONFieldType" .
qed

lemma struct_and_map_values:
  assumes "universe_ok (ge_types G)" and "wt (ge_types G) v" and "in_64_bits v" and "\<not> nil_behind (ge_types G) v"
    and "resolveType rec (ge_types G) ms (type_of v) empty_tag = Some (Inr (fp_fieldType f, fp_marshal f, fp_nested f))"
    and "marshalScalar G f (False, v) = Inr x"
    and "mapPlan_marshalScalar G p field v = Inr y" and "mp_marshalers p = ms" and "fs_Type field = fp_fieldType f"
  shows "same_value (fp_marshal f) v x y \<and> (fp_marshal f = Some RawJSON \<longrightarrow> fp_fieldType f = JSONFieldType)"
proof (cases "lookup_marshaler ms (type_of v)")
  case (Some m)
  with assms(5) have "fp_marshal f = Some (Registered m)"
    by (auto simp: resolveType_def empty_tag_def split: if_splits)
  with Some assms(6-8) show ?thesis
    by (auto simp: marshalScalar.simps mapPlan_marshalScalar.simps same_value_def split: if_splits)
next
  case unregistered: None
  show ?thesis
  proof (cases "fieldMarshalerOf (ge_types G) (type_of v)")
    case (Some ft)
    with unregistered assms(5) have "fp_marshal f = Some OwnMarshaler"
      by (auto simp: resolveType_def empty_tag_def split: if_splits)
    with Some unregistered assms(6-8) show ?thesis
      by (auto simp: marshalScalar.simps mapPlan_marshalScalar.simps same_value_def split: if_splits)
  next
    case none: None
    from assms(4) have pointer: "\<not> nil_pointer v" by (cases v rule: nil_pointer.cases) auto
    show ?thesis
    proof (cases "wellKnownType (deref (type_of v))")
      case (Some ft)
      with unregistered none assms(5) have f: "fp_fieldType f = ft" "fp_marshal f = None" "fp_nested f = None"
        by (simp_all add: resolveType_def empty_tag_def)
      with Some pointer assms(6) have "wellKnownValue (False, v) = Inr x" by (simp add: marshalScalar.simps)
      moreover have "accepted_scalar (ge_types G) ft v = Inr y"
        using Some unregistered none assms(7-9) f(1)
        by (simp add: mapPlan_marshalScalar.simps marshalAccepted.simps wellKnownType_def split: if_splits)
      ultimately have "x = y" using agree_on_well_known[OF _ Some] assms(1,2,4) by blast
      with f(2) show ?thesis by (simp add: same_value_def)
    next
      case None
      with unregistered none assms(5) have column:
        "kind_column (ge_types G) (deref (type_of v)) = Inr (fp_fieldType f, fp_marshal f, fp_nested f)"
        by (simp add: resolveType_def empty_tag_def)
      have "fp_fieldType f \<noteq> RecordFieldType"
        using column by (auto simp: kind_column_def resolveJSON_def Let_def split: kind.splits if_splits)
      with unregistered none assms(7-9) have "accepted_scalar (ge_types G) (fp_fieldType f) v = Inr y"
        by (simp add: mapPlan_marshalScalar.simps marshalAccepted.simps)
      from agree_by_kind[OF assms(1-3) pointer assms(4) None column this assms(6)] show ?thesis by simp
    qed
  qed
qed


text \<open>JSON text: a string from a struct, the \<open>json.RawMessage\<close> itself from a map.\<close>

definition raw_field :: fieldPlan where
  "raw_field = FieldPlan ''body'' [0] False False False [] JSONFieldType (Some RawJSON) None"


section \<open>The interface\<close>

text \<open>
  A plan is ready for a schema when its rows may be written to a table of that schema. What a
  Sinker relies on: a row names no column twice, and none the schema does not have.
\<close>

locale row_converter =
  fixes ready :: "'p \<Rightarrow> Schema \<Rightarrow> bool"
    and convert :: "go_env \<Rightarrow> 'p \<Rightarrow> rvalue \<Rightarrow> gerr + row_values"
  assumes columns: "ready p s \<Longrightarrow> convert G p rv = Inr row \<Longrightarrow> distinct (map fst row) \<and> fst ` set row \<subseteq> fs_Name ` set s"
begin

lemma column_known:
  assumes "ready p s" and "convert G p rv = Inr row" and "(n, v) \<in> set row"
  shows "\<exists>f\<in>set s. fs_Name f = n"
  using columns[OF assms(1,2)] assms(3) by force

lemma no_such_column:
  assumes "ready p s" and "convert G p rv = Inr row"
  shows "jsonObject L d row s \<noteq> Inl (EMsg (EncodeSite (NoSuchColumn n)))"
proof
  let ?entry = "\<lambda>(name, x). case index_by fs_Name s name of
             None \<Rightarrow> Inl (EMsg (EncodeSite (NoSuchColumn name)))
           | Some field \<Rightarrow>
               map_error (EWrap (MarshalSite (InColumn name)))
                 (and_then (jsonValue L d x field) (\<lambda>rendered. Inr (name, rendered)))"
  assume "jsonObject L d row s = Inl (EMsg (EncodeSite (NoSuchColumn n)))"
  then have "traverse ?entry row = Inl (EMsg (EncodeSite (NoSuchColumn n)))"
    by (simp add: jsonObject.simps[of L d row s] Let_def)
  then obtain x where x: "x \<in> set row" "?entry x = Inl (EMsg (EncodeSite (NoSuchColumn n)))"
    by (rule traverse_error[THEN bexE])
  obtain m v where "x = (m, v)" by (cases x)
  with x have mv: "(m, v) \<in> set row" "?entry (m, v) = Inl (EMsg (EncodeSite (NoSuchColumn n)))"
    by simp_all
  from column_known[OF assms mv(1)] have "index_by fs_Name s m \<noteq> None" by (auto simp: index_by_None)
  with mv(2) show False by (auto simp: map_error_Inl split: option.splits)
qed

end

section \<open>The two plans\<close>

definition struct_ready :: "rowPlan \<Rightarrow> Schema \<Rightarrow> bool" where
  "struct_ready p s \<longleftrightarrow> plan_ok p \<and> set (columnNames p) \<subseteq> fs_Name ` set s"

definition map_ready :: "mapPlan \<Rightarrow> Schema \<Rightarrow> bool" where
  "map_ready p s \<longleftrightarrow> mp_schema p = s"

lemma foldl_map_put_names:
  "fst ` set (foldl (\<lambda>m (k, v). map_put k v m) base xs) = fst ` set base \<union> fst ` set xs"
proof (induction xs arbitrary: base)
  case (Cons x xs)
  obtain k v where x: "x = (k, v)" by (cases x)
  have "set (map fst (map_put k v base)) = insert k (set (map fst base))"
    by (auto simp: map_put_keys)
  with Cons x show ?case by simp
qed simp

interpretation structs: row_converter struct_ready marshalRow
proof unfold_locales
  fix p s G rv row assume "struct_ready p s" "marshalRow G p rv = Inr row"
  then have ok: "plan_ok p" and row: "marshalRow G p rv = Inr row" and names: "set (columnNames p) \<subseteq> fs_Name ` set s"
    by (simp_all add: struct_ready_def)
  from row ok obtain vals where "row = zip (columnNames p) vals" "length vals = length (rp_fields p)"
    by (rule marshalRow_Inr) (auto dest: list_all2_lengthD)
  then have "map fst row = columnNames p" by (simp add: columnNames_def)
  with names ok show "distinct (map fst row) \<and> fst ` set row \<subseteq> fs_Name ` set s"
    by (simp add: plan_ok_iff flip: set_map)
qed

interpretation maps: row_converter map_ready mapPlan_marshalRow
proof unfold_locales
  fix p s G rv row assume ready: "map_ready p s" and "mapPlan_marshalRow G p rv = Inr row"
  from this(2) obtain m where "marshalMap G p m = Inr row" by (rule mapPlan_marshalRow_Inr)
  then obtain entries where made: "list_all2 (\<lambda>f e. map_error (EWrap (MarshalSite (InColumn (fs_Name f))))
      (and_then (marshalField G p f m) (\<lambda>v. Inr (fs_Name f, v))) = Inr e) (mp_schema p) entries"
    and row: "row = foldl (\<lambda>out (name, value). map_put name value out) [] entries"
    by (auto simp: marshalMap.simps[of G p m] guarded_Inr and_then_Inr traverse_Inr_iff)
  from made have "list_all2 (\<lambda>f e. fst e = fs_Name f) (mp_schema p) entries"
    by (rule list_all2_mono) (auto simp: result_simps)
  then have "map fst entries = map fs_Name (mp_schema p)"
    by (auto simp: list_all2_conv_all_nth intro: nth_equalityI)
  then have "fst ` set entries = fs_Name ` set (mp_schema p)" by (simp flip: set_map)
  with row ready show "distinct (map fst row) \<and> fst ` set row \<subseteq> fs_Name ` set s"
    by (simp add: foldl_map_put_names foldl_map_put_distinct map_ready_def)
qed

text \<open>A value of the interface holds one of the two, and its method is that one's.\<close>

datatype rowConverter = StructRows rowPlan | MapRows mapPlan

fun converter_marshalRow :: "go_env \<Rightarrow> rowConverter \<Rightarrow> rvalue \<Rightarrow> gerr + row_values" where
  "converter_marshalRow G (StructRows p) rv = marshalRow G p rv"
| "converter_marshalRow G (MapRows p) rv = mapPlan_marshalRow G p rv"

fun converter_ready :: "rowConverter \<Rightarrow> Schema \<Rightarrow> bool" where
  "converter_ready (StructRows p) s \<longleftrightarrow> struct_ready p s"
| "converter_ready (MapRows p) s \<longleftrightarrow> map_ready p s"

interpretation converters: row_converter converter_ready converter_marshalRow
proof unfold_locales
  fix p s G rv row
  show "converter_ready p s \<Longrightarrow> converter_marshalRow G p rv = Inr row \<Longrightarrow> distinct (map fst row) \<and> fst ` set row \<subseteq> fs_Name ` set s"
    using structs.columns maps.columns by (cases p) auto
qed

end
