(* ===== verification/Declarations.thy ===== *)
theory Declarations
  imports Converters
begin

text \<open>
  The declarations of bqsink.go: what a row type, or table metadata given at run time, says the
  table should hold; and how the tags and a type's own \<open>BigQueryTableMetadata\<close> are folded
  into one description of the table.
\<close>

section \<open>Schema and metadata\<close>

definition checkPlanAgainstSchema :: "rowPlan \<Rightarrow> Schema \<Rightarrow> gerr option" where
  "checkPlanAgainstSchema p schema =
     (let missing = filter (\<lambda>name. name \<notin> fs_Name ` set schema) (columnNames p)
      in if missing = [] then None else Some (EMsg (SinkerSite (MissingColumns (rp_goType p) missing))))"

definition resolveSchema :: "TableMetadata option \<Rightarrow> rowPlan \<Rightarrow> gerr + Schema" where
  "resolveSchema md p =
     (case md of
        None \<Rightarrow> Inr (plan_schema p)
      | Some m \<Rightarrow>
          (case md_Schema m of
             None \<Rightarrow> Inr (plan_schema p)
           | Some declared \<Rightarrow> guarded (checkPlanAgainstSchema p declared) (Inr declared)))"

definition sets_already :: "rowPlan \<Rightarrow> string \<Rightarrow> gerr + 'a" where
  "sets_already p what = Inl (EMsg (SinkerSite (SetsAlready (rp_goType p) what)))"

text \<open>\<open>resolveTableMetadata\<close>, its four steps in the order of the source.\<close>

definition fold_partitioning :: "rowPlan \<Rightarrow> TableMetadata \<Rightarrow> gerr + TableMetadata" where
  "fold_partitioning p out =
     (case rp_partitioning p of
        None \<Rightarrow> Inr out
      | Some tp \<Rightarrow>
          if md_TimePartitioning out \<noteq> None then sets_already p ''TimePartitioning''
          else if md_RangePartitioning out \<noteq> None then sets_already p ''RangePartitioning''
          else Inr (out\<lparr>md_TimePartitioning := Some tp,
                        md_RequirePartitionFilter := rp_requireFilter p \<or> md_RequirePartitionFilter out\<rparr>))"

definition fold_description :: "rowPlan \<Rightarrow> TableMetadata \<Rightarrow> gerr + TableMetadata" where
  "fold_description p out =
     (if rp_description p = [] then Inr out
      else if md_Description out \<noteq> [] then sets_already p ''Description''
      else Inr (out\<lparr>md_Description := rp_description p\<rparr>))"

definition fold_labels :: "rowPlan \<Rightarrow> TableMetadata \<Rightarrow> gerr + TableMetadata" where
  "fold_labels p out =
     (if rp_labels p = [] then Inr out
      else if md_Labels out \<noteq> [] then sets_already p ''Labels''
      else Inr (out\<lparr>md_Labels := rp_labels p\<rparr>))"

definition fold_clustering :: "rowPlan \<Rightarrow> TableMetadata \<Rightarrow> gerr + TableMetadata" where
  "fold_clustering p out =
     (case rp_clustering p of
        None \<Rightarrow> Inr out
      | Some names \<Rightarrow>
          if md_Clustering out \<noteq> None then sets_already p ''Clustering''
          else Inr (out\<lparr>md_Clustering := Some names\<rparr>))"

definition resolveTableMetadata :: "TableMetadata option \<Rightarrow> rowPlan \<Rightarrow> gerr + TableMetadata option" where
  "resolveTableMetadata md p =
     (if rp_partitioning p = None \<and> rp_clustering p = None \<and> rp_description p = [] \<and> rp_labels p = [] then Inr md
      else and_then (fold_partitioning p (case md of None \<Rightarrow> empty_metadata | Some m \<Rightarrow> m)) (\<lambda>out1.
           and_then (fold_description p out1) (\<lambda>out2.
           and_then (fold_labels p out2) (\<lambda>out3.
           and_then (fold_clustering p out3) (\<lambda>out4. Inr (Some out4))))))"

section \<open>Declarations\<close>

record Declaration =
  decl_rowType :: "rtype option"
  decl_plan :: "rowConverter option"
  decl_schema :: Schema
  decl_metadata :: "TableMetadata option"
  decl_fills :: bool
  decl_err :: "gerr option"

text \<open>\<open>Declaration{}\<close> and \<open>Declaration{err: err}\<close>.\<close>

definition zero_Declaration :: Declaration where
  "zero_Declaration = \<lparr>decl_rowType = None, decl_plan = None, decl_schema = [], decl_metadata = None,
     decl_fills = False, decl_err = None\<rparr>"

definition failed_Declaration :: "gerr \<Rightarrow> Declaration" where
  "failed_Declaration err = zero_Declaration\<lparr>decl_err := Some err\<rparr>"

definition declared :: "types \<Rightarrow> rtype \<Rightarrow> rowPlan \<Rightarrow> gerr + Declaration" where
  "declared u rt p =
     (let rawMetadata = tableMetadataOf u rt
      in and_then (resolveSchema rawMetadata p) (\<lambda>schema.
         and_then (resolveTableMetadata rawMetadata p) (\<lambda>metadata.
         and_then (checkRowFiller u rt) (\<lambda>fills.
           Inr \<lparr>decl_rowType = Some rt, decl_plan = Some (StructRows p), decl_schema = schema,
                decl_metadata = metadata, decl_fills = fills, decl_err = None\<rparr>))))"

fun carrying_error :: "gerr + Declaration \<Rightarrow> Declaration" where
  "carrying_error (Inl err) = failed_Declaration err"
| "carrying_error (Inr d) = d"

text \<open>\<open>None\<close> where building the plan does not return within \<open>n\<close> levels of RECORD columns.\<close>

definition declarationOf :: "nat \<Rightarrow> types \<Rightarrow> rtype \<Rightarrow> Marshalers option \<Rightarrow> Declaration option" where
  "declarationOf n u rt ms =
     (case buildRowPlan n u ms rt of
        None \<Rightarrow> None
      | Some (Inl err) \<Rightarrow> Some (failed_Declaration err)
      | Some (Inr p) \<Rightarrow> Some (carrying_error (declared u rt p)))"

definition DeclarationOf :: "nat \<Rightarrow> types \<Rightarrow> rtype \<Rightarrow> Marshalers option list \<Rightarrow> Declaration option" where
  "DeclarationOf n u rt marshalers = declarationOf n u rt (joinMarshalers marshalers)"

definition DeclarationFromMetadata :: "TableMetadata option \<Rightarrow> Marshalers option list \<Rightarrow> Declaration" where
  "DeclarationFromMetadata md marshalers =
     (case md of
        None \<Rightarrow> failed_Declaration (EMsg (SinkerSite MetadataIsNil))
      | Some m \<Rightarrow>
          if columns_of m = [] then failed_Declaration (EMsg (SinkerSite MetadataHasNoSchema))
          else (case buildMapPlan (columns_of m) (joinMarshalers marshalers) of
             Inl err \<Rightarrow> failed_Declaration err
           | Inr p \<Rightarrow>
               \<lparr>decl_rowType = Some typeMapStringAny, decl_plan = Some (MapRows p), decl_schema = columns_of m,
                decl_metadata = Some (m\<lparr>md_Schema := Some (columns_of m)\<rparr>), decl_fills = False, decl_err = None\<rparr>))"

section \<open>What a declaration without an error holds\<close>

lemma checkPlanAgainstSchema_None:
  "checkPlanAgainstSchema p s = None \<longleftrightarrow> set (columnNames p) \<subseteq> fs_Name ` set s"
  by (auto simp: checkPlanAgainstSchema_def Let_def filter_empty_conv)

lemma resolveSchema_ready:
  assumes "plan_ok p" and "resolveSchema md p = Inr s"
  shows "converter_ready (StructRows p) s"
proof -
  have "fs_Name ` set (plan_schema p) = set (columnNames p)"
    using namesOf_plan[of p] by (metis set_namesOf)
  with assms show ?thesis
    by (auto simp: resolveSchema_def struct_ready_def guarded_Inr checkPlanAgainstSchema_None split: option.splits)
qed

lemma plans_for_metadata: "buildMapPlan s ms = Inr p \<Longrightarrow> mp_schema p = s"
  by (auto simp: buildMapPlan_def guarded_Inr and_then_Inr)

definition sound_declaration :: "Declaration \<Rightarrow> bool" where
  "sound_declaration d \<longleftrightarrow> (decl_err d = None \<longrightarrow>
     (\<exists>rt p. decl_rowType d = Some rt \<and> decl_plan d = Some p \<and> converter_ready p (decl_schema d)))"

lemma failed_sound [simp]: "sound_declaration (failed_Declaration err)"
  by (simp add: sound_declaration_def failed_Declaration_def)

lemma declarationOf_sound:
  assumes "declarationOf n u rt ms = Some d"
  shows "sound_declaration d"
proof -
  consider (failed) err where "d = failed_Declaration err"
    | (built) p s where "buildRowPlan n u ms rt = Some (Inr p)" "resolveSchema (tableMetadataOf u rt) p = Inr s"
        "decl_rowType d = Some rt" "decl_plan d = Some (StructRows p)" "decl_schema d = s"
  proof (cases "buildRowPlan n u ms rt")
    case None
    with assms show ?thesis by (simp add: declarationOf_def)
  next
    case (Some r)
    show ?thesis
    proof (cases r)
      case (Inl err)
      with Some assms failed show ?thesis by (auto simp: declarationOf_def)
    next
      case (Inr p)
      with Some assms have d: "d = carrying_error (declared u rt p)" by (simp add: declarationOf_def)
      show ?thesis
      proof (cases "declared u rt p")
        case (Inl err)
        with d failed show ?thesis by auto
      next
        case (Inr d')
        with d Some \<open>r = Inr p\<close> built show ?thesis by (auto simp: declared_def Let_def and_then_Inr)
      qed
    qed
  qed
  then show ?thesis
  proof cases
    case built
    have "plan_ok p" using built(1) built_plan_ok by (auto simp: buildRowPlan_Inr)
    from resolveSchema_ready[OF this built(2)] built(3-5) show ?thesis by (simp add: sound_declaration_def)
  qed simp
qed

lemma DeclarationFromMetadata_sound: "sound_declaration (DeclarationFromMetadata md ms)"
  by (auto simp: DeclarationFromMetadata_def sound_declaration_def failed_Declaration_def zero_Declaration_def
      map_ready_def plans_for_metadata split: option.splits sum.splits)

section \<open>The table is described once\<close>

definition given :: "TableMetadata option \<Rightarrow> TableMetadata" where
  "given md = (case md of None \<Rightarrow> empty_metadata | Some m \<Rightarrow> m)"

text \<open>No setting of the table is given both by tags and by metadata.\<close>

definition described_once :: "rowPlan \<Rightarrow> TableMetadata \<Rightarrow> bool" where
  "described_once p m \<longleftrightarrow>
     (rp_partitioning p = None \<or> md_TimePartitioning m = None \<and> md_RangePartitioning m = None)
     \<and> (rp_clustering p = None \<or> md_Clustering m = None)
     \<and> (rp_description p = [] \<or> md_Description m = [])
     \<and> (rp_labels p = [] \<or> md_Labels m = [])"

text \<open>What the metadata says, with what the tags say where it says nothing.\<close>

definition described :: "rowPlan \<Rightarrow> TableMetadata \<Rightarrow> TableMetadata" where
  "described p m =
     m\<lparr>md_TimePartitioning := (if rp_partitioning p = None then md_TimePartitioning m else rp_partitioning p),
       md_RequirePartitionFilter := (md_RequirePartitionFilter m \<or> rp_partitioning p \<noteq> None \<and> rp_requireFilter p),
       md_Description := (if rp_description p = [] then md_Description m else rp_description p),
       md_Labels := (if rp_labels p = [] then md_Labels m else rp_labels p),
       md_Clustering := (if rp_clustering p = None then md_Clustering m else rp_clustering p)\<rparr>"

text \<open>
  C33: a setting of the table has one source. Where tags and metadata both settle partitioning,
  clustering, the description or the labels, the declaration fails; otherwise the table gets
  every setting of the metadata as it is, and those of the tags beside them.
\<close>

theorem table_is_described_once:
  "resolveTableMetadata md p = Inr out \<longleftrightarrow> described_once p (given md)
     \<and> out = (if rp_partitioning p = None \<and> rp_clustering p = None \<and> rp_description p = [] \<and> rp_labels p = []
              then md else Some (described p (given md)))"
proof (cases "rp_partitioning p = None \<and> rp_clustering p = None \<and> rp_description p = [] \<and> rp_labels p = []")
  case True
  then show ?thesis by (auto simp: resolveTableMetadata_def described_once_def)
next
  case False
  define m1 where "m1 = (if rp_partitioning p = None then given md else (given md)\<lparr>md_TimePartitioning := rp_partitioning p,
      md_RequirePartitionFilter := rp_requireFilter p \<or> md_RequirePartitionFilter (given md)\<rparr>)"
  define m2 where "m2 = (if rp_description p = [] then m1 else m1\<lparr>md_Description := rp_description p\<rparr>)"
  define m3 where "m3 = (if rp_labels p = [] then m2 else m2\<lparr>md_Labels := rp_labels p\<rparr>)"
  define m4 where "m4 = (if rp_clustering p = None then m3 else m3\<lparr>md_Clustering := rp_clustering p\<rparr>)"
  have step1: "fold_partitioning p (given md) = Inr o1 \<longleftrightarrow>
      (rp_partitioning p = None \<or> md_TimePartitioning (given md) = None \<and> md_RangePartitioning (given md) = None) \<and> o1 = m1" for o1
    by (auto simp: fold_partitioning_def m1_def sets_already_def split: option.splits)
  have step2: "fold_description p m1 = Inr o2 \<longleftrightarrow> (rp_description p = [] \<or> md_Description (given md) = []) \<and> o2 = m2" for o2
    by (auto simp: fold_description_def m1_def m2_def sets_already_def)
  have step3: "fold_labels p m2 = Inr o3 \<longleftrightarrow> (rp_labels p = [] \<or> md_Labels (given md) = []) \<and> o3 = m3" for o3
    by (auto simp: fold_labels_def m1_def m2_def m3_def sets_already_def)
  have step4: "fold_clustering p m3 = Inr o4 \<longleftrightarrow> (rp_clustering p = None \<or> md_Clustering (given md) = None) \<and> o4 = m4" for o4
    by (auto simp: fold_clustering_def m1_def m2_def m3_def m4_def sets_already_def split: option.splits)
  have m4: "m4 = described p (given md)"
    by (simp add: m4_def m3_def m2_def m1_def described_def disj_commute)
  have eq: "resolveTableMetadata md p = and_then (fold_partitioning p (given md)) (\<lambda>out1.
           and_then (fold_description p out1) (\<lambda>out2.
           and_then (fold_labels p out2) (\<lambda>out3.
           and_then (fold_clustering p out3) (\<lambda>out4. Inr (Some out4)))))"
    unfolding resolveTableMetadata_def given_def by (rule if_not_P[OF False])
  have "resolveTableMetadata md p = Inr out \<longleftrightarrow> described_once p (given md) \<and> out = Some m4"
    unfolding eq by (auto simp: and_then_Inr step1 step2 step3 step4 described_once_def)
  then show ?thesis unfolding m4 if_not_P[OF False] .
qed

end
