(* ===== verification/Retry.thy ===== *)
theory Retry
  imports Schemas "HOL-Library.While_Combinator"
begin

text \<open>
  Which failures are retried and how often: the classification of errors and the default
  policy of migration.go, and \<open>retrying\<close> of bqsink.go. The loop itself is \<open>gax.Invoke\<close> of
  another module, so it is a parameter; \<open>gax_contract\<close> states what its documentation promises.
\<close>

section \<open>The state effects act on\<close>

text \<open>What lies outside the program, and the records logged so far, oldest first.\<close>

record 'w env =
  world :: 'w
  logs :: "log_event list"

definition log_add :: "log_event \<Rightarrow> 'w env \<Rightarrow> 'w env" where
  "log_add l env = env\<lparr>logs := logs env @ [l]\<rparr>"

definition log_all :: "log_event list \<Rightarrow> 'w env \<Rightarrow> 'w env" where
  "log_all ls env = env\<lparr>logs := logs env @ ls\<rparr>"

text \<open>Calling something that acts on the world alone.\<close>

definition on_world :: "('w \<Rightarrow> 'a \<times> 'w) \<Rightarrow> 'w env \<Rightarrow> 'a \<times> 'w env" where
  "on_world f env = (let (a, w) = f (world env) in (a, env\<lparr>world := w\<rparr>))"

lemma log_sel [simp]:
  "world (log_add l env) = world env"
  "logs (log_add l env) = logs env @ [l]"
  "world (log_all ls env) = world env"
  "logs (log_all ls env) = logs env @ ls"
  by (simp_all add: log_add_def log_all_def)

lemma env_eq_iff: "e = e' \<longleftrightarrow> world e = world e' \<and> logs e = logs (e' :: 'w env)"
  by (cases e; cases e') simp

lemma on_world_eq:
  "on_world f env = (a, env') \<longleftrightarrow> f (world env) = (a, world env') \<and> logs env' = logs env"
  by (auto simp: on_world_def split: prod.splits)

section \<open>Classification\<close>

definition isNotFound :: "gerr \<Rightarrow> bool" where
  "isNotFound err \<longleftrightarrow> errors_As_api err = Some 404"

definition isConcurrentChange :: "gerr \<Rightarrow> bool" where
  "isConcurrentChange err \<longleftrightarrow>
     (case errors_As_api err of None \<Rightarrow> False | Some code \<Rightarrow> code = 412 \<or> code = 409)"

definition isRetryable :: "gerr option \<Rightarrow> bool" where
  "isRetryable err =
     (case err of
        None \<Rightarrow> False
      | Some e \<Rightarrow>
          if isConcurrentChange e then True
          else if (case errors_As_api e of None \<Rightarrow> False | Some code \<Rightarrow> code \<in> {429, 500, 502, 503, 504}) then True
          else status_Code e \<in> {Unavailable, DeadlineExceeded, ResourceExhausted, Internal, Aborted})"

lemma isRetryable_wrap [simp]: "isRetryable (Some (EWrap s e)) \<longleftrightarrow> isRetryable (Some e)"
  by (simp add: isRetryable_def isConcurrentChange_def)

section \<open>The policy\<close>

text \<open>
  \<open>gax.Retryer\<close>: a state and its method \<open>Retry\<close>, which gives the pause, \<open>None\<close> for false.
\<close>

type_synonym 'r retry_method = "'r \<Rightarrow> gerr \<Rightarrow> int option \<times> 'r"

definition migrateMaxRetries :: nat where
  "migrateMaxRetries = 4"

record 'r attemptLimiter =
  al_retryer :: 'r
  al_retries :: nat
  al_max :: nat

definition attemptLimiter_Retry :: "'r retry_method \<Rightarrow> 'r attemptLimiter retry_method" where
  "attemptLimiter_Retry retry l err =
     (if al_retries l \<ge> al_max l then (None, l)
      else (let (d, r) = retry (al_retryer l) err
            in (d, l\<lparr>al_retries := al_retries l + 1, al_retryer := r\<rparr>)))"

text \<open>
  \<open>DefaultRetryPolicy\<close>, given what \<open>gax.OnErrorFunc(migrateBackoff, isRetryable)\<close> returns:
  its \<open>Retry\<close> method and its state.
\<close>

definition DefaultRetryPolicy :: "'r retry_method \<Rightarrow> 'r \<Rightarrow> 'r attemptLimiter retry_method \<times> 'r attemptLimiter" where
  "DefaultRetryPolicy onError r =
     (attemptLimiter_Retry onError, \<lparr>al_retryer = r, al_retries = 0, al_max = migrateMaxRetries\<rparr>)"

text \<open>
  What gax documents of \<open>OnErrorFunc\<close>: it retries if and only if the error satisfies the
  predicate it was given.
\<close>

definition on_error_func :: "(gerr option \<Rightarrow> bool) \<Rightarrow> 'r retry_method \<Rightarrow> bool" where
  "on_error_func should retry \<longleftrightarrow> (\<forall>r e. fst (retry r e) \<noteq> None \<longleftrightarrow> should (Some e))"

section \<open>The loop\<close>

text \<open>
  \<open>gax.Invoke(ctx, call, gax.WithRetry(newRetryer))\<close>, with \<open>newRetryer\<close> already applied:
  the call, the policy's method and state, and the state the call acts on.
\<close>

type_synonym ('s, 'r) invoker =
  "('s \<Rightarrow> gerr option \<times> 's) \<Rightarrow> 'r retry_method \<Rightarrow> 'r \<Rightarrow> 's \<Rightarrow> gerr option \<times> 's"

definition same_kind :: "gerr \<Rightarrow> gerr \<Rightarrow> bool" where
  "same_kind e e' \<longleftrightarrow> (\<forall>k. errors_Is e k = errors_Is e' k)"

text \<open>
  The documented behaviour: the call is made; success is returned; after a failure the policy
  is asked, and where it says no the failure is returned (possibly wrapped); where it says yes
  the call is made again, unless the wait was interrupted, which returns some error.
\<close>

definition gax_contract :: "('s, 'r) invoker \<Rightarrow> bool" where
  "gax_contract invoke \<longleftrightarrow>
     (\<forall>call retry r s. case call s of
        (None, s') \<Rightarrow> invoke call retry r s = (None, s')
      | (Some e, s') \<Rightarrow>
          (case retry r e of
             (None, r') \<Rightarrow> \<exists>e'. same_kind e' e \<and> invoke call retry r s = (Some e', s')
           | (Some d, r') \<Rightarrow> (\<exists>e'. invoke call retry r s = (Some e', s'))
                \<or> invoke call retry r s = invoke call retry r' s'))"

text \<open>The closure \<open>call\<close> of \<open>retrying\<close>: its captured variables come first in the state.\<close>

definition retry_call :: "string \<Rightarrow> ('w env \<Rightarrow> gerr option \<times> 'w env) \<Rightarrow>
    nat \<times> gerr option \<times> 'w env \<Rightarrow> gerr option \<times> nat \<times> gerr option \<times> 'w env" where
  "retry_call what op =
     (\<lambda>(attempt, lastErr, env).
        let env1 = (case lastErr of None \<Rightarrow> env | Some e \<Rightarrow> log_add (Retrying what attempt e) env);
            (err, env2) = op env1
        in (err, attempt + 1, err, env2))"

definition retrying :: "(nat \<times> gerr option \<times> 'w env, 'r) invoker \<Rightarrow> string \<Rightarrow>
    ('r retry_method \<times> 'r) option \<Rightarrow> ('w env \<Rightarrow> gerr option \<times> 'w env) \<Rightarrow>
    'w env \<Rightarrow> gerr option \<times> 'w env" where
  "retrying invoke what newRetryer op env =
     (case newRetryer of
        None \<Rightarrow> op env
      | Some (retry, r) \<Rightarrow>
          (let (err, attempt, lastErr, env') = invoke (retry_call what op) retry r (0, None, env)
           in (err, env')))"

section \<open>Runs of an operation\<close>

text \<open>
  \<open>runs what op k prev env n err env'\<close>: starting after \<open>k\<close> attempts, the last of which ended
  with \<open>prev\<close>, the operation is run \<open>n\<close> more times, each run but the first announced in the
  log, each failing with a retryable error but the last, which ends with \<open>err\<close>.
\<close>

inductive runs :: "string \<Rightarrow> ('w env \<Rightarrow> gerr option \<times> 'w env) \<Rightarrow> nat \<Rightarrow> gerr option \<Rightarrow> 'w env \<Rightarrow>
    nat \<Rightarrow> gerr option \<Rightarrow> 'w env \<Rightarrow> bool"
  for what op where
  last_run: "retry_call what op (k, prev, env) = (err, k', err, env') \<Longrightarrow> runs what op k prev env 1 err env'"
| retry_run: "retry_call what op (k, prev, env) = (Some e, k', Some e, env1) \<Longrightarrow> isRetryable (Some e) \<Longrightarrow>
    runs what op k' (Some e) env1 n err env' \<Longrightarrow> runs what op k prev env (Suc n) err env'"

lemma retry_call_shape:
  "\<exists>err env'. retry_call what op (k, prev, env) = (err, Suc k, err, env')"
  by (auto simp: retry_call_def Let_def split: prod.splits)

lemma runs_at_least_once: "runs what op k prev env n err env' \<Longrightarrow> 1 \<le> n"
  by (induction rule: runs.induct) auto

lemma gax_contractD:
  assumes "gax_contract invoke"
  shows "call s = (None, s') \<Longrightarrow> invoke call retry r s = (None, s')"
    and "call s = (Some e, s') \<Longrightarrow> retry r e = (None, r') \<Longrightarrow>
           \<exists>e'. same_kind e' e \<and> invoke call retry r s = (Some e', s')"
    and "call s = (Some e, s') \<Longrightarrow> retry r e = (Some d, r') \<Longrightarrow>
           (\<exists>e'. invoke call retry r s = (Some e', s')) \<or> invoke call retry r s = invoke call retry r' s'"
  using assms[unfolded gax_contract_def, THEN spec[of _ call], THEN spec[of _ retry],
    THEN spec[of _ r], THEN spec[of _ s]] by auto

lemma attemptLimiter_Retry_cases:
  assumes "on_error_func isRetryable inner"
  obtains (stop) l' where "attemptLimiter_Retry inner l e = (None, l')"
      "al_retries l \<ge> al_max l \<or> \<not> isRetryable (Some e)"
    | (again) d l' where "attemptLimiter_Retry inner l e = (Some d, l')" "isRetryable (Some e)"
      "al_retries l < al_max l" "al_retries l' = Suc (al_retries l)" "al_max l' = al_max l"
proof (cases "al_retries l \<ge> al_max l")
  case True
  then show ?thesis using stop by (simp add: attemptLimiter_Retry_def)
next
  case False
  obtain d r where inner: "inner (al_retryer l) e = (d, r)" by force
  with assms have "d \<noteq> None \<longleftrightarrow> isRetryable (Some e)"
    by (metis fst_conv on_error_func_def)
  with False inner show ?thesis
    using stop again by (cases d) (auto simp: attemptLimiter_Retry_def)
qed

text \<open>
  Under the default policy an operation is run at most as often as retries are left, plus once;
  the result is nil exactly when the last run succeeded, and a failure that is not retryable
  comes back as it is.
\<close>

definition run_outcome :: "gerr option \<Rightarrow> gerr option \<Rightarrow> bool" where
  "run_outcome err res \<longleftrightarrow> (res = None \<longleftrightarrow> err = None)
     \<and> (\<forall>e. err = Some e \<and> \<not> isRetryable (Some e) \<longrightarrow> (\<exists>e'. res = Some e' \<and> same_kind e' e))"

lemma invoke_runs:
  assumes contract: "gax_contract invoke" and onerr: "on_error_func isRetryable inner"
  shows "\<exists>n err res env' st. n \<le> Suc (al_max l - al_retries l) \<and> runs what op k prev env n err env'
      \<and> invoke (retry_call what op) (attemptLimiter_Retry inner) l (k, prev, env) = (res, st, err, env')
      \<and> run_outcome err res"
proof (induction "al_max l - al_retries l" arbitrary: l k prev env rule: less_induct)
  case less
  obtain err env1 where call: "retry_call what op (k, prev, env) = (err, Suc k, err, env1)"
    using retry_call_shape by blast
  have once: ?case if "invoke (retry_call what op) (attemptLimiter_Retry inner) l (k, prev, env)
      = (res, Suc k, err, env1)" and "run_outcome err res" for res
    using that last_run[OF call]
    by (intro exI[of _ 1] exI[of _ err] exI[of _ res] exI[of _ env1] exI[of _ "Suc k"]) simp
  note D = gax_contractD[OF contract, where call = "retry_call what op" and s = "(k, prev, env)"
      and retry = "attemptLimiter_Retry inner" and r = l]
  show ?case
  proof (cases err)
    case None
    with D(1) call once[of None] show ?thesis by (simp add: run_outcome_def)
  next
    case (Some e)
    note call = call[unfolded Some]
    from onerr show ?thesis
    proof (cases rule: attemptLimiter_Retry_cases[where l = l and e = e])
      case (stop l')
      with D(2)[OF call] obtain e' where "same_kind e' e"
        "invoke (retry_call what op) (attemptLimiter_Retry inner) l (k, prev, env) = (Some e', Suc k, err, env1)"
        using Some by blast
      with once[of "Some e'"] Some show ?thesis by (auto simp: run_outcome_def)
    next
      case (again d l')
      from D(3)[OF call again(1)] show ?thesis
      proof
        assume "\<exists>e'. invoke (retry_call what op) (attemptLimiter_Retry inner) l (k, prev, env)
            = (Some e', Suc k, Some e, env1)"
        with again(2) Some once show ?thesis by (auto simp: run_outcome_def)
      next
        assume eq: "invoke (retry_call what op) (attemptLimiter_Retry inner) l (k, prev, env)
            = invoke (retry_call what op) (attemptLimiter_Retry inner) l' (Suc k, Some e, env1)"
        have "al_max l' - al_retries l' < al_max l - al_retries l"
          using again by simp
        from less[OF this, of "Suc k" "Some e" env1] obtain n err' res env' st where
          n: "n \<le> Suc (al_max l' - al_retries l')" "runs what op (Suc k) (Some e) env1 n err' env'"
          and rest: "invoke (retry_call what op) (attemptLimiter_Retry inner) l' (Suc k, Some e, env1) = (res, st, err', env')"
            "run_outcome err' res"
          by blast
        have "runs what op k prev env (Suc n) err' env'"
          by (rule retry_run[OF call again(2) n(2)])
        moreover have "Suc n \<le> Suc (al_max l - al_retries l)"
          using n(1) again by simp
        ultimately show ?thesis using rest eq by metis
      qed
    qed
  qed
qed

text \<open>
  C16: under the default policy an operation is run at least once and at most five times; every
  run but the last failed in a way a later attempt could get past, and is announced by a
  record on the way into the next; the outcome is nil exactly when the last run succeeded; and
  an error that is not retryable ends the loop and comes back still wrapping what it wrapped.
\<close>

theorem default_retries_bounded:
  assumes "gax_contract invoke" and "on_error_func isRetryable inner"
    and "retrying invoke what (Some (DefaultRetryPolicy inner r)) op env = (res, env')"
  shows "\<exists>n err. 1 \<le> n \<and> n \<le> 5 \<and> runs what op 0 None env n err env' \<and> (res = None \<longleftrightarrow> err = None)
    \<and> (\<forall>e. err = Some e \<and> \<not> isRetryable (Some e) \<longrightarrow> (\<exists>e'. res = Some e' \<and> same_kind e' e))"
proof -
  let ?l = "\<lparr>al_retryer = r, al_retries = 0, al_max = migrateMaxRetries\<rparr>"
  obtain n err res' env1 st where run: "n \<le> Suc (al_max ?l - al_retries ?l)" "runs what op 0 None env n err env1"
    and inv: "invoke (retry_call what op) (attemptLimiter_Retry inner) ?l (0, None, env) = (res', st, err, env1)"
    and out: "run_outcome err res'"
    using invoke_runs[OF assms(1,2), of ?l what op 0 None env] by blast
  have eq: "res' = res" "env1 = env'"
    using assms(3) inv by (simp_all add: retrying_def DefaultRetryPolicy_def)
  have "n \<le> 5" using run(1) by (simp add: migrateMaxRetries_def)
  with run(2) out[unfolded eq run_outcome_def] runs_at_least_once[OF run(2)] show ?thesis
    unfolding eq by blast
qed

text \<open>
  A loop that keeps the contract: its wait is never interrupted and it returns the call's own
  error. A policy that always says yes would keep it from returning; that case gives any error.
\<close>

definition gax_loop :: "('s, 'r) invoker" where
  "gax_loop call retry r s =
     (case while_option (\<lambda>(r, err, s). case err of None \<Rightarrow> False | Some e \<Rightarrow> fst (retry r e) \<noteq> None)
         (\<lambda>(r, err, s). (snd (retry r (the err)), call s)) (r, call s) of
        None \<Rightarrow> (Some (EOther []), snd (call s))
      | Some (r', err, s') \<Rightarrow> (err, s'))"

lemma gax_loop_done: "call s = (None, s') \<Longrightarrow> gax_loop call retry r s = (None, s')"
  by (simp add: gax_loop_def while_option_unfold)

lemma gax_loop_stop: "call s = (Some e, s') \<Longrightarrow> retry r e = (None, r') \<Longrightarrow> gax_loop call retry r s = (Some e, s')"
  by (simp add: gax_loop_def while_option_unfold)

lemma gax_loop_again:
  assumes "call s = (Some e, s')" and "retry r e = (Some d, r')"
  shows "(\<exists>e'. gax_loop call retry r s = (Some e', s')) \<or> gax_loop call retry r s = gax_loop call retry r' s'"
  using assms by (auto simp: gax_loop_def while_option_unfold[of _ _ "(r, Some e, s')"] split: option.splits)

lemma gax_loop_contract: "gax_contract gax_loop"
proof -
  have refl: "same_kind e e" for e by (simp add: same_kind_def)
  show ?thesis
    unfolding gax_contract_def
    by (auto split: option.splits prod.splits intro: gax_loop_done refl dest: gax_loop_stop gax_loop_again)
qed

text \<open>An operation that answers 503 three times and then succeeds, counting its runs.\<close>

definition flaky_op :: "nat env \<Rightarrow> gerr option \<times> nat env" where
  "flaky_op env = (if world env < 3 then Some (EApi 503) else None, env\<lparr>world := world env + 1\<rparr>)"

definition retryable_only :: "unit retry_method" where
  "retryable_only r e = (if isRetryable (Some e) then Some 1 else None, r)"

lemma retryable_only_ok: "on_error_func isRetryable retryable_only"
  by (simp add: on_error_func_def retryable_only_def)

lemma flaky_run:
  "fst (retrying gax_loop ''op'' (Some (DefaultRetryPolicy retryable_only ())) flaky_op \<lparr>world = 0, logs = []\<rparr>) = None"
  by (simp add: retrying_def DefaultRetryPolicy_def gax_loop_def while_option_unfold retry_call_def
      flaky_op_def attemptLimiter_Retry_def retryable_only_def isRetryable_def isConcurrentChange_def
      migrateMaxRetries_def)

theorem default_retries_bounded_witness:
  "\<exists>n err env'. 1 \<le> n \<and> n \<le> 5 \<and> runs ''op'' flaky_op 0 None \<lparr>world = 0, logs = []\<rparr> n err env' \<and> err = None"
proof -
  obtain res env' where run: "retrying gax_loop ''op'' (Some (DefaultRetryPolicy retryable_only ())) flaky_op
      \<lparr>world = 0, logs = []\<rparr> = (res, env')" by force
  with flaky_run have "res = None" by simp
  with default_retries_bounded[OF gax_loop_contract retryable_only_ok run] show ?thesis by blast
qed

end
