(* ===== verification/Migration.thy ===== *)
theory Migration
  imports Schemas
begin

text \<open>
  The decision half of migration.go: what a declared schema and a table's schema differ in,
  what each strategy asks for, and the schema a patch sends. Nothing here touches a table;
  theory Apply does.
\<close>

section \<open>Differences between two schemas\<close>

datatype ConflictReason =
  ConflictType | ConflictRepeated | ConflictRequired | ConflictNested | OtherReason int

record SchemaConflict =
  sc_Name :: string
  sc_Reason :: ConflictReason
  sc_Want :: FieldSchema
  sc_Got :: FieldSchema

fun ConflictReason_String :: "ConflictReason \<Rightarrow> string" where
  "ConflictReason_String ConflictType = ''type''"
| "ConflictReason_String ConflictRepeated = ''repeated''"
| "ConflictReason_String ConflictRequired = ''required''"
| "ConflictReason_String ConflictNested = ''nested''"
| "ConflictReason_String (OtherReason n) = ''ConflictReason('' @ show_int n @ '')''"

definition fieldNames :: "Schema \<Rightarrow> string" where
  "fieldNames schema = ''['' @ go_join '' '' (namesOf schema) @ '']''"

definition bool_text :: "bool \<Rightarrow> string" where
  "bool_text b = (if b then ''true'' else ''false'')"

definition SchemaConflict_String :: "SchemaConflict \<Rightarrow> string" where
  "SchemaConflict_String c =
     (case sc_Reason c of
        ConflictType \<Rightarrow> sc_Name c @ '': declared '' @ FieldType_text (fs_Type (sc_Want c))
          @ '', table has '' @ FieldType_text (fs_Type (sc_Got c))
      | ConflictRepeated \<Rightarrow> sc_Name c @ '': declared repeated='' @ bool_text (fs_Repeated (sc_Want c))
          @ '', table has repeated='' @ bool_text (fs_Repeated (sc_Got c))
      | ConflictRequired \<Rightarrow> sc_Name c @ '': declared REQUIRED, table has NULLABLE''
      | ConflictNested \<Rightarrow> sc_Name c @ '': RECORD fields differ, declared '' @ fieldNames (fs_Schema (sc_Want c))
          @ '', table has '' @ fieldNames (fs_Schema (sc_Got c))
      | OtherReason n \<Rightarrow> sc_Name c)"

record SchemaDiff =
  Added :: Schema
  Removed :: "string list"
  Relaxed :: "string list"
  Conflicts :: "SchemaConflict list"

definition no_diff :: SchemaDiff where
  "no_diff = \<lparr>Added = [], Removed = [], Relaxed = [], Conflicts = []\<rparr>"

definition diff_Empty :: "SchemaDiff \<Rightarrow> bool" where
  "diff_Empty d \<longleftrightarrow> Added d = [] \<and> Removed d = [] \<and> Relaxed d = [] \<and> Conflicts d = []"

fun sameNestedSchema :: "Schema \<Rightarrow> Schema \<Rightarrow> bool" where
  "sameNestedSchema want got \<longleftrightarrow>
     length want = length got \<and>
     (\<forall>w\<in>set want.
        (case index_by fs_Name got (fs_Name w) of
           None \<Rightarrow> False
         | Some g \<Rightarrow>
             fs_Type w = fs_Type g \<and> fs_Repeated w = fs_Repeated g \<and> fs_Required w = fs_Required g
             \<and> (if fs_Type w = RecordFieldType then sameNestedSchema (fs_Schema w) (fs_Schema g)
                else True)))"

declare sameNestedSchema.simps [simp del]

definition conflictBetween :: "FieldSchema \<Rightarrow> FieldSchema \<Rightarrow> ConflictReason option" where
  "conflictBetween w g =
     (if fs_Type w \<noteq> fs_Type g then Some ConflictType
      else if fs_Repeated w \<noteq> fs_Repeated g then Some ConflictRepeated
      else if fs_Required w \<and> \<not> fs_Required g then Some ConflictRequired
      else if fs_Type w = RecordFieldType \<and> \<not> sameNestedSchema (fs_Schema w) (fs_Schema g)
        then Some ConflictNested
      else None)"

text \<open>One turn of the first loop of \<open>DiffSchema\<close>, over the declared columns.\<close>

definition diff_step :: "(string \<Rightarrow> FieldSchema option) \<Rightarrow> SchemaDiff \<Rightarrow> FieldSchema \<Rightarrow> SchemaDiff" where
  "diff_step inTable diff w =
     (case inTable (fs_Name w) of
        None \<Rightarrow> diff\<lparr>Added := Added diff @ [w]\<rparr>
      | Some g \<Rightarrow>
          (case conflictBetween w g of
             Some reason \<Rightarrow>
               diff\<lparr>Conflicts := Conflicts diff @
                 [\<lparr>sc_Name = fs_Name w, sc_Reason = reason, sc_Want = w, sc_Got = g\<rparr>]\<rparr>
           | None \<Rightarrow>
               if \<not> fs_Required w \<and> fs_Required g
               then diff\<lparr>Relaxed := Relaxed diff @ [fs_Name w]\<rparr> else diff))"

definition DiffSchema :: "Schema \<Rightarrow> Schema \<Rightarrow> SchemaDiff" where
  "DiffSchema want got =
     (let inTable = index_by fs_Name got;
          declared = (\<lambda>name. name \<in> set (map fs_Name want));
          diff = foldl (diff_step inTable) no_diff want
      in diff\<lparr>Removed := Removed diff @ map fs_Name (filter (\<lambda>g. \<not> declared (fs_Name g)) got)\<rparr>)"

text \<open>The closure \<open>add\<close> of \<open>mentions\<close>: what was seen is what the output already holds.\<close>

definition mention_add :: "string list \<Rightarrow> string list \<Rightarrow> string \<Rightarrow> string list" where
  "mention_add named out name = (if name \<in> set named \<and> name \<notin> set out then out @ [name] else out)"

definition mentions :: "SchemaDiff \<Rightarrow> string list \<Rightarrow> string list" where
  "mentions d named =
     (if named = [] then []
      else foldl (mention_add named) []
             (map fs_Name (Added d) @ Removed d @ Relaxed d @ map sc_Name (Conflicts d)))"

definition Without :: "SchemaDiff \<Rightarrow> string list \<Rightarrow> SchemaDiff" where
  "Without d ignored =
     (if ignored = [] then d
      else \<lparr>Added = filter (\<lambda>f. fs_Name f \<notin> set ignored) (Added d),
            Removed = filter (\<lambda>n. n \<notin> set ignored) (Removed d),
            Relaxed = filter (\<lambda>n. n \<notin> set ignored) (Relaxed d),
            Conflicts = filter (\<lambda>c. sc_Name c \<notin> set ignored) (Conflicts d)\<rparr>)"

section \<open>Strategies\<close>

record TableState =
  Exists :: bool
  Diff :: SchemaDiff

record SchemaChange =
  CreateTable :: bool
  AddColumns :: Schema
  RelaxColumns :: "string list"
  DropColumns :: "string list"

definition no_change :: SchemaChange where
  "no_change = \<lparr>CreateTable = False, AddColumns = [], RelaxColumns = [], DropColumns = []\<rparr>"

definition change_Empty :: "SchemaChange \<Rightarrow> bool" where
  "change_Empty c \<longleftrightarrow>
     \<not> CreateTable c \<and> AddColumns c = [] \<and> RelaxColumns c = [] \<and> DropColumns c = []"

definition conflictError :: "SchemaConflict list \<Rightarrow> gerr option" where
  "conflictError conflicts =
     (if conflicts = [] then None
      else Some (EWrap (MigrationSite (ConflictList (map SchemaConflict_String conflicts)))
                   (ESentinel ErrSchemaConflict)))"

text \<open>
  \<open>Plan\<close> touches nothing: it gives a change or an error, and the records it logs.
\<close>

type_synonym plan_result = "(gerr + SchemaChange) \<times> log_event list"

record MigrationNone =
  none_CreateIfMissing :: bool

record AppendNewColumns =
  append_CreateIfMissing :: bool

record SyncAllColumns =
  IgnoreColumns :: "string list"
  sync_CreateIfMissing :: bool

definition MigrationNone_Plan :: "MigrationNone \<Rightarrow> TableState \<Rightarrow> plan_result" where
  "MigrationNone_Plan m st =
     (if \<not> Exists st then (Inr (no_change\<lparr>CreateTable := none_CreateIfMissing m\<rparr>), [])
      else (case conflictError (Conflicts (Diff st)) of
              Some e \<Rightarrow> (Inl e, [])
            | None \<Rightarrow>
                (Inr no_change,
                 if \<not> diff_Empty (Diff st)
                 then [LeavesAsItIs (namesOf (Added (Diff st))) (Removed (Diff st)) (Relaxed (Diff st))]
                 else [])))"

definition AppendNewColumns_Plan :: "AppendNewColumns \<Rightarrow> TableState \<Rightarrow> plan_result" where
  "AppendNewColumns_Plan a st =
     (if \<not> Exists st then (Inr (no_change\<lparr>CreateTable := append_CreateIfMissing a\<rparr>), [])
      else (case conflictError (Conflicts (Diff st)) of
              Some e \<Rightarrow> (Inl e, [])
            | None \<Rightarrow>
                (Inr (no_change\<lparr>AddColumns := Added (Diff st), RelaxColumns := Relaxed (Diff st)\<rparr>),
                 if Removed (Diff st) \<noteq> [] then [KeepsUndeclared (Removed (Diff st))] else [])))"

definition SyncAllColumns_Plan :: "SyncAllColumns \<Rightarrow> TableState \<Rightarrow> plan_result" where
  "SyncAllColumns_Plan s st =
     (if \<not> Exists st then (Inr (no_change\<lparr>CreateTable := sync_CreateIfMissing s\<rparr>), [])
      else (let diff = Without (Diff st) (IgnoreColumns s)
            in (case conflictError (Conflicts diff) of
                  Some e \<Rightarrow> (Inl e, [])
                | None \<Rightarrow>
                    (Inr (no_change\<lparr>AddColumns := Added diff, RelaxColumns := Relaxed diff,
                                    DropColumns := Removed diff\<rparr>),
                     let ignored = mentions (Diff st) (IgnoreColumns s)
                     in if ignored \<noteq> [] then [IgnoredDiffer ignored] else []))))"

text \<open>\<open>SyncAllColumns.Validate\<close>: the first empty name among the ignored columns.\<close>

fun first_empty :: "nat \<Rightarrow> string list \<Rightarrow> gerr option" where
  "first_empty i [] = None"
| "first_empty i (n # ns) =
     (if n = [] then Some (EMsg (MigrationSite (IgnoreColumnEmpty i))) else first_empty (Suc i) ns)"

definition SyncAllColumns_Validate :: "SyncAllColumns \<Rightarrow> gerr option" where
  "SyncAllColumns_Validate s = first_empty 0 (IgnoreColumns s)"

section \<open>The patched schema\<close>

definition relax_column :: "SchemaChange \<Rightarrow> FieldSchema \<Rightarrow> FieldSchema" where
  "relax_column change f =
     (if fs_Name f \<in> set (RelaxColumns change) then with_Required False f else f)"

definition mergeSchema :: "Schema \<Rightarrow> SchemaChange \<Rightarrow> Schema" where
  "mergeSchema got change = map (relax_column change) got @ AddColumns change"

section \<open>What DiffSchema finds\<close>

text \<open>The declared and the real column agree: nothing to migrate and nothing to report.\<close>

definition columns_agree :: "FieldSchema \<Rightarrow> FieldSchema \<Rightarrow> bool" where
  "columns_agree w g \<longleftrightarrow>
     fs_Type w = fs_Type g \<and> fs_Repeated w = fs_Repeated g \<and> fs_Required w = fs_Required g
     \<and> (fs_Type w = RecordFieldType \<longrightarrow> sameNestedSchema (fs_Schema w) (fs_Schema g))"

lemma columns_agree_conflict:
  "columns_agree w g \<longleftrightarrow> conflictBetween w g = None \<and> \<not> (\<not> fs_Required w \<and> fs_Required g)"
  by (auto simp: columns_agree_def conflictBetween_def)

lemma sameNestedSchema_iff:
  "sameNestedSchema want got \<longleftrightarrow>
     length want = length got \<and>
     (\<forall>w\<in>set want. \<exists>g. index_by fs_Name got (fs_Name w) = Some g \<and> columns_agree w g)"
  unfolding sameNestedSchema.simps[of want got]
  by (intro conj_cong refl ball_cong)
    (simp add: columns_agree_def split: option.splits, metis)

lemma diff_step_fold:
  "Added (foldl (diff_step m) d ws) = Added d @ filter (\<lambda>w. m (fs_Name w) = None) ws"
  "Removed (foldl (diff_step m) d ws) = Removed d"
  "Relaxed (foldl (diff_step m) d ws) = Relaxed d @
     map fs_Name (filter (\<lambda>w. \<exists>g. m (fs_Name w) = Some g \<and> conflictBetween w g = None
                                \<and> \<not> fs_Required w \<and> fs_Required g) ws)"
  "Conflicts (foldl (diff_step m) d ws) = Conflicts d @
     List.map_filter (\<lambda>w. case m (fs_Name w) of None \<Rightarrow> None | Some g \<Rightarrow>
       map_option (\<lambda>r. \<lparr>sc_Name = fs_Name w, sc_Reason = r, sc_Want = w, sc_Got = g\<rparr>)
         (conflictBetween w g)) ws"
  by (induction ws arbitrary: d)
    (auto simp: diff_step_def List.map_filter_def split: option.splits)

lemma DiffSchema_Added:
  "Added (DiffSchema want got) = filter (\<lambda>w. fs_Name w \<notin> fs_Name ` set got) want"
  by (simp add: DiffSchema_def diff_step_fold no_diff_def index_by_None)

lemma DiffSchema_Removed:
  "Removed (DiffSchema want got) = map fs_Name (filter (\<lambda>g. fs_Name g \<notin> fs_Name ` set want) got)"
  by (simp add: DiffSchema_def diff_step_fold no_diff_def)

lemma DiffSchema_Relaxed:
  "Relaxed (DiffSchema want got) =
     map fs_Name (filter (\<lambda>w. \<exists>g. index_by fs_Name got (fs_Name w) = Some g
        \<and> conflictBetween w g = None \<and> \<not> fs_Required w \<and> fs_Required g) want)"
  by (simp add: DiffSchema_def diff_step_fold no_diff_def)

lemma DiffSchema_Conflicts:
  "set (Conflicts (DiffSchema want got)) =
     {\<lparr>sc_Name = fs_Name w, sc_Reason = r, sc_Want = w, sc_Got = g\<rparr> | w g r.
        w \<in> set want \<and> index_by fs_Name got (fs_Name w) = Some g \<and> conflictBetween w g = Some r}"
  by (auto simp: DiffSchema_def diff_step_fold no_diff_def List.map_filter_def image_iff
      split: option.splits) force+

lemma DiffSchema_no_conflict:
  "Conflicts (DiffSchema want got) = [] \<longleftrightarrow>
     (\<forall>w\<in>set want. \<forall>g. index_by fs_Name got (fs_Name w) = Some g \<longrightarrow> conflictBetween w g = None)"
  by (simp add: DiffSchema_def diff_step_fold no_diff_def map_filter_Nil split: option.splits)

lemmas DiffSchema_parts = DiffSchema_Added DiffSchema_Removed DiffSchema_Relaxed DiffSchema_no_conflict

lemma diff_Empty_agree:
  "diff_Empty (DiffSchema want got) \<longleftrightarrow>
     fs_Name ` set want = fs_Name ` set got \<and>
     (\<forall>w\<in>set want. \<exists>g. index_by fs_Name got (fs_Name w) = Some g \<and> columns_agree w g)"
proof
  assume empty: "diff_Empty (DiffSchema want got)"
  then have names: "fs_Name ` set want = fs_Name ` set got"
    by (auto simp: diff_Empty_def DiffSchema_parts filter_empty_conv)
  have "\<exists>g. index_by fs_Name got (fs_Name w) = Some g \<and> columns_agree w g" if "w \<in> set want" for w
  proof -
    from that names have "index_by fs_Name got (fs_Name w) \<noteq> None"
      by (auto simp: index_by_None)
    then obtain g where g: "index_by fs_Name got (fs_Name w) = Some g" by auto
    with empty that have "columns_agree w g"
      by (auto simp: diff_Empty_def DiffSchema_parts filter_empty_conv columns_agree_conflict)
    with g show ?thesis by blast
  qed
  with names show "fs_Name ` set want = fs_Name ` set got \<and>
     (\<forall>w\<in>set want. \<exists>g. index_by fs_Name got (fs_Name w) = Some g \<and> columns_agree w g)"
    by blast
next
  assume agree: "fs_Name ` set want = fs_Name ` set got \<and>
     (\<forall>w\<in>set want. \<exists>g. index_by fs_Name got (fs_Name w) = Some g \<and> columns_agree w g)"
  have col: "conflictBetween w g = None" "\<not> (\<not> fs_Required w \<and> fs_Required g)"
    if "w \<in> set want" "index_by fs_Name got (fs_Name w) = Some g" for w g
    using agree that by (fastforce simp: columns_agree_conflict)+
  have "Added (DiffSchema want got) = []" "Removed (DiffSchema want got) = []"
    using agree by (auto simp: DiffSchema_Added DiffSchema_Removed filter_empty_conv)
  moreover have "Relaxed (DiffSchema want got) = []"
    using col(2) by (auto simp: DiffSchema_Relaxed filter_empty_conv)
  moreover have "Conflicts (DiffSchema want got) = []"
    using col(1) by (simp add: DiffSchema_no_conflict)
  ultimately show "diff_Empty (DiffSchema want got)"
    by (simp add: diff_Empty_def)
qed

section \<open>Agreement of schemas is an equivalence\<close>

lemma sameNestedSchema_names:
  assumes "wf_schema a" and "wf_schema b" and "sameNestedSchema a b"
  shows "fs_Name ` set a = fs_Name ` set b"
proof (rule card_subset_eq)
  show "fs_Name ` set a \<subseteq> fs_Name ` set b"
  proof
    fix n
    assume "n \<in> fs_Name ` set a"
    then obtain w g where "n = fs_Name w" "index_by fs_Name b n = Some g"
      using assms(3) by (auto simp: sameNestedSchema_iff)
    then show "n \<in> fs_Name ` set b"
      by (metis image_eqI index_by_Some_set)
  qed
  have "length (map fs_Name a) = length (map fs_Name b)"
    using assms(3) by (simp add: sameNestedSchema_iff)
  then show "card (fs_Name ` set a) = card (fs_Name ` set b)"
    using assms(1,2) by (metis distinct_card image_set namesOf_def wf_schemaD(1))
qed simp

text \<open>On schemas naming no column twice, the correspondence is one of elements.\<close>

lemma sameNestedSchema_elements:
  assumes "wf_schema a" and "wf_schema b"
  shows "sameNestedSchema a b \<longleftrightarrow>
     length a = length b \<and> (\<forall>w\<in>set a. \<exists>g\<in>set b. fs_Name g = fs_Name w \<and> columns_agree w g)"
  using wf_schemaD(1)[OF assms(2)]
  unfolding sameNestedSchema_iff namesOf_def by (auto simp: index_by_distinct_iff)

lemma sameNestedSchema_refl: "wf_schema s \<Longrightarrow> sameNestedSchema s s"
proof (induction s rule: wf_schema.induct)
  case (1 s)
  have "columns_agree f f" if "f \<in> set s" for f
    using that 1 by (simp add: columns_agree_def wf_schemaD(2))
  with "1.prems" show ?case by (auto simp: sameNestedSchema_elements)
qed

lemma columns_agree_sym:
  assumes "columns_agree w g" and "sameNestedSchema (fs_Schema w) (fs_Schema g) \<Longrightarrow> sameNestedSchema (fs_Schema g) (fs_Schema w)"
  shows "columns_agree g w"
  using assms by (auto simp: columns_agree_def)

lemma sameNestedSchema_sym:
  "wf_schema a \<Longrightarrow> wf_schema b \<Longrightarrow> sameNestedSchema a b \<Longrightarrow> sameNestedSchema b a"
proof (induction a arbitrary: b rule: wf_schema.induct)
  case (1 a)
  note same = "1.prems"(3)[unfolded sameNestedSchema_elements[OF "1.prems"(1,2)]]
  have "\<exists>w\<in>set a. fs_Name w = fs_Name g \<and> columns_agree g w" if g: "g \<in> set b" for g
  proof -
    have "fs_Name g \<in> fs_Name ` set a"
      using g sameNestedSchema_names[OF "1.prems"] by auto
    then obtain w where w: "w \<in> set a" "fs_Name w = fs_Name g" by auto
    with same obtain g' where g': "g' \<in> set b" "fs_Name g' = fs_Name w" "columns_agree w g'"
      by auto
    have "g' = g"
      using distinct_key_eq[OF wf_schemaD(1)[OF "1.prems"(2), unfolded namesOf_def] g'(1) g]
        g'(2) w(2) by simp
    moreover have "sameNestedSchema (fs_Schema w) (fs_Schema g) \<Longrightarrow> sameNestedSchema (fs_Schema g) (fs_Schema w)"
      using "1.IH"[OF w(1)] "1.prems" w(1) g by (simp add: wf_schemaD(2))
    ultimately show ?thesis
      using w g'(3) columns_agree_sym by blast
  qed
  with same "1.prems" show ?case by (simp add: sameNestedSchema_elements)
qed

lemma sameNestedSchema_trans:
  "wf_schema a \<Longrightarrow> wf_schema b \<Longrightarrow> wf_schema c \<Longrightarrow>
   sameNestedSchema a b \<Longrightarrow> sameNestedSchema b c \<Longrightarrow> sameNestedSchema a c"
proof (induction a arbitrary: b c rule: wf_schema.induct)
  case (1 a)
  note ab = "1.prems"(4)[unfolded sameNestedSchema_elements[OF "1.prems"(1,2)]]
  note bc = "1.prems"(5)[unfolded sameNestedSchema_elements[OF "1.prems"(2,3)]]
  have "\<exists>z\<in>set c. fs_Name z = fs_Name x \<and> columns_agree x z" if x: "x \<in> set a" for x
  proof -
    obtain y where y: "y \<in> set b" "fs_Name y = fs_Name x" "columns_agree x y"
      using ab x by auto
    obtain z where z: "z \<in> set c" "fs_Name z = fs_Name y" "columns_agree y z"
      using bc y(1) by auto
    have "columns_agree x z"
      using y(3) z(3) "1.IH"[OF x, of "fs_Schema y" "fs_Schema z"] "1.prems"(1-3) x y(1) z(1)
      by (simp add: columns_agree_def wf_schemaD(2))
    with y(2) z(1,2) show ?thesis by auto
  qed
  with ab bc "1.prems" show ?case by (simp add: sameNestedSchema_elements)
qed

lemma diff_Empty_same:
  assumes "wf_schema want" and "wf_schema got"
  shows "diff_Empty (DiffSchema want got) \<longleftrightarrow> sameNestedSchema want got"
proof -
  have "length want = length got" if "fs_Name ` set want = fs_Name ` set got"
    using that assms by (metis distinct_card image_set length_map namesOf_def wf_schemaD(1))
  then show ?thesis
    using sameNestedSchema_names[OF assms] by (auto simp: diff_Empty_agree sameNestedSchema_iff)
qed

text \<open>
  C7: for schemas that name no column twice at any depth, the difference between the
  declaration and the table is empty exactly when they hold the same columns in whatever
  order, with the same types and modes at every depth; and this is an equivalence, so that it
  does not matter which of the two is the declaration.
\<close>

theorem diff_Empty_equivalence:
  assumes "wf_schema a" and "wf_schema b" and "wf_schema c"
  shows "diff_Empty (DiffSchema a a)
    \<and> (diff_Empty (DiffSchema a b) \<longleftrightarrow> sameNestedSchema a b)
    \<and> (diff_Empty (DiffSchema a b) \<longleftrightarrow> diff_Empty (DiffSchema b a))
    \<and> (diff_Empty (DiffSchema a b) \<and> diff_Empty (DiffSchema b c) \<longrightarrow> diff_Empty (DiffSchema a c))"
proof (intro conjI impI)
  show "diff_Empty (DiffSchema a a)"
    using assms(1) by (simp add: diff_Empty_same sameNestedSchema_refl)
  show "diff_Empty (DiffSchema a b) \<longleftrightarrow> sameNestedSchema a b"
    using assms by (simp add: diff_Empty_same)
  show "diff_Empty (DiffSchema a b) \<longleftrightarrow> diff_Empty (DiffSchema b a)"
    using assms by (metis diff_Empty_same sameNestedSchema_sym)
  assume "diff_Empty (DiffSchema a b) \<and> diff_Empty (DiffSchema b c)"
  with assms show "diff_Empty (DiffSchema a c)"
    by (metis diff_Empty_same sameNestedSchema_trans)
qed

theorem diff_Empty_equivalence_witness:
  "diff_Empty (DiffSchema [FieldSchema ''a'' StringFieldType True False [] 0 [], FieldSchema ''b'' FloatFieldType False False [] 0 []]
     [FieldSchema ''b'' FloatFieldType False False [] 0 [], FieldSchema ''a'' StringFieldType True False [] 0 []])"
proof -
  let ?a = "FieldSchema ''a'' StringFieldType True False [] 0 []"
  let ?b = "FieldSchema ''b'' FloatFieldType False False [] 0 []"
  have wf: "wf_schema [?a, ?b]" "wf_schema [?b, ?a]" by simp_all
  have "sameNestedSchema [?a, ?b] [?b, ?a]"
    by (subst sameNestedSchema_iff) (simp add: index_by_def columns_agree_def)
  with diff_Empty_equivalence[OF wf wf(1), THEN conjunct2, THEN conjunct1] show ?thesis ..
qed

end
