(* ===== verification/Strategies.thy ===== *)
theory Strategies
  imports Migration "HOL-Library.Sublist"
begin

text \<open>
  What the migration strategies promise. The interface \<open>MigrationStrategy\<close> of migration.go
  is the locale \<open>migration_strategy\<close>: the laws a \<open>Plan\<close> has to obey for its answer to be
  applied safely, and what follows from them for the schema a patch sends. Each of the three
  strategies of the package interprets it. On top of it stand the results on convergence:
  applying the answer leaves nothing more for the same strategy to do.
\<close>

section \<open>The patched schema, column by column\<close>

lemma relax_column_sel [simp]:
  "fs_Name (relax_column ch f) = fs_Name f"
  "fs_Type (relax_column ch f) = fs_Type f"
  "fs_Repeated (relax_column ch f) = fs_Repeated f"
  "fs_Schema (relax_column ch f) = fs_Schema f"
  "fs_Required (relax_column ch f) \<longleftrightarrow> fs_Required f \<and> fs_Name f \<notin> set (RelaxColumns ch)"
  by (auto simp: relax_column_def)

lemma namesOf_mergeSchema: "namesOf (mergeSchema got ch) = namesOf got @ namesOf (AddColumns ch)"
  by (simp add: mergeSchema_def namesOf_def)

lemma wf_schema_mergeSchema:
  assumes "wf_schema got" and "\<forall>f\<in>set (AddColumns ch). wf_schema (fs_Schema f)"
    and "distinct (namesOf (AddColumns ch))" and "fs_Name ` set (AddColumns ch) \<inter> fs_Name ` set got = {}"
  shows "wf_schema (mergeSchema got ch)"
proof -
  have "distinct (namesOf (mergeSchema got ch))"
    using assms(1,3,4) by (auto simp: namesOf_mergeSchema wf_schemaD)
  moreover have "\<forall>f\<in>set (mergeSchema got ch). wf_schema (fs_Schema f)"
    using assms(1,2) by (auto simp: mergeSchema_def wf_schemaD(2))
  ultimately show ?thesis
    by (simp add: wf_schema.simps[of "mergeSchema got ch"] namesOf_def)
qed

lemma index_by_mergeSchema_old:
  assumes "distinct (namesOf (mergeSchema got ch))" and "g \<in> set got"
  shows "index_by fs_Name (mergeSchema got ch) (fs_Name g) = Some (relax_column ch g)"
  using index_by_distinct[of fs_Name "mergeSchema got ch" "relax_column ch g"] assms
  by (simp add: namesOf_def mergeSchema_def)

lemma index_by_mergeSchema_new:
  assumes "distinct (namesOf (mergeSchema got ch))" and "f \<in> set (AddColumns ch)"
  shows "index_by fs_Name (mergeSchema got ch) (fs_Name f) = Some f"
  using index_by_distinct[of fs_Name "mergeSchema got ch" f] assms
  by (simp add: namesOf_def mergeSchema_def)

text \<open>
  The schema a table has once both halves of a change have been applied: BigQuery replaces the
  schema by the patched one, and \<open>ALTER TABLE ... DROP COLUMN\<close> removes the dropped columns.
\<close>

definition applied :: "Schema \<Rightarrow> SchemaChange \<Rightarrow> Schema" where
  "applied got ch = filter (\<lambda>f. fs_Name f \<notin> set (DropColumns ch)) (mergeSchema got ch)"

section \<open>The interface\<close>

definition found :: "Schema \<Rightarrow> Schema \<Rightarrow> TableState" where
  "found want got = \<lparr>Exists = True, Diff = DiffSchema want got\<rparr>"

locale migration_strategy =
  fixes plan :: "TableState \<Rightarrow> plan_result"
  assumes plan_error: "fst (plan st) = Inl e \<Longrightarrow> errors_Is e ErrSchemaConflict \<and> Conflicts (Diff st) \<noteq> []"
    and plan_missing: "\<not> Exists st \<Longrightarrow> \<exists>b. plan st = (Inr (no_change\<lparr>CreateTable := b\<rparr>), [])"
    and plan_creates: "Exists st \<Longrightarrow> fst (plan st) = Inr ch \<Longrightarrow> \<not> CreateTable ch"
    and plan_adds: "Exists st \<Longrightarrow> fst (plan st) = Inr ch \<Longrightarrow> subseq (AddColumns ch) (Added (Diff st))"
    and plan_relaxes: "Exists st \<Longrightarrow> fst (plan st) = Inr ch \<Longrightarrow> set (RelaxColumns ch) \<subseteq> set (Relaxed (Diff st))"
    and plan_drops: "Exists st \<Longrightarrow> fst (plan st) = Inr ch \<Longrightarrow> set (DropColumns ch) \<subseteq> set (Removed (Diff st))"
    and plan_levels: "l \<in> set (snd (plan st)) \<Longrightarrow> level_of l = LevelInfo \<or> level_of l = LevelWarn"
begin

lemma adds_declared:
  assumes "fst (plan (found want got)) = Inr ch"
  shows "set (AddColumns ch) \<subseteq> set want"
    and "fs_Name ` set (AddColumns ch) \<inter> fs_Name ` set got = {}"
    and "distinct (namesOf want) \<Longrightarrow> distinct (namesOf (AddColumns ch))"
proof -
  have "subseq (AddColumns ch) (Added (DiffSchema want got))"
    using plan_adds[OF _ assms] by (simp add: found_def)
  then obtain N where N: "AddColumns ch = nths (Added (DiffSchema want got)) N"
    by (auto simp: subseq_conv_nths)
  then have set: "set (AddColumns ch) \<subseteq> set (Added (DiffSchema want got))"
    by (simp add: set_nths_subset)
  then show "set (AddColumns ch) \<subseteq> set want"
    and "fs_Name ` set (AddColumns ch) \<inter> fs_Name ` set got = {}"
    by (auto simp: DiffSchema_Added)
  show "distinct (namesOf (AddColumns ch))" if "distinct (namesOf want)"
  proof -
    have "distinct (map fs_Name (Added (DiffSchema want got)))"
      using that by (simp add: DiffSchema_Added namesOf_def distinct_map_filter)
    then show ?thesis by (simp add: N namesOf_def distinct_nthsI flip: nths_map)
  qed
qed

lemma relaxes_required:
  assumes "fst (plan (found want got)) = Inr ch" and "distinct (namesOf got)"
    and "g \<in> set got" and "fs_Name g \<in> set (RelaxColumns ch)"
  shows "fs_Required g" and "\<exists>w\<in>set want. fs_Name w = fs_Name g \<and> \<not> fs_Required w"
proof -
  have "fs_Name g \<in> set (Relaxed (DiffSchema want got))"
    using plan_relaxes[OF _ assms(1)] assms(4) by (auto simp: found_def)
  then obtain w g' where w: "w \<in> set want" "fs_Name w = fs_Name g" "\<not> fs_Required w"
    and g': "index_by fs_Name got (fs_Name g) = Some g'" "fs_Required g'"
    by (auto simp: DiffSchema_Relaxed)
  have "g' = g"
    using g'(1) assms(2,3) by (simp add: namesOf_def index_by_distinct)
  with g' w show "fs_Required g" and "\<exists>w\<in>set want. fs_Name w = fs_Name g \<and> \<not> fs_Required w"
    by auto
qed

lemma drops_undeclared:
  assumes "fst (plan (found want got)) = Inr ch" and "n \<in> set (DropColumns ch)"
  shows "n \<in> fs_Name ` set got" and "n \<notin> fs_Name ` set want"
proof -
  have "n \<in> set (Removed (DiffSchema want got))"
    using plan_drops[OF _ assms(1)] assms(2) by (auto simp: found_def)
  then show "n \<in> fs_Name ` set got" and "n \<notin> fs_Name ` set want"
    by (auto simp: DiffSchema_Removed)
qed

text \<open>
  The patch keeps every existing column where it was, changes nothing of it but REQUIRED into
  NULLABLE, and only where the declaration says NULLABLE; it appends declared columns the
  table lacked; and what is dropped afterwards is not declared.
\<close>

lemma patch_safe:
  assumes "fst (plan (found want got)) = Inr ch" and "wf_schema want" and "wf_schema got"
  shows "wf_schema (mergeSchema got ch)"
    and "length got \<le> length (mergeSchema got ch)"
    and "i < length got \<Longrightarrow> mergeSchema got ch ! i = got ! i
           \<or> mergeSchema got ch ! i = with_Required False (got ! i) \<and> fs_Required (got ! i)
             \<and> (\<exists>w\<in>set want. fs_Name w = fs_Name (got ! i) \<and> \<not> fs_Required w)"
    and "set (drop (length got) (mergeSchema got ch)) \<subseteq> set want"
    and "set (DropColumns ch) \<subseteq> fs_Name ` set got - fs_Name ` set want"
proof -
  note adds = adds_declared[OF assms(1)]
  show "wf_schema (mergeSchema got ch)"
  proof (rule wf_schema_mergeSchema[OF assms(3)])
    show "\<forall>f\<in>set (AddColumns ch). wf_schema (fs_Schema f)"
      using adds(1) assms(2) by (auto intro: wf_schemaD(2))
    show "distinct (namesOf (AddColumns ch))"
      using adds(3) assms(2) by (simp add: wf_schemaD(1))
  qed (rule adds(2))
  show "length got \<le> length (mergeSchema got ch)"
    by (simp add: mergeSchema_def)
  show "mergeSchema got ch ! i = got ! i
           \<or> mergeSchema got ch ! i = with_Required False (got ! i) \<and> fs_Required (got ! i)
             \<and> (\<exists>w\<in>set want. fs_Name w = fs_Name (got ! i) \<and> \<not> fs_Required w)"
    if i: "i < length got"
  proof (cases "fs_Name (got ! i) \<in> set (RelaxColumns ch)")
    case True
    with i relaxes_required[OF assms(1) wf_schemaD(1)[OF assms(3)]] show ?thesis
      by (auto simp: mergeSchema_def nth_append relax_column_def)
  qed (use i in \<open>simp add: mergeSchema_def nth_append relax_column_def\<close>)
  show "set (drop (length got) (mergeSchema got ch)) \<subseteq> set want"
    using adds(1) by (simp add: mergeSchema_def)
  show "set (DropColumns ch) \<subseteq> fs_Name ` set got - fs_Name ` set want"
    using drops_undeclared[OF assms(1)] by auto
qed

end

section \<open>The three strategies\<close>

text \<open>The values of the package's own types that may be passed as a strategy.\<close>

datatype builtin_strategy =
    NoneStrategy MigrationNone
  | AppendStrategy AppendNewColumns
  | SyncStrategy SyncAllColumns

fun builtin_Plan :: "builtin_strategy \<Rightarrow> TableState \<Rightarrow> plan_result" where
  "builtin_Plan (NoneStrategy m) st = MigrationNone_Plan m st"
| "builtin_Plan (AppendStrategy a) st = AppendNewColumns_Plan a st"
| "builtin_Plan (SyncStrategy s) st = SyncAllColumns_Plan s st"

lemma conflictError_None [simp]: "conflictError cs = None \<longleftrightarrow> cs = []"
  by (simp add: conflictError_def)

lemma conflictError_Nil [simp]: "conflictError [] = None"
  by simp

lemma conflictError_Some: "conflictError cs = Some e \<Longrightarrow> errors_Is e ErrSchemaConflict \<and> cs \<noteq> []"
  by (auto simp: conflictError_def split: if_splits)

lemma Without_sel:
  "Added (Without d ns) = filter (\<lambda>f. fs_Name f \<notin> set ns) (Added d)"
  "Removed (Without d ns) = filter (\<lambda>n. n \<notin> set ns) (Removed d)"
  "Relaxed (Without d ns) = filter (\<lambda>n. n \<notin> set ns) (Relaxed d)"
  "Conflicts (Without d ns) = filter (\<lambda>c. sc_Name c \<notin> set ns) (Conflicts d)"
  by (simp_all add: Without_def)

lemmas plan_defs = MigrationNone_Plan_def AppendNewColumns_Plan_def SyncAllColumns_Plan_def
  no_change_def Let_def

interpretation none: migration_strategy "MigrationNone_Plan m" for m
  by unfold_locales
    (auto simp: plan_defs dest: conflictError_Some split: option.splits if_splits)

interpretation append: migration_strategy "AppendNewColumns_Plan a" for a
  by unfold_locales
    (auto simp: plan_defs dest: conflictError_Some split: option.splits if_splits)

interpretation sync: migration_strategy "SyncAllColumns_Plan s" for s
proof unfold_locales
  fix st e
  assume "fst (SyncAllColumns_Plan s st) = Inl e"
  then show "errors_Is e ErrSchemaConflict \<and> Conflicts (Diff st) \<noteq> []"
    by (auto simp: plan_defs Without_sel dest!: conflictError_Some split: option.splits if_splits)
qed (auto simp: plan_defs Without_sel split: option.splits if_splits)

lemma builtin_Plan_eq:
  "builtin_Plan (NoneStrategy m) = MigrationNone_Plan m"
  "builtin_Plan (AppendStrategy a) = AppendNewColumns_Plan a"
  "builtin_Plan (SyncStrategy s) = SyncAllColumns_Plan s"
  by auto

interpretation builtin: migration_strategy "builtin_Plan b" for b
  by (cases b) (simp_all add: builtin_Plan_eq none.migration_strategy_axioms
      append.migration_strategy_axioms sync.migration_strategy_axioms)

section \<open>Properties\<close>

text \<open>
  C9: whatever of its own strategies the package is given, a patch built from its answer for a
  well-formed table names no column twice, leaves each existing column in its place and
  identical except that one the declaration makes NULLABLE may lose REQUIRED, appends nothing
  but declared columns the table lacked, and drops only columns that are not declared.
\<close>

theorem patch_is_safe:
  assumes "fst (builtin_Plan b (found want got)) = Inr ch" and "wf_schema want" and "wf_schema got"
  shows "wf_schema (mergeSchema got ch)
    \<and> namesOf (mergeSchema got ch) = namesOf got @ namesOf (AddColumns ch)
    \<and> (\<forall>i<length got. mergeSchema got ch ! i = got ! i
          \<or> mergeSchema got ch ! i = with_Required False (got ! i) \<and> fs_Required (got ! i)
            \<and> (\<exists>w\<in>set want. fs_Name w = fs_Name (got ! i) \<and> \<not> fs_Required w))
    \<and> set (AddColumns ch) \<subseteq> {w \<in> set want. fs_Name w \<notin> fs_Name ` set got}
    \<and> set (DropColumns ch) \<subseteq> fs_Name ` set got - fs_Name ` set want"
  using builtin.patch_safe[OF assms] builtin.adds_declared[OF assms(1)]
  by (auto simp: namesOf_mergeSchema)

definition col :: "string \<Rightarrow> FieldType \<Rightarrow> bool \<Rightarrow> FieldSchema" where
  "col n t r = FieldSchema n t r False [] 0 []"

lemmas diff_eval = found_def DiffSchema_def diff_step_def no_diff_def conflictBetween_def index_by_def
  namesOf_def col_def conflictError_def mentions_def mention_add_def Without_def

theorem patch_is_safe_witness:
  "wf_schema (mergeSchema [col ''a'' StringFieldType True, col ''z'' JSONFieldType False]
     \<lparr>CreateTable = False, AddColumns = [col ''b'' FloatFieldType False], RelaxColumns = [''a''],
      DropColumns = [''z'']\<rparr>)"
proof -
  let ?want = "[col ''a'' StringFieldType False, col ''b'' FloatFieldType False]"
  let ?got = "[col ''a'' StringFieldType True, col ''z'' JSONFieldType False]"
  let ?ch = "\<lparr>CreateTable = False, AddColumns = [col ''b'' FloatFieldType False],
    RelaxColumns = [''a''], DropColumns = [''z'']\<rparr>"
  have plan: "fst (builtin_Plan (SyncStrategy \<lparr>IgnoreColumns = [], sync_CreateIfMissing = True\<rparr>)
      (found ?want ?got)) = Inr ?ch"
    by (simp add: plan_defs diff_eval)
  have wf: "wf_schema ?want" "wf_schema ?got"
    by (simp_all add: col_def)
  show ?thesis
    using patch_is_safe [OF plan wf] by (rule conjunct1)
qed

section \<open>Convergence\<close>

lemma columns_agree_refl: "wf_schema (fs_Schema f) \<Longrightarrow> columns_agree f f"
  by (simp add: columns_agree_def sameNestedSchema_refl)

lemma columns_agree_no_conflict: "columns_agree w g \<Longrightarrow> conflictBetween w g = None"
  by (simp add: columns_agree_conflict)

text \<open>
  Once a change that adds what is missing and relaxes what may be relaxed has been merged, each
  declared column agrees with the table's.
\<close>

lemma merged_agrees:
  assumes wf: "wf_schema want" "wf_schema got" and none: "Conflicts (DiffSchema want got) = []"
    and add: "AddColumns ch = Added (DiffSchema want got)"
    and relax: "RelaxColumns ch = Relaxed (DiffSchema want got)"
    and w: "w \<in> set want"
  shows "\<exists>g. index_by fs_Name (mergeSchema got ch) (fs_Name w) = Some g \<and> columns_agree w g"
proof -
  have adds: "set (AddColumns ch) \<subseteq> set want" "fs_Name ` set (AddColumns ch) \<inter> fs_Name ` set got = {}"
    "distinct (namesOf (AddColumns ch))"
    using wf(1) by (auto simp: add DiffSchema_Added namesOf_def distinct_map_filter
        dest: wf_schemaD(1))
  then have distinct: "distinct (namesOf (mergeSchema got ch))"
    using wf(2) by (auto simp: namesOf_mergeSchema wf_schemaD(1))
  show ?thesis
  proof (cases "fs_Name w \<in> fs_Name ` set got")
    case False
    then have "w \<in> set (AddColumns ch)"
      using w by (auto simp: add DiffSchema_Added)
    then show ?thesis
      using w wf(1) index_by_mergeSchema_new[OF distinct] columns_agree_refl wf_schemaD(2) by blast
  next
    case True
    then obtain g where g: "g \<in> set got" "fs_Name g = fs_Name w" by auto
    then have inTable: "index_by fs_Name got (fs_Name w) = Some g"
      using wf_schemaD(1)[OF wf(2)] by (metis index_by_distinct namesOf_def)
    then have "conflictBetween w g = None"
      using none w by (auto simp: DiffSchema_no_conflict)
    moreover have "fs_Name w \<in> set (RelaxColumns ch)" if "\<not> fs_Required w" "fs_Required g"
      using that w inTable \<open>conflictBetween w g = None\<close> by (auto simp: relax DiffSchema_Relaxed)
    moreover have "\<not> fs_Required w" if relaxed: "fs_Name w \<in> set (RelaxColumns ch)"
    proof -
      from relaxed obtain w' where "w' \<in> set want" "fs_Name w' = fs_Name w" "\<not> fs_Required w'"
        by (auto simp: relax DiffSchema_Relaxed)
      then show ?thesis
        using w distinct_key_eq[of fs_Name want w' w] wf_schemaD(1)[OF wf(1)] by (simp add: namesOf_def)
    qed
    ultimately have "columns_agree w (relax_column ch g)"
      using g(2) by (auto simp: columns_agree_def conflictBetween_def split: if_splits)
    then show ?thesis
      using index_by_mergeSchema_old[OF distinct g(1)] g(2) by auto
  qed
qed

lemma merged_diff:
  assumes "wf_schema want" "wf_schema got" "Conflicts (DiffSchema want got) = []"
    and "AddColumns ch = Added (DiffSchema want got)" "RelaxColumns ch = Relaxed (DiffSchema want got)"
  shows "Added (DiffSchema want (mergeSchema got ch)) = []"
    and "Relaxed (DiffSchema want (mergeSchema got ch)) = []"
    and "Conflicts (DiffSchema want (mergeSchema got ch)) = []"
    and "Removed (DiffSchema want (mergeSchema got ch)) = Removed (DiffSchema want got)"
proof -
  let ?m = "mergeSchema got ch"
  have agree: "\<exists>g. index_by fs_Name ?m (fs_Name w) = Some g \<and> columns_agree w g" if "w \<in> set want" for w
    using merged_agrees[OF assms that] .
  show "Added (DiffSchema want ?m) = []"
  proof -
    have "fs_Name w \<in> fs_Name ` set ?m" if "w \<in> set want" for w
      using agree[OF that] by (metis image_eqI index_by_Some_set)
    then show ?thesis by (simp add: DiffSchema_Added filter_empty_conv)
  qed
  show "Relaxed (DiffSchema want ?m) = []" and "Conflicts (DiffSchema want ?m) = []"
    using agree by (fastforce simp: DiffSchema_Relaxed DiffSchema_no_conflict filter_empty_conv
        columns_agree_conflict)+
  show "Removed (DiffSchema want ?m) = Removed (DiffSchema want got)"
    using assms(4)
    by (auto simp: DiffSchema_Removed DiffSchema_Added mergeSchema_def filter_map o_def
        filter_empty_conv)
qed

text \<open>
  The default strategy converges. If it accepts the difference it found, then in the
  schema it sends as a patch every declared column is present and agrees with the
  declaration, and the columns only the table has are exactly those it had before: asking
  again finds nothing to add, relax or report.
\<close>

theorem append_converges:
  assumes "fst (AppendNewColumns_Plan a (found want got)) = Inr ch" and "wf_schema want" and "wf_schema got"
  shows "DiffSchema want (applied got ch) = no_diff\<lparr>Removed := Removed (DiffSchema want got)\<rparr>
    \<and> fst (AppendNewColumns_Plan a (found want (applied got ch))) = Inr no_change"
proof -
  have ch: "Conflicts (DiffSchema want got) = []" "AddColumns ch = Added (DiffSchema want got)"
    "RelaxColumns ch = Relaxed (DiffSchema want got)" "DropColumns ch = []"
    using assms(1) by (auto simp: plan_defs found_def split: option.splits)
  have "applied got ch = mergeSchema got ch"
    by (simp add: applied_def ch)
  moreover have "DiffSchema want (mergeSchema got ch) = no_diff\<lparr>Removed := Removed (DiffSchema want got)\<rparr>"
    using merged_diff[OF assms(2,3) ch(1-3)] by (simp add: no_diff_def)
  ultimately show ?thesis
    by (simp add: AppendNewColumns_Plan_def found_def no_diff_def conflictError_def no_change_def)
qed

theorem append_converges_witness:
  "DiffSchema [col ''a'' StringFieldType False, col ''b'' FloatFieldType False]
      [col ''a'' StringFieldType False, col ''z'' JSONFieldType False, col ''b'' FloatFieldType False]
     = no_diff\<lparr>Removed := [''z'']\<rparr>"
proof -
  let ?want = "[col ''a'' StringFieldType False, col ''b'' FloatFieldType False]"
  let ?got = "[col ''a'' StringFieldType True, col ''z'' JSONFieldType False]"
  let ?ch = "\<lparr>CreateTable = False, AddColumns = [col ''b'' FloatFieldType False],
    RelaxColumns = [''a''], DropColumns = []\<rparr>"
  have plan: "fst (AppendNewColumns_Plan \<lparr>append_CreateIfMissing = True\<rparr> (found ?want ?got)) = Inr ?ch"
    by (simp add: plan_defs diff_eval)
  have wf: "wf_schema ?want" "wf_schema ?got"
    by (simp_all add: col_def)
  have removed: "Removed (DiffSchema ?want ?got) = [''z'']"
    by (simp add: DiffSchema_Removed col_def)
  have "applied ?got ?ch = [col ''a'' StringFieldType False, col ''z'' JSONFieldType False, col ''b'' FloatFieldType False]"
    by (simp add: applied_def mergeSchema_def relax_column_def col_def)
  then show ?thesis
    using append_converges [OF plan wf] removed by simp
qed

section \<open>Ignored columns\<close>

definition managed :: "string list \<Rightarrow> Schema \<Rightarrow> Schema" where
  "managed ignored s = filter (\<lambda>f. fs_Name f \<notin> set ignored) s"

lemma managed_sel [simp]:
  "set (managed ns s) = {f \<in> set s. fs_Name f \<notin> set ns}"
  by (auto simp: managed_def)

lemma wf_schema_filter: "wf_schema s \<Longrightarrow> wf_schema (filter P s)"
  by (induction s) auto

lemma index_by_managed:
  "index_by fs_Name (managed ns s) k = (if k \<in> set ns then None else index_by fs_Name s k)"
  unfolding managed_def using index_by_filter[of fs_Name "\<lambda>k. k \<notin> set ns"] by simp

lemma filter_map_filter:
  "(\<And>x y. f x = Some y \<Longrightarrow> Q y = P x) \<Longrightarrow> filter Q (List.map_filter f xs) = List.map_filter f (filter P xs)"
  by (induction xs) (auto simp: List.map_filter_def)

text \<open>
  Leaving columns out of a difference is the same as comparing the two schemas with those
  columns taken out of both, so an ignored column is neither added, dropped, relaxed nor
  reported, whichever side has it.
\<close>

theorem Without_is_unmanaged:
  "Without (DiffSchema want got) ns = DiffSchema (managed ns want) (managed ns got)"
proof -
  let ?d = "DiffSchema want got" and ?e = "DiffSchema (managed ns want) (managed ns got)"
  have "Added (Without ?d ns) = Added ?e"
    by (auto simp: Without_sel DiffSchema_Added managed_def intro!: filter_cong)
  moreover have "Removed (Without ?d ns) = Removed ?e"
    by (auto simp: Without_sel DiffSchema_Removed managed_def filter_map o_def
        intro!: arg_cong[where f = "map fs_Name"] filter_cong)
  moreover have "Relaxed (Without ?d ns) = Relaxed ?e"
    by (auto simp: Without_sel DiffSchema_Relaxed index_by_managed[unfolded managed_def] filter_map o_def managed_def
        intro!: arg_cong[where f = "map fs_Name"] filter_cong)
  moreover have "Conflicts (Without ?d ns) = Conflicts ?e"
  proof -
    have "Conflicts (Without ?d ns) = List.map_filter (\<lambda>w. case index_by fs_Name got (fs_Name w) of
         None \<Rightarrow> None | Some g \<Rightarrow> map_option (\<lambda>r. \<lparr>sc_Name = fs_Name w, sc_Reason = r, sc_Want = w, sc_Got = g\<rparr>)
           (conflictBetween w g)) (managed ns want)"
      unfolding managed_def
      by (auto simp: Without_sel DiffSchema_def diff_step_fold no_diff_def Let_def
          split: option.splits intro!: filter_map_filter)
    also have "\<dots> = Conflicts ?e"
      by (auto simp: DiffSchema_def diff_step_fold no_diff_def Let_def index_by_managed
          intro!: map_filter_cong)
    finally show ?thesis .
  qed
  ultimately show ?thesis by simp
qed

lemma applied_settles:
  assumes wf: "wf_schema want" "wf_schema got" and none: "Conflicts (DiffSchema want got) = []"
    and ch: "AddColumns ch = Added (DiffSchema want got)" "RelaxColumns ch = Relaxed (DiffSchema want got)"
      "DropColumns ch = Removed (DiffSchema want got)"
  shows "diff_Empty (DiffSchema want (applied got ch))"
  unfolding diff_Empty_agree
proof (intro conjI ballI)
  let ?m = "mergeSchema got ch"
  have dropped: "n \<in> set (DropColumns ch) \<longleftrightarrow> n \<in> fs_Name ` set got \<and> n \<notin> fs_Name ` set want" for n
    by (auto simp: ch DiffSchema_Removed)
  have agree: "\<exists>g. index_by fs_Name ?m (fs_Name w) = Some g \<and> columns_agree w g" if "w \<in> set want" for w
    using merged_agrees[OF wf none ch(1,2) that] .
  have lookup: "index_by fs_Name (applied got ch) (fs_Name w) = index_by fs_Name ?m (fs_Name w)"
    if "w \<in> set want" for w
    using that unfolding applied_def
    by (subst index_by_filter[where P = "\<lambda>n. n \<notin> set (DropColumns ch)"]) (simp add: dropped)
  show "\<exists>g. index_by fs_Name (applied got ch) (fs_Name w) = Some g \<and> columns_agree w g" if "w \<in> set want" for w
    using agree[OF that] lookup[OF that] by simp
  have "fs_Name ` set want \<subseteq> fs_Name ` set (applied got ch)"
  proof (rule image_subsetI)
    fix w
    assume "w \<in> set want"
    with agree lookup obtain g where "index_by fs_Name (applied got ch) (fs_Name w) = Some g"
      by metis
    then show "fs_Name w \<in> fs_Name ` set (applied got ch)"
      by (metis image_eqI index_by_Some_set)
  qed
  moreover have "fs_Name ` set (applied got ch) \<subseteq> fs_Name ` set want"
    by (auto simp: applied_def mergeSchema_def dropped ch(1) DiffSchema_Added)
  ultimately show "fs_Name ` set want = fs_Name ` set (applied got ch)" by blast
qed

lemma managed_applied:
  assumes "set (RelaxColumns ch) \<inter> set ns = {}" and "fs_Name ` set (AddColumns ch) \<inter> set ns = {}"
  shows "managed ns (applied got ch) = applied (managed ns got) ch"
proof -
  have adds: "filter (\<lambda>f. fs_Name f \<notin> set ns) (AddColumns ch) = AddColumns ch"
    using assms(2) by (auto intro!: filter_True)
  show ?thesis
    unfolding managed_def applied_def mergeSchema_def
    by (simp add: filter_filter filter_map o_def conj_commute)
      (metis (no_types, lifting) adds filter_filter conj_commute filter_cong)
qed

lemma sync_applied:
  assumes "fst (SyncAllColumns_Plan s (found want got)) = Inr ch" and "wf_schema want" and "wf_schema got"
  shows "diff_Empty (Without (DiffSchema want (applied got ch)) (IgnoreColumns s))
    \<and> filter (\<lambda>f. fs_Name f \<in> set (IgnoreColumns s)) (applied got ch)
        = filter (\<lambda>f. fs_Name f \<in> set (IgnoreColumns s)) got
    \<and> fst (SyncAllColumns_Plan s (found want (applied got ch))) = Inr no_change"
proof -
  let ?ns = "IgnoreColumns s"
  let ?d = "DiffSchema (managed ?ns want) (managed ?ns got)"
  have ch: "Conflicts ?d = []" "AddColumns ch = Added ?d" "RelaxColumns ch = Relaxed ?d" "DropColumns ch = Removed ?d"
    using assms(1) by (auto simp: plan_defs found_def Without_is_unmanaged split: option.splits if_splits)
  have free: "set (RelaxColumns ch) \<inter> set ?ns = {}" "fs_Name ` set (AddColumns ch) \<inter> set ?ns = {}"
    "set (DropColumns ch) \<inter> set ?ns = {}"
    by (auto simp: ch DiffSchema_Relaxed DiffSchema_Added DiffSchema_Removed)
  have empty: "diff_Empty (Without (DiffSchema want (applied got ch)) ?ns)"
    unfolding Without_is_unmanaged managed_applied[OF free(1,2)]
    by (rule applied_settles) (use assms(2,3) ch in \<open>auto simp: managed_def wf_schema_filter\<close>)
  moreover have "filter (\<lambda>f. fs_Name f \<in> set ?ns) (applied got ch) = filter (\<lambda>f. fs_Name f \<in> set ?ns) got"
  proof -
    have "filter (\<lambda>f. fs_Name f \<in> set ?ns) (AddColumns ch) = []"
      using free(2) by (auto simp: filter_empty_conv)
    moreover have "filter (\<lambda>f. fs_Name f \<in> set ?ns) (filter (\<lambda>f. fs_Name f \<notin> set (DropColumns ch)) (map (relax_column ch) got))
        = filter (\<lambda>f. fs_Name f \<in> set ?ns) got"
      using free(1,3) by (induction got) (auto simp: relax_column_def)
    ultimately show ?thesis
      by (auto simp: applied_def mergeSchema_def filter_empty_conv)
  qed
  moreover have "fst (SyncAllColumns_Plan s (found want (applied got ch))) = Inr no_change"
    using empty by (simp add: SyncAllColumns_Plan_def found_def diff_Empty_def Let_def conflictError_def no_change_def)
  ultimately show ?thesis by blast
qed

text \<open>
  \<open>SyncAllColumns\<close> brings the table into step. If it accepts the difference, then after
  its change has been applied nothing but the columns it was told to ignore differs from the
  declaration; those columns are as they were, in the order they had; and asking again asks
  for nothing.
\<close>

theorem sync_converges:
  assumes "fst (SyncAllColumns_Plan s (found want got)) = Inr ch" and "wf_schema want" and "wf_schema got"
  shows "diff_Empty (Without (DiffSchema want (applied got ch)) (IgnoreColumns s))
    \<and> filter (\<lambda>f. fs_Name f \<in> set (IgnoreColumns s)) (applied got ch)
        = filter (\<lambda>f. fs_Name f \<in> set (IgnoreColumns s)) got
    \<and> fst (SyncAllColumns_Plan s (found want (applied got ch))) = Inr no_change"
  using sync_applied[OF assms] .

theorem sync_converges_witness:
  "filter (\<lambda>f. fs_Name f \<in> {''z''})
      (applied [col ''z'' JSONFieldType True, col ''y'' BytesFieldType False]
        \<lparr>CreateTable = False, AddColumns = [col ''b'' FloatFieldType False], RelaxColumns = [],
         DropColumns = [''y'']\<rparr>) = [col ''z'' JSONFieldType True]"
proof -
  let ?want = "[col ''z'' StringFieldType False, col ''b'' FloatFieldType False]"
  let ?got = "[col ''z'' JSONFieldType True, col ''y'' BytesFieldType False]"
  let ?ch = "\<lparr>CreateTable = False, AddColumns = [col ''b'' FloatFieldType False],
    RelaxColumns = [], DropColumns = [''y'']\<rparr>"
  let ?s = "\<lparr>IgnoreColumns = [''z''], sync_CreateIfMissing = False\<rparr>"
  have plan: "fst (SyncAllColumns_Plan ?s (found ?want ?got)) = Inr ?ch"
    by (simp add: plan_defs diff_eval)
  have wf: "wf_schema ?want" "wf_schema ?got"
    by (simp_all add: col_def)
  have "filter (\<lambda>f. fs_Name f \<in> set (IgnoreColumns ?s)) (applied ?got ?ch)
      = filter (\<lambda>f. fs_Name f \<in> set (IgnoreColumns ?s)) ?got"
    using sync_converges [OF plan wf] by blast
  then show ?thesis by (simp add: col_def)
qed

section \<open>What is reported\<close>

definition diff_names :: "SchemaDiff \<Rightarrow> string set" where
  "diff_names d = fs_Name ` set (Added d) \<union> set (Removed d) \<union> set (Relaxed d) \<union> sc_Name ` set (Conflicts d)"

definition change_names :: "SchemaChange \<Rightarrow> string set" where
  "change_names ch = fs_Name ` set (AddColumns ch) \<union> set (RelaxColumns ch) \<union> set (DropColumns ch)"

fun logged_names :: "log_event \<Rightarrow> string set" where
  "logged_names (LeavesAsItIs missing undeclared relax) = set missing \<union> set undeclared \<union> set relax"
| "logged_names (KeepsUndeclared names) = set names"
| "logged_names (IgnoredDiffer names) = set names"
| "logged_names _ = {}"

lemma mention_add_fold:
  "set (foldl (mention_add named) out names) = set out \<union> (set named \<inter> set names)"
  "distinct out \<Longrightarrow> distinct (foldl (mention_add named) out names)"
  by (induction names arbitrary: out) (auto simp: mention_add_def)

lemma mentions_spec: "set (mentions d ns) = set ns \<inter> diff_names d \<and> distinct (mentions d ns)"
  by (auto simp: mentions_def mention_add_fold diff_names_def)

lemma diff_names_Without: "diff_names (Without d ns) = diff_names d - set ns"
  by (auto simp: diff_names_def Without_sel)

text \<open>
  C12: no difference passes without a word. When a strategy of the package accepts the state of
  an existing table, every column that differs is either changed by the answer or named in a
  record the strategy logged; an existing table is never asked to be created, and a refusal
  is an error wrapping \<open>ErrSchemaConflict\<close> for a state that has conflicts.
\<close>

theorem plan_reports_the_rest:
  assumes "Exists st"
  shows "case fst (builtin_Plan b st) of
      Inl e \<Rightarrow> errors_Is e ErrSchemaConflict \<and> Conflicts (Diff st) \<noteq> []
    | Inr ch \<Rightarrow> \<not> CreateTable ch
        \<and> diff_names (Diff st) = change_names ch \<union> (\<Union>l\<in>set (snd (builtin_Plan b st)). logged_names l)"
proof (cases "fst (builtin_Plan b st)")
  case (Inl e)
  then show ?thesis using builtin.plan_error[OF Inl] by simp
next
  case (Inr ch)
  have "diff_names (Diff st) = change_names ch \<union> (\<Union>l\<in>set (snd (builtin_Plan b st)). logged_names l)"
  proof (cases b)
    case (NoneStrategy m)
    with Inr assms show ?thesis
      by (auto simp: plan_defs diff_names_def change_names_def diff_Empty_def split: option.splits)
  next
    case (AppendStrategy a)
    with Inr assms show ?thesis
      by (auto simp: plan_defs diff_names_def change_names_def split: option.splits)
  next
    case (SyncStrategy s)
    let ?w = "Without (Diff st) (IgnoreColumns s)"
    from Inr assms SyncStrategy have "Conflicts ?w = []"
      and ch: "AddColumns ch = Added ?w" "RelaxColumns ch = Relaxed ?w" "DropColumns ch = Removed ?w"
      by (auto simp: plan_defs split: option.splits)
    then have changed: "change_names ch = diff_names (Diff st) - set (IgnoreColumns s)"
      using diff_names_Without[of "Diff st" "IgnoreColumns s"] by (auto simp: change_names_def diff_names_def)
    have "(\<Union>l\<in>set (snd (builtin_Plan b st)). logged_names l) = set (mentions (Diff st) (IgnoreColumns s))"
      using Inr assms SyncStrategy by (auto simp: plan_defs split: option.splits if_splits)
    then show ?thesis using changed mentions_spec by auto
  qed
  then show ?thesis using Inr builtin.plan_creates[OF assms Inr] by simp
qed

theorem plan_reports_the_rest_witness:
  "diff_names (DiffSchema [col ''a'' FloatFieldType False] [col ''z'' JSONFieldType False]) = {''a'', ''z''}"
proof -
  let ?st = "found [col ''a'' FloatFieldType False] [col ''z'' JSONFieldType False]"
  have ex: "Exists ?st" by (simp add: found_def)
  have plan: "builtin_Plan (AppendStrategy \<lparr>append_CreateIfMissing = False\<rparr>) ?st
     = (Inr \<lparr>CreateTable = False, AddColumns = [col ''a'' FloatFieldType False], RelaxColumns = [],
             DropColumns = []\<rparr>, [KeepsUndeclared [''z'']])"
    by (simp add: plan_defs diff_eval)
  show ?thesis
    using plan_reports_the_rest [OF ex, of "AppendStrategy \<lparr>append_CreateIfMissing = False\<rparr>"]
    unfolding plan by (auto simp: found_def change_names_def col_def)
qed

end
