(* ===== verification/Apply.thy ===== *)
theory Apply
  imports Retry Strategies
begin

text \<open>
  The half of migration.go that touches the table: reading its metadata, asking the strategy,
  creating or patching the table and dropping columns; and the runner of DDL statements of
  bqsink.go. The table is reached through \<open>tableAPI\<close>, which the BigQuery client provides; what
  its documentation promises is \<open>table_contract\<close>.
\<close>

section \<open>What the table is reached through\<close>

text \<open>The interfaces \<open>tableAPI\<close> and \<open>queryRunner\<close>.\<close>

record 'w tableAPI =
  api_Metadata :: "'w \<Rightarrow> (gerr + TableMetadata) \<times> 'w"
  api_Update :: "Schema \<Rightarrow> string \<Rightarrow> 'w \<Rightarrow> gerr option \<times> 'w"
  api_Create :: "TableMetadata \<Rightarrow> 'w \<Rightarrow> gerr option \<times> 'w"
  query_run :: "string \<Rightarrow> 'w \<Rightarrow> gerr option \<times> 'w"

text \<open>
  \<open>clientQueryRunner.run\<close>, over the client's \<open>Query(sql).Run\<close> and the job's \<open>Wait\<close>, which
  gives the job's status: its own \<open>Err()\<close>.
\<close>

definition clientQueryRunner_run :: "(string \<Rightarrow> 'w \<Rightarrow> (gerr + 'j) \<times> 'w) \<Rightarrow>
    ('j \<Rightarrow> 'w \<Rightarrow> (gerr + gerr option) \<times> 'w) \<Rightarrow> string \<Rightarrow> 'w \<Rightarrow> gerr option \<times> 'w" where
  "clientQueryRunner_run submit wait sql w =
     (case submit sql w of
        (Inl e, w1) \<Rightarrow> (Some (EWrap (MigrationSite RunStatement) e), w1)
      | (Inr job, w1) \<Rightarrow>
          (case wait job w1 of
             (Inl e, w2) \<Rightarrow> (Some (EWrap (MigrationSite WaitForJob) e), w2)
           | (Inr (Some e), w2) \<Rightarrow> (Some (EWrap (MigrationSite JobFailed) e), w2)
           | (Inr None, w2) \<Rightarrow> (None, w2)))"

text \<open>The fields of a \<open>Sinker\<close> a migration reads.\<close>

record 'w migrator =
  mg_relation :: Relation
  mg_plan :: "TableState \<Rightarrow> plan_result"
  mg_schema :: Schema
  mg_metadata :: "TableMetadata option"
  mg_api :: "'w tableAPI"

section \<open>Dropping columns\<close>

definition column_char :: "char \<Rightarrow> bool" where
  "column_char c \<longleftrightarrow>
     (let n = of_char c :: nat
      in 97 \<le> n \<and> n \<le> 122 \<or> 65 \<le> n \<and> n \<le> 90 \<or> 48 \<le> n \<and> n \<le> 57 \<or> c = CHR ''_'')"

text \<open>The offending rune is known by its first byte.\<close>

definition checkColumnName :: "string \<Rightarrow> gerr option" where
  "checkColumnName name =
     (if name = [] then Some (EMsg (MigrationSite ColumnNameEmpty))
      else first_error (\<lambda>c. if column_char c then None
                            else Some (EMsg (MigrationSite (ColumnNameChar name c)))) name)"

definition drop_clause :: "string \<Rightarrow> string" where
  "drop_clause name = ''DROP COLUMN '' @ [backquote] @ name @ [backquote]"

definition drop_statement :: "Relation \<Rightarrow> string list \<Rightarrow> string" where
  "drop_statement r names = ''ALTER TABLE '' @ quoted r @ '' '' @ go_join '', '' (map drop_clause names)"

definition dropColumns :: "'w migrator \<Rightarrow> string list \<Rightarrow> 'w env \<Rightarrow> gerr option \<times> 'w env" where
  "dropColumns mg names env =
     (case first_error checkColumnName names of
        Some e \<Rightarrow> (Some (EWrap (MigrationSite RefuseToDrop) e), env)
      | None \<Rightarrow>
          (case on_world (query_run (mg_api mg) (drop_statement (mg_relation mg) names)) env of
             (Some e, env1) \<Rightarrow> (Some (EWrap (MigrationSite (DropColumnsFrom names)) e), env1)
           | (None, env1) \<Rightarrow> (None, log_add (DroppedColumns names) env1)))"

section \<open>Patching and creating the table\<close>

definition patchSchema :: "'w migrator \<Rightarrow> TableMetadata \<Rightarrow> SchemaChange \<Rightarrow> 'w env \<Rightarrow> gerr option \<times> 'w env" where
  "patchSchema mg md change env =
     (if AddColumns change = [] \<and> RelaxColumns change = [] then (None, env)
      else if requiredNames (AddColumns change) \<noteq> []
      then (Some (EWrap (MigrationSite (CannotAddRequired (requiredNames (AddColumns change))))
                    (ESentinel ErrSchemaConflict)), env)
      else (case on_world (api_Update (mg_api mg) (mergeSchema (columns_of md) change) (md_ETag md)) env of
              (Some e, env1) \<Rightarrow> (Some (EWrap (MigrationSite UpdateSchema) e), env1)
            | (None, env1) \<Rightarrow> (None, log_add (BroughtUp (namesOf (AddColumns change)) (RelaxColumns change)) env1)))"

definition createTable :: "'w migrator \<Rightarrow> 'w env \<Rightarrow> gerr option \<times> 'w env" where
  "createTable mg env =
     (case on_world (api_Create (mg_api mg) (newTableMetadata (mg_metadata mg) (mg_schema mg))) env of
        (Some e, env1) \<Rightarrow> (Some (EWrap (MigrationSite CreateRelation) e), env1)
      | (None, env1) \<Rightarrow> (None, log_add (CreatedTable (namesOf (mg_schema mg))) env1))"

definition apply_change :: "'w migrator \<Rightarrow> TableMetadata option \<Rightarrow> SchemaChange \<Rightarrow> 'w env \<Rightarrow> gerr option \<times> 'w env" where
  "apply_change mg md change env =
     (case md of
        None \<Rightarrow>
          if \<not> CreateTable change then (Some (EWrap (MigrationSite TableMissing) (ESentinel ErrTableMissing)), env)
          else createTable mg env
      | Some md \<Rightarrow>
          if change_Empty change then (None, log_add NeedsNoChange env)
          else (case patchSchema mg md change env of
                  (Some e, env1) \<Rightarrow> (Some e, env1)
                | (None, env1) \<Rightarrow>
                    if DropColumns change = [] then (None, env1)
                    else dropColumns mg (DropColumns change) env1))"

text \<open>\<open>state\<close> keeps its zero value for a table that does not exist.\<close>

definition migrate_planned :: "'w migrator \<Rightarrow> TableMetadata option \<Rightarrow> TableState \<Rightarrow> 'w env \<Rightarrow> gerr option \<times> 'w env" where
  "migrate_planned mg md st env =
     (case mg_plan mg st of
        (Inl e, ls) \<Rightarrow> (Some (EWrap (MigrationSite MigrateRelation) e), log_all ls env)
      | (Inr change, ls) \<Rightarrow> apply_change mg md change (log_all ls env))"

definition migrate :: "'w migrator \<Rightarrow> 'w env \<Rightarrow> gerr option \<times> 'w env" where
  "migrate mg env =
     (case on_world (api_Metadata (mg_api mg)) env of
        (Inr md, env1) \<Rightarrow>
          (let diff = DiffSchema (mg_schema mg) (columns_of md)
           in migrate_planned mg (Some md) \<lparr>Exists = True, Diff = diff\<rparr>
                (log_add (Compared (namesOf (Added diff)) (Removed diff) (Relaxed diff) (length (Conflicts diff))) env1))
      | (Inl e, env1) \<Rightarrow>
          if isNotFound e
          then migrate_planned mg None \<lparr>Exists = False, Diff = no_diff\<rparr> (log_add DoesNotExistYet env1)
          else (Some (EWrap (MigrationSite ReadMetadata) e), env1))"

section \<open>The statement that drops columns\<close>

text \<open>
  A text read as SQL alternates between what stands outside backquotes and what stands inside.
\<close>

fun evens :: "'a list \<Rightarrow> 'a list" where
  "evens [] = []"
| "evens [x] = [x]"
| "evens (x # y # xs) = x # evens xs"

fun odds :: "'a list \<Rightarrow> 'a list" where
  "odds [] = []"
| "odds [x] = []"
| "odds (x # y # xs) = y # odds xs"

definition backquoted :: "string \<Rightarrow> string list" where
  "backquoted sql = odds (go_split backquote sql)"

definition outside :: "string \<Rightarrow> string list" where
  "outside sql = evens (go_split backquote sql)"

lemma checkColumnName_None:
  "checkColumnName n = None \<longleftrightarrow> n \<noteq> [] \<and> list_all column_char n"
  by (auto simp: checkColumnName_def first_error_None list_all_iff split: if_splits)

lemma column_char_no_backquote: "list_all column_char n \<Longrightarrow> backquote \<notin> set n"
  by (auto simp: list_all_iff column_char_def)

lemma split_quoted: "backquote \<notin> set a \<Longrightarrow> backquote \<notin> set b \<Longrightarrow>
    go_split backquote (a @ backquote # b @ backquote # c) = a # b # go_split backquote c"
  by (simp add: go_split_append)

lemma split_clauses:
  assumes "\<And>n. n \<in> set (n1 # ns) \<Longrightarrow> backquote \<notin> set n" and "backquote \<notin> set pre"
  shows "go_split backquote (pre @ go_join '', '' (map drop_clause (n1 # ns)))
    = (pre @ ''DROP COLUMN '') # n1 # concat (map (\<lambda>n. ['', DROP COLUMN '', n]) ns) @ [[]]"
  using assms
proof (induction ns arbitrary: n1 pre)
  case Nil
  then show ?case
    using split_quoted[of "pre @ ''DROP COLUMN ''" n1 "[]"] by (simp add: drop_clause_def)
next
  case (Cons n2 ns)
  have "go_split backquote (pre @ go_join '', '' (map drop_clause (n1 # n2 # ns)))
      = (pre @ ''DROP COLUMN '') # n1 # go_split backquote ('', '' @ go_join '', '' (map drop_clause (n2 # ns)))"
    using split_quoted[of "pre @ ''DROP COLUMN ''" n1] Cons.prems by (simp add: drop_clause_def)
  also have "go_split backquote ('', '' @ go_join '', '' (map drop_clause (n2 # ns)))
      = '', DROP COLUMN '' # n2 # concat (map (\<lambda>n. ['', DROP COLUMN '', n]) ns) @ [[]]"
    using Cons.IH[of n2 "'', ''"] Cons.prems by simp
  finally show ?case by simp
qed

definition names_free_of_backquotes :: "Relation \<Rightarrow> bool" where
  "names_free_of_backquotes r \<longleftrightarrow> backquote \<notin> set (ProjectID r @ DatasetID r @ TableID r)"

lemma drop_statement_split:
  assumes "names_free_of_backquotes r" and "\<And>n. n \<in> set (n1 # ns) \<Longrightarrow> backquote \<notin> set n"
  shows "go_split backquote (drop_statement r (n1 # ns))
    = ''ALTER TABLE '' # (ProjectID r @ ''.'' @ DatasetID r @ ''.'' @ TableID r) #
      '' DROP COLUMN '' # n1 # concat (map (\<lambda>n. ['', DROP COLUMN '', n]) ns) @ [[]]"
  using split_quoted[of "''ALTER TABLE ''" "ProjectID r @ ''.'' @ DatasetID r @ ''.'' @ TableID r"]
    split_clauses[of n1 ns "'' ''"] assms
  by (simp add: drop_statement_def quoted_def names_free_of_backquotes_def)

lemma alternating:
  "odds (concat (map (\<lambda>n. [k, n]) ns) @ [e]) = ns"
  "evens (concat (map (\<lambda>n. [k, n]) ns) @ [e]) = replicate (length ns) k @ [e]"
  by (induction ns) auto

text \<open>
  C10: dropping columns never lets a column name be read as SQL. A name that is empty or holds
  a character BigQuery does not allow is refused before anything is run; otherwise exactly one
  statement is run, whose backquoted identifiers are the table's and the given names in their
  order, and whose text outside them is the fixed wording of an ALTER TABLE.
\<close>

theorem dropped_names_stay_quoted:
  assumes "names_free_of_backquotes (mg_relation mg)" and "names \<noteq> []"
  shows "if \<forall>n\<in>set names. n \<noteq> [] \<and> list_all column_char n
    then \<exists>sql. world (snd (dropColumns mg names env)) = snd (query_run (mg_api mg) sql (world env))
      \<and> (fst (dropColumns mg names env) = None \<longleftrightarrow> fst (query_run (mg_api mg) sql (world env)) = None)
      \<and> backquoted sql = (ProjectID (mg_relation mg) @ ''.'' @ DatasetID (mg_relation mg) @ ''.'' @ TableID (mg_relation mg)) # names
      \<and> outside sql = ''ALTER TABLE '' # '' DROP COLUMN '' # replicate (length names - 1) '', DROP COLUMN '' @ [[]]
    else fst (dropColumns mg names env) \<noteq> None \<and> snd (dropColumns mg names env) = env"
proof (cases "\<forall>n\<in>set names. n \<noteq> [] \<and> list_all column_char n")
  case True
  then have ok: "first_error checkColumnName names = None"
    by (simp add: first_error_None checkColumnName_None)
  obtain n1 ns where names: "names = n1 # ns" using assms(2) by (cases names) auto
  let ?sql = "drop_statement (mg_relation mg) names"
  have "world (snd (dropColumns mg names env)) = snd (query_run (mg_api mg) ?sql (world env))"
    "fst (dropColumns mg names env) = None \<longleftrightarrow> fst (query_run (mg_api mg) ?sql (world env)) = None"
    using ok by (auto simp: dropColumns_def on_world_def split: prod.splits option.splits)
  moreover have "go_split backquote ?sql
    = ''ALTER TABLE '' # (ProjectID (mg_relation mg) @ ''.'' @ DatasetID (mg_relation mg) @ ''.'' @ TableID (mg_relation mg)) #
      '' DROP COLUMN '' # n1 # concat (map (\<lambda>n. ['', DROP COLUMN '', n]) ns) @ [[]]"
    unfolding names using True names column_char_no_backquote
    by (intro drop_statement_split assms(1)) auto
  ultimately show ?thesis
    using True names by (auto simp: backquoted_def outside_def alternating)
next
  case False
  then obtain n where "n \<in> set names" "checkColumnName n \<noteq> None"
    by (auto simp: checkColumnName_None)
  then have "first_error checkColumnName names \<noteq> None"
    by (auto simp: first_error_None)
  with False show ?thesis by (auto simp: dropColumns_def)
qed

section \<open>What the table promises\<close>

text \<open>
  \<open>hist w\<close> is the versions the table has had so far, newest first, \<open>None\<close> where it did not
  exist. Other processes may change the table at any time, so a call finds whatever history
  has grown to by then. The laws are BigQuery's documented behaviour: metadata read is that of
  some version; an update given an ETag succeeds only on the version carrying it, and replaces
  the schema; a table is created only where there is none; a DROP COLUMN statement removes
  the columns it names.
\<close>

definition grows :: "('w \<Rightarrow> TableMetadata option list) \<Rightarrow> 'w \<Rightarrow> 'w \<Rightarrow> bool" where
  "grows hist w w' \<longleftrightarrow> (\<exists>new. hist w' = new @ hist w)"

definition table_contract :: "('w \<Rightarrow> TableMetadata option list) \<Rightarrow> 'w tableAPI \<Rightarrow> bool" where
  "table_contract hist api \<longleftrightarrow>
     (\<forall>w md w'. api_Metadata api w = (Inr md, w') \<longrightarrow> grows hist w w' \<and> Some md \<in> set (hist w')) \<and>
     (\<forall>s etag w w'. api_Update api s etag w = (None, w') \<longrightarrow> grows hist w w' \<and>
        (\<exists>old md past. hist w' = Some md # Some old # past \<and> md_ETag old = etag \<and> columns_of md = s)) \<and>
     (\<forall>m w w'. api_Create api m w = (None, w') \<longrightarrow> grows hist w w' \<and>
        (\<exists>md past. hist w' = Some md # None # past \<and> columns_of md = columns_of m)) \<and>
     (\<forall>r names w w'. query_run api (drop_statement r names) w = (None, w') \<longrightarrow>
        names_free_of_backquotes r \<longrightarrow> (\<forall>n\<in>set names. checkColumnName n = None) \<longrightarrow> names \<noteq> [] \<longrightarrow>
        grows hist w w' \<and> (\<exists>old md past. hist w' = Some md # Some old # past
           \<and> columns_of md = filter (\<lambda>f. fs_Name f \<notin> set names) (columns_of old)))"

text \<open>Versions carrying the same ETag have the same columns, and no version names one twice.\<close>

definition etags_identify :: "TableMetadata option list \<Rightarrow> bool" where
  "etags_identify vs \<longleftrightarrow>
     (\<forall>v\<in>set vs. \<forall>v'\<in>set vs. case (v, v') of
        (Some md, Some md') \<Rightarrow> md_ETag md = md_ETag md' \<longrightarrow> columns_of md = columns_of md'
      | _ \<Rightarrow> True)"

definition versions_wf :: "TableMetadata option list \<Rightarrow> bool" where
  "versions_wf vs \<longleftrightarrow> (\<forall>v\<in>set vs. case v of None \<Rightarrow> True | Some md \<Rightarrow> wf_schema (columns_of md))"

text \<open>No other process acts: what is read is the newest version, and calls add only their own.\<close>

definition undisturbed :: "('w \<Rightarrow> TableMetadata option list) \<Rightarrow> 'w tableAPI \<Rightarrow> bool" where
  "undisturbed hist api \<longleftrightarrow>
     (\<forall>w md w'. api_Metadata api w = (Inr md, w') \<longrightarrow> (\<exists>past. hist w' = Some md # past)) \<and>
     (\<forall>s etag w. \<exists>v. hist (snd (api_Update api s etag w)) \<in> {hist w, v # hist w}) \<and>
     (\<forall>sql w. \<exists>v. hist (snd (query_run api sql w)) \<in> {hist w, v # hist w})"

lemma contract_Metadata:
  "table_contract hist api \<Longrightarrow> api_Metadata api w = (Inr md, w') \<Longrightarrow> grows hist w w' \<and> Some md \<in> set (hist w')"
  by (simp add: table_contract_def)

lemma contract_Update:
  assumes "table_contract hist api" and "api_Update api s etag w = (None, w')"
  obtains old md past where "grows hist w w'" "hist w' = Some md # Some old # past" "md_ETag old = etag" "columns_of md = s"
  using assms unfolding table_contract_def by blast

lemma contract_Create:
  assumes "table_contract hist api" and "api_Create api m w = (None, w')"
  obtains md past where "hist w' = Some md # None # past" "columns_of md = columns_of m"
  using assms unfolding table_contract_def by blast

lemma contract_drop:
  assumes "table_contract hist api" and "query_run api (drop_statement r names) w = (None, w')"
    and "names_free_of_backquotes r" and "first_error checkColumnName names = None" and "names \<noteq> []"
  obtains old md past where "grows hist w w'" "hist w' = Some md # Some old # past"
    "columns_of md = filter (\<lambda>f. fs_Name f \<notin> set names) (columns_of old)"
  using assms unfolding table_contract_def first_error_None by blast

lemma etags_identifyD:
  "etags_identify vs \<Longrightarrow> Some md \<in> set vs \<Longrightarrow> Some md' \<in> set vs \<Longrightarrow> md_ETag md = md_ETag md' \<Longrightarrow>
     columns_of md = columns_of md'"
  unfolding etags_identify_def by (drule bspec, assumption, drule bspec, assumption) simp

lemma versions_wfD: "versions_wf vs \<Longrightarrow> Some md \<in> set vs \<Longrightarrow> wf_schema (columns_of md)"
  by (auto simp: versions_wf_def split: option.splits)

lemma grows_set: "grows hist w w' \<Longrightarrow> v \<in> set (hist w) \<Longrightarrow> v \<in> set (hist w')"
  by (auto simp: grows_def)

section \<open>Outcomes of the steps\<close>

lemma patchSchema_None:
  "patchSchema mg md ch env = (None, env') \<longleftrightarrow>
     AddColumns ch = [] \<and> RelaxColumns ch = [] \<and> env' = env
   \<or> (AddColumns ch \<noteq> [] \<or> RelaxColumns ch \<noteq> []) \<and> requiredNames (AddColumns ch) = []
     \<and> api_Update (mg_api mg) (mergeSchema (columns_of md) ch) (md_ETag md) (world env) = (None, world env')
     \<and> logs env' = logs env @ [BroughtUp (namesOf (AddColumns ch)) (RelaxColumns ch)]"
  by (auto simp: patchSchema_def on_world_def log_add_def env_eq_iff split: prod.splits option.splits)

lemma dropColumns_None:
  "dropColumns mg names env = (None, env') \<longleftrightarrow> first_error checkColumnName names = None
     \<and> query_run (mg_api mg) (drop_statement (mg_relation mg) names) (world env) = (None, world env')
     \<and> logs env' = logs env @ [DroppedColumns names]"
  by (auto simp: dropColumns_def on_world_def log_add_def env_eq_iff split: prod.splits option.splits)

lemma createTable_None:
  "createTable mg env = (None, env') \<longleftrightarrow>
     api_Create (mg_api mg) (newTableMetadata (mg_metadata mg) (mg_schema mg)) (world env) = (None, world env')
     \<and> logs env' = logs env @ [CreatedTable (namesOf (mg_schema mg))]"
  by (auto simp: createTable_def on_world_def log_add_def env_eq_iff split: prod.splits option.splits)

lemma apply_change_None:
  "apply_change mg (Some md) ch env = (None, env') \<longleftrightarrow>
     change_Empty ch \<and> env' = log_add NeedsNoChange env
   \<or> \<not> change_Empty ch \<and> (\<exists>env1. patchSchema mg md ch env = (None, env1)
        \<and> (if DropColumns ch = [] then env' = env1 else dropColumns mg (DropColumns ch) env1 = (None, env')))"
  by (auto simp: apply_change_def split: prod.splits option.splits)

lemma apply_change_missing:
  "apply_change mg None ch env = (None, env') \<longleftrightarrow> CreateTable ch \<and> createTable mg env = (None, env')"
  by (simp add: apply_change_def)

text \<open>A migration that returns nil either found the table or created it.\<close>

lemma migrate_None:
  assumes "migrate mg env = (None, env')"
  obtains (existing) md w1 ch env1 where "api_Metadata (mg_api mg) (world env) = (Inr md, w1)"
      "fst (mg_plan mg (found (mg_schema mg) (columns_of md))) = Inr ch" "world env1 = w1"
      "apply_change mg (Some md) ch env1 = (None, env')"
    | (created) e w1 ch env1 where "api_Metadata (mg_api mg) (world env) = (Inl e, w1)" "isNotFound e"
      "fst (mg_plan mg \<lparr>Exists = False, Diff = no_diff\<rparr>) = Inr ch" "world env1 = w1"
      "CreateTable ch" "createTable mg env1 = (None, env')"
proof (cases "api_Metadata (mg_api mg) (world env)")
  case (Pair r w1)
  show ?thesis
  proof (cases r)
    case (Inl e)
    with Pair assms have nf: "isNotFound e"
      by (auto simp: migrate_def on_world_def split: if_splits)
    obtain p ls where p: "mg_plan mg \<lparr>Exists = False, Diff = no_diff\<rparr> = (p, ls)" by force
    with Pair Inl nf assms obtain ch where "p = Inr ch"
      "apply_change mg None ch (log_all ls (log_add DoesNotExistYet (env\<lparr>world := w1\<rparr>))) = (None, env')"
      by (auto simp: migrate_def migrate_planned_def on_world_def split: sum.splits)
    with p Pair Inl nf show ?thesis
      by (intro created[of e w1 ch "log_all ls (log_add DoesNotExistYet (env\<lparr>world := w1\<rparr>))"])
        (simp_all add: apply_change_missing)
  next
    case (Inr md)
    let ?st = "found (mg_schema mg) (columns_of md)"
    obtain p ls where p: "mg_plan mg ?st = (p, ls)" by force
    have "\<exists>ch env1. p = Inr ch \<and> world env1 = w1 \<and> apply_change mg (Some md) ch env1 = (None, env')"
    proof (cases p)
      case (Inl e)
      with Pair Inr assms p show ?thesis
        by (simp add: migrate_def migrate_planned_def on_world_def found_def Let_def)
    next
      case (Inr ch)
      with Pair \<open>r = Inr md\<close> assms p show ?thesis
        by (intro exI conjI) (simp_all add: migrate_def migrate_planned_def on_world_def found_def Let_def)
    qed
    then obtain ch env1 where "p = Inr ch" "world env1 = w1"
      "apply_change mg (Some md) ch env1 = (None, env')" by blast
    with p Pair Inr show ?thesis by (intro existing) simp_all
  qed
qed

lemma created_version:
  assumes "table_contract hist (mg_api mg)" and "createTable mg env1 = (None, env')"
  obtains md past where "hist (world env') = Some md # None # past" "columns_of md = mg_schema mg"
proof -
  have "api_Create (mg_api mg) (newTableMetadata (mg_metadata mg) (mg_schema mg)) (world env1) = (None, world env')"
    using assms(2) by (simp add: createTable_None)
  from contract_Create[OF assms(1) this] that show ?thesis by (metis newTableMetadata_columns)
qed

lemma undisturbed_run:
  assumes "undisturbed hist api" and "query_run api sql w = (None, w')"
  shows "hist w' = hist w \<or> tl (hist w') = hist w"
proof -
  obtain v where "hist (snd (query_run api sql w)) \<in> {hist w, v # hist w}"
    using assms(1) unfolding undisturbed_def by blast
  with assms(2) show ?thesis by auto
qed

section \<open>What a migration achieves\<close>

definition settled :: "Schema \<Rightarrow> Schema \<Rightarrow> bool" where
  "settled want got \<longleftrightarrow> Added (DiffSchema want got) = [] \<and> Relaxed (DiffSchema want got) = []
     \<and> Conflicts (DiffSchema want got) = []"

text \<open>Each column of the old schema keeps its place, and loses nothing but REQUIRED.\<close>

definition keeps_columns :: "Schema \<Rightarrow> Schema \<Rightarrow> bool" where
  "keeps_columns old new \<longleftrightarrow> length old \<le> length new
     \<and> (\<forall>i<length old. new ! i = old ! i \<or> new ! i = with_Required False (old ! i))"

lemma mergeSchema_unchanged: "AddColumns ch = [] \<Longrightarrow> RelaxColumns ch = [] \<Longrightarrow> mergeSchema got ch = got"
  by (simp add: mergeSchema_def relax_column_def map_idI)

lemma keeps_columns_merge: "keeps_columns got (mergeSchema got ch)"
  by (simp add: keeps_columns_def mergeSchema_def nth_append relax_column_def)

lemma settled_same: "wf_schema s \<Longrightarrow> settled s s"
  using diff_Empty_same[of s s] sameNestedSchema_refl[of s] by (simp add: settled_def diff_Empty_def)

lemma append_Plan_found:
  assumes "fst (AppendNewColumns_Plan a (found want got)) = Inr ch"
  shows "Conflicts (DiffSchema want got) = []" and "AddColumns ch = Added (DiffSchema want got)"
    and "RelaxColumns ch = Relaxed (DiffSchema want got)" and "DropColumns ch = []"
  using assms by (auto simp: plan_defs found_def split: option.splits)

lemma append_settles:
  assumes "fst (AppendNewColumns_Plan a (found want got)) = Inr ch" and "wf_schema want" and "wf_schema got"
  shows "settled want (mergeSchema got ch)"
  using merged_diff[OF assms(2,3) append_Plan_found(1-3)[OF assms(1)]] by (simp add: settled_def)

text \<open>
  C1: the default migration, when it reports success, leaves a version of the table holding
  every declared column as declared, and never loses anybody else's columns: whatever version
  its own change replaced, that version's columns keep their place in the new one, even where
  another process changed the table between the reading and the writing.
\<close>

theorem append_migration_keeps_columns:
  assumes "table_contract hist (mg_api mg)" and "mg_plan mg = AppendNewColumns_Plan a"
    and "wf_schema (mg_schema mg)" and "migrate mg env = (None, env')"
    and "etags_identify (hist (world env'))" and "versions_wf (hist (world env'))"
  shows "(\<exists>md. Some md \<in> set (hist (world env')) \<and> settled (mg_schema mg) (columns_of md))
    \<and> (world env' = snd (api_Metadata (mg_api mg) (world env))
       \<or> (\<exists>md old past. hist (world env') = Some md # old # past
            \<and> settled (mg_schema mg) (columns_of md)
            \<and> (case old of None \<Rightarrow> columns_of md = mg_schema mg
               | Some v \<Rightarrow> keeps_columns (columns_of v) (columns_of md))))"
  using assms(4)
proof (cases rule: migrate_None)
  case (existing md w1 ch env1)
  have read: "Some md \<in> set (hist w1)"
    using contract_Metadata[OF assms(1) existing(1)] by blast
  note plan = existing(2)[unfolded assms(2)]
  show ?thesis
  proof (cases "AddColumns ch = [] \<and> RelaxColumns ch = []")
    case True
    then have w: "world env' = w1"
      using existing(3,4) append_Plan_found(4)[OF plan] by (auto simp: apply_change_None patchSchema_None)
    with read assms(6) have "wf_schema (columns_of md)"
      by (simp add: versions_wfD)
    then have "settled (mg_schema mg) (columns_of md)"
      using append_Plan_found(1-3)[OF plan] True by (simp add: settled_def)
    with w read existing(1) show ?thesis by auto
  next
    case False
    then have "patchSchema mg md ch env1 = (None, env')"
      using existing(4) append_Plan_found(4)[OF plan] by (auto simp: apply_change_None change_Empty_def)
    with False existing(3) have "api_Update (mg_api mg) (mergeSchema (columns_of md) ch) (md_ETag md) w1 = (None, world env')"
      by (auto simp: patchSchema_None)
    from contract_Update[OF assms(1) this] obtain old new past where u: "grows hist w1 (world env')"
      "hist (world env') = Some new # Some old # past" "md_ETag old = md_ETag md"
      "columns_of new = mergeSchema (columns_of md) ch" by blast
    have mem: "Some md \<in> set (hist (world env'))" using grows_set[OF u(1) read] .
    then have same: "columns_of old = columns_of md"
      using u by (intro etags_identifyD[OF assms(5)]) auto
    have "settled (mg_schema mg) (columns_of new)"
      using append_settles[OF plan assms(3) versions_wfD[OF assms(6) mem]] u(4) by simp
    with u same keeps_columns_merge[of "columns_of md" ch] show ?thesis by auto
  qed
next
  case (created e w1 ch env1)
  obtain md past where "hist (world env') = Some md # None # past" "columns_of md = mg_schema mg"
    using created_version[OF assms(1) created(6)] .
  with settled_same[OF assms(3)] show ?thesis by auto
qed

text \<open>A change applied to the newest version, with nobody else at work, gives the version asked for.\<close>

lemma undisturbed_apply:
  assumes "table_contract hist (mg_api mg)" and "undisturbed hist (mg_api mg)"
    and "names_free_of_backquotes (mg_relation mg)" and "apply_change mg (Some md) ch env1 = (None, env')"
    and "hist (world env1) = Some md # past"
  shows "\<exists>new past. hist (world env') = Some new # past \<and> columns_of new = applied (columns_of md) ch
    \<and> Some md \<in> set (hist (world env'))"
proof -
  have kept: "Some md \<in> set (hist (world env2))"
    and patched: "\<exists>new past. hist (world env2) = Some new # past \<and> columns_of new = mergeSchema (columns_of md) ch"
    if "patchSchema mg md ch env1 = (None, env2)" for env2
    using that assms(5)
    by (auto simp: patchSchema_None mergeSchema_unchanged elim!: contract_Update[OF assms(1)] dest: grows_set)
  show ?thesis
  proof (cases "change_Empty ch")
    case True
    with assms(4,5) show ?thesis
      by (auto simp: apply_change_None change_Empty_def applied_def mergeSchema_unchanged)
  next
    case False
    with assms(4) obtain env2 where env2: "patchSchema mg md ch env1 = (None, env2)"
      "if DropColumns ch = [] then env' = env2 else dropColumns mg (DropColumns ch) env2 = (None, env')"
      by (auto simp: apply_change_None)
    obtain new past where new: "hist (world env2) = Some new # past" "columns_of new = mergeSchema (columns_of md) ch"
      using patched[OF env2(1)] by blast
    show ?thesis
    proof (cases "DropColumns ch = []")
      case True
      with env2 new kept[OF env2(1)] show ?thesis by (auto simp: applied_def)
    next
      case False
      with env2(2) have d: "first_error checkColumnName (DropColumns ch) = None"
        "query_run (mg_api mg) (drop_statement (mg_relation mg) (DropColumns ch)) (world env2) = (None, world env')"
        by (simp_all add: dropColumns_None)
      from contract_drop[OF assms(1) d(2) assms(3) d(1) False] obtain old dropped past' where
        g: "grows hist (world env2) (world env')" "hist (world env') = Some dropped # Some old # past'"
        "columns_of dropped = filter (\<lambda>f. fs_Name f \<notin> set (DropColumns ch)) (columns_of old)" by blast
      have "hist (world env') = hist (world env2) \<or> tl (hist (world env')) = hist (world env2)"
        using undisturbed_run[OF assms(2) d(2)] .
      then have "columns_of dropped = applied (columns_of md) ch"
      proof
        assume "hist (world env') = hist (world env2)"
        with g(2) new have "columns_of dropped = mergeSchema (columns_of md) ch" by simp
        then have "mergeSchema (columns_of md) ch = filter (\<lambda>f. fs_Name f \<notin> set (DropColumns ch)) (columns_of old)"
          by (simp add: g(3))
        then show ?thesis by (simp add: applied_def g(3))
      next
        assume "tl (hist (world env')) = hist (world env2)"
        with g(2,3) new show ?thesis by (simp add: applied_def)
      qed
      with g(2) grows_set[OF g(1) kept[OF env2(1)]] show ?thesis by auto
    qed
  qed
qed

text \<open>
  C8: \<open>SyncAllColumns\<close>, when its migration reports success and no other process acts
  meanwhile, leaves a table that differs from the declaration in nothing but the columns it
  was told to ignore, and those are as they were.
\<close>

theorem sync_migration_converges:
  assumes "table_contract hist (mg_api mg)" and "undisturbed hist (mg_api mg)"
    and "mg_plan mg = SyncAllColumns_Plan s" and "wf_schema (mg_schema mg)"
    and "names_free_of_backquotes (mg_relation mg)" and "migrate mg env = (None, env')"
    and "versions_wf (hist (world env'))"
  shows "\<exists>md past. hist (world env') = Some md # past
    \<and> diff_Empty (Without (DiffSchema (mg_schema mg) (columns_of md)) (IgnoreColumns s))
    \<and> (\<forall>old w1. api_Metadata (mg_api mg) (world env) = (Inr old, w1) \<longrightarrow>
         filter (\<lambda>f. fs_Name f \<in> set (IgnoreColumns s)) (columns_of md)
           = filter (\<lambda>f. fs_Name f \<in> set (IgnoreColumns s)) (columns_of old))"
  using assms(6)
proof (cases rule: migrate_None)
  case (existing md w1 ch env1)
  note plan = existing(2)[unfolded assms(3)]
  obtain past where read: "hist w1 = Some md # past"
    using assms(2) existing(1) unfolding undisturbed_def by blast
  have "\<exists>new past. hist (world env') = Some new # past \<and> columns_of new = applied (columns_of md) ch
      \<and> Some md \<in> set (hist (world env'))"
    using undisturbed_apply[OF assms(1,2,5) existing(4)] read existing(3) by simp
  then obtain new past' where new: "hist (world env') = Some new # past'" "columns_of new = applied (columns_of md) ch"
    and "wf_schema (columns_of md)"
    using versions_wfD[OF assms(7)] by blast
  with sync_applied[OF plan assms(4)] existing(1) show ?thesis by auto
next
  case (created e w1 ch env1)
  obtain md past where "hist (world env') = Some md # None # past" "columns_of md = mg_schema mg"
    using created_version[OF assms(1) created(6)] .
  moreover have "diff_Empty (Without (DiffSchema (mg_schema mg) (mg_schema mg)) (IgnoreColumns s))"
    unfolding Without_is_unmanaged
    using assms(4) by (simp add: diff_Empty_same managed_def wf_schema_filter sameNestedSchema_refl)
  ultimately show ?thesis using created(1) by auto
qed

text \<open>The sentinels are the package's own: nothing outside it returns one.\<close>

definition foreign_errors :: "'w tableAPI \<Rightarrow> bool" where
  "foreign_errors api \<longleftrightarrow>
     (\<forall>w e k. fst (api_Metadata api w) = Inl e \<longrightarrow> \<not> errors_Is e k) \<and>
     (\<forall>s t w e k. fst (api_Update api s t w) = Some e \<longrightarrow> \<not> errors_Is e k) \<and>
     (\<forall>m w e k. fst (api_Create api m w) = Some e \<longrightarrow> \<not> errors_Is e k) \<and>
     (\<forall>q w e k. fst (query_run api q w) = Some e \<longrightarrow> \<not> errors_Is e k)"

lemma checkColumnName_foreign: "first_error checkColumnName names = Some e \<Longrightarrow> \<not> errors_Is e k"
  by (auto simp: checkColumnName_def dest!: first_error_Some split: if_splits)

lemma dropColumns_sentinel:
  "foreign_errors (mg_api mg) \<Longrightarrow> dropColumns mg names env = (Some e, env') \<Longrightarrow> \<not> errors_Is e k"
  unfolding foreign_errors_def dropColumns_def on_world_def
  by (auto split: option.splits prod.splits dest: checkColumnName_foreign) (metis fst_conv)

lemma createTable_sentinel:
  "foreign_errors (mg_api mg) \<Longrightarrow> createTable mg env = (Some e, env') \<Longrightarrow> \<not> errors_Is e k"
  unfolding foreign_errors_def createTable_def on_world_def
  by (auto split: option.splits prod.splits) (metis fst_conv)

lemma patchSchema_sentinel:
  "foreign_errors (mg_api mg) \<Longrightarrow> patchSchema mg md ch env = (Some e, env') \<Longrightarrow> errors_Is e k \<Longrightarrow>
     env' = env \<and> k = ErrSchemaConflict"
  unfolding foreign_errors_def patchSchema_def on_world_def
  by (auto split: option.splits prod.splits if_splits) (metis fst_conv)+

lemma apply_change_sentinel:
  "foreign_errors (mg_api mg) \<Longrightarrow> apply_change mg md ch env = (Some e, env') \<Longrightarrow> errors_Is e k \<Longrightarrow>
     env' = env \<and> k = (if md = None then ErrTableMissing else ErrSchemaConflict)"
  unfolding apply_change_def
  by (auto split: option.splits prod.splits if_splits
      dest: dropColumns_sentinel createTable_sentinel patchSchema_sentinel)

lemma migrate_planned_sentinel:
  assumes "foreign_errors (mg_api mg)" and "mg_plan mg = builtin_Plan b"
    and "migrate_planned mg md st env = (Some e, env')" and "errors_Is e k" and "Exists st \<longleftrightarrow> md \<noteq> None"
  shows "world env' = world env \<and> k = (if md = None then ErrTableMissing else ErrSchemaConflict)"
proof -
  obtain p ls where p: "builtin_Plan b st = (p, ls)" by force
  show ?thesis
  proof (cases p)
    case (Inl d)
    have "Exists st" using p Inl builtin.plan_missing[of st b] by auto
    moreover have "errors_Is d k \<Longrightarrow> k = ErrSchemaConflict"
      using p Inl \<open>Exists st\<close>
      by (cases b) (auto simp: plan_defs conflictError_def split: if_splits option.splits)
    ultimately show ?thesis using assms p Inl by (auto simp: migrate_planned_def)
  next
    case (Inr ch)
    with assms(2,3) p have "apply_change mg md ch (log_all ls env) = (Some e, env')"
      by (simp add: migrate_planned_def)
    from apply_change_sentinel[OF assms(1) this assms(4)] show ?thesis by auto
  qed
qed

text \<open>
  C11: a migration that is refused touches nothing. Where the error wraps \<open>ErrTableMissing\<close> or
  \<open>ErrSchemaConflict\<close>, reading the metadata is all that was done, and the table is missing in
  the one case and there in the other.
\<close>

theorem refused_migration_touches_nothing:
  assumes "foreign_errors (mg_api mg)" and "mg_plan mg = builtin_Plan b"
    and "migrate mg env = (Some e, env')" and "errors_Is e k"
  shows "world env' = snd (api_Metadata (mg_api mg) (world env)) \<and> k \<noteq> ErrWriterClosed
    \<and> (k = ErrTableMissing \<longleftrightarrow> (\<exists>d. fst (api_Metadata (mg_api mg) (world env)) = Inl d \<and> isNotFound d))
    \<and> (k = ErrSchemaConflict \<longleftrightarrow> is_ok (fst (api_Metadata (mg_api mg) (world env))))"
proof (cases "api_Metadata (mg_api mg) (world env)")
  case (Pair r w1)
  show ?thesis
  proof (cases r)
    case (Inl d)
    have foreign: "\<not> errors_Is d k"
      using assms(1) Pair Inl unfolding foreign_errors_def by (metis fst_conv)
    with Pair Inl assms(3,4) have nf: "isNotFound d"
      by (auto simp: migrate_def on_world_def split: if_splits)
    with Pair Inl assms(3) have "migrate_planned mg None \<lparr>Exists = False, Diff = no_diff\<rparr>
        (log_add DoesNotExistYet (env\<lparr>world := w1\<rparr>)) = (Some e, env')"
      by (simp add: migrate_def on_world_def)
    from migrate_planned_sentinel[OF assms(1,2) this assms(4)] Pair Inl nf show ?thesis by simp
  next
    case (Inr md)
    let ?d = "DiffSchema (mg_schema mg) (columns_of md)"
    from Pair Inr assms(3) have planned: "migrate_planned mg (Some md) \<lparr>Exists = True, Diff = ?d\<rparr>
        (log_add (Compared (namesOf (Added ?d)) (Removed ?d) (Relaxed ?d) (length (Conflicts ?d)))
          (env\<lparr>world := w1\<rparr>)) = (Some e, env')"
      by (simp add: migrate_def on_world_def Let_def)
    from migrate_planned_sentinel[OF assms(1,2) this assms(4)] Pair Inr show ?thesis
      by (cases k) auto
  qed
qed

section \<open>A table that keeps the contract\<close>

text \<open>Its state is the list of its versions; a DROP COLUMN statement is read by its backquotes.\<close>

definition next_version :: "TableMetadata option list \<Rightarrow> TableMetadata \<Rightarrow> Schema \<Rightarrow> TableMetadata option list" where
  "next_version vs md s = Some (md\<lparr>md_Schema := Some s, md_ETag := replicate (length vs) CHR ''e''\<rparr>) # vs"

definition plain_table :: "TableMetadata option list tableAPI" where
  "plain_table = \<lparr>
     api_Metadata = (\<lambda>vs. case vs of Some md # _ \<Rightarrow> (Inr md, vs) | _ \<Rightarrow> (Inl (EApi 404), vs)),
     api_Update = (\<lambda>s etag vs. case vs of
        Some md # _ \<Rightarrow> if md_ETag md = etag then (None, next_version vs md s) else (Some (EApi 412), vs)
      | _ \<Rightarrow> (Some (EApi 404), vs)),
     api_Create = (\<lambda>m vs. case vs of None # _ \<Rightarrow> (None, next_version vs m (columns_of m)) | _ \<Rightarrow> (Some (EApi 409), vs)),
     query_run = (\<lambda>sql vs. case vs of
        Some md # _ \<Rightarrow> (None, next_version vs md
          (filter (\<lambda>f. fs_Name f \<notin> set (tl (backquoted sql))) (columns_of md)))
      | _ \<Rightarrow> (Some (EApi 404), vs))\<rparr>"

lemma grows_Cons: "grows id vs (v # vs)"
  by (simp add: grows_def)

lemma columns_next: "columns_of (md\<lparr>md_Schema := Some s, md_ETag := t\<rparr>) = s"
  by (simp add: columns_of_def)

lemma backquoted_drop:
  assumes "names_free_of_backquotes r" and "\<forall>n\<in>set names. checkColumnName n = None" and "names \<noteq> []"
  shows "tl (backquoted (drop_statement r names)) = names"
proof -
  obtain n1 ns where names: "names = n1 # ns" using assms(3) by (cases names) auto
  have "go_split backquote (drop_statement r names) = ''ALTER TABLE '' # (ProjectID r @ ''.'' @ DatasetID r @ ''.'' @ TableID r) #
      '' DROP COLUMN '' # n1 # concat (map (\<lambda>n. ['', DROP COLUMN '', n]) ns) @ [[]]"
    unfolding names using assms(2) names column_char_no_backquote
    by (intro drop_statement_split assms(1)) (auto simp: checkColumnName_None)
  then show ?thesis by (simp add: backquoted_def alternating names)
qed

lemma plain_table_contract: "table_contract id plain_table"
proof -
  have same: "grows id vs vs" for vs :: "TableMetadata option list" by (simp add: grows_def)
  show ?thesis
    unfolding table_contract_def plain_table_def
    by (auto simp: same grows_Cons backquoted_drop next_version_def columns_next
        split: list.splits option.splits if_splits)
qed

lemma plain_table_undisturbed: "undisturbed id plain_table"
  unfolding undisturbed_def plain_table_def
  by (auto simp: next_version_def split: list.splits option.splits)

lemma plain_table_foreign: "foreign_errors plain_table"
  unfolding foreign_errors_def plain_table_def by (auto split: list.splits option.splits if_splits)

definition plain_migrator :: "(TableState \<Rightarrow> plan_result) \<Rightarrow> Schema \<Rightarrow> TableMetadata option list migrator" where
  "plain_migrator plan schema =
     \<lparr>mg_relation = \<lparr>ProjectID = ''p'', DatasetID = ''d'', TableID = ''t''\<rparr>, mg_plan = plan,
      mg_schema = schema, mg_metadata = None, mg_api = plain_table\<rparr>"

definition one_version :: "Schema \<Rightarrow> TableMetadata option list" where
  "one_version s = [Some (empty_metadata\<lparr>md_Schema := Some s\<rparr>)]"

lemmas plain_eval = plain_migrator_def plain_table_def one_version_def next_version_def
  empty_metadata_def columns_of_def

lemmas migrate_eval = migrate_def migrate_planned_def on_world_def apply_change_def change_Empty_def
  patchSchema_def requiredNames_def dropColumns_def mergeSchema_def relax_column_def

theorem dropped_names_stay_quoted_witness:
  "\<exists>sql. backquoted sql = [''p.d.t'', ''a'', ''b''] \<and> outside sql = [''ALTER TABLE '', '' DROP COLUMN '', '', DROP COLUMN '', [] ]"
proof -
  let ?mg = "plain_migrator (MigrationNone_Plan \<lparr>none_CreateIfMissing = False\<rparr>) []"
  have free: "names_free_of_backquotes (mg_relation ?mg)"
    by (simp add: plain_migrator_def names_free_of_backquotes_def)
  have ok: "\<forall>n\<in>set [''a'', ''b'']. n \<noteq> [] \<and> list_all column_char n"
    by (simp add: column_char_def)
  show ?thesis
    using dropped_names_stay_quoted[OF free, of "[''a'', ''b'']" "\<lparr>world = [], logs = []\<rparr>"] ok
    by (auto simp: plain_migrator_def)
qed

definition plain_env :: "Schema \<Rightarrow> TableMetadata option list env" where
  "plain_env s = \<lparr>world = one_version s, logs = []\<rparr>"

lemma plain_append_run:
  "migrate (plain_migrator (AppendNewColumns_Plan \<lparr>append_CreateIfMissing = True\<rparr>)
       [col ''a'' StringFieldType False, col ''b'' FloatFieldType False])
     (plain_env [col ''a'' StringFieldType True])
   = (None, \<lparr>world = next_version (one_version [col ''a'' StringFieldType True])
          (empty_metadata\<lparr>md_Schema := Some [col ''a'' StringFieldType True]\<rparr>)
          [col ''a'' StringFieldType False, col ''b'' FloatFieldType False],
        logs = [Compared [''b''] [] [''a''] 0, BroughtUp [''b''] [''a'']]\<rparr>)"
  by (simp add: plain_env_def plain_eval migrate_eval plan_defs diff_eval log_add_def log_all_def)

theorem append_migration_keeps_columns_witness:
  "settled [col ''a'' StringFieldType False, col ''b'' FloatFieldType False]
     [col ''a'' StringFieldType False, col ''b'' FloatFieldType False]"
proof -
  let ?mg = "plain_migrator (AppendNewColumns_Plan \<lparr>append_CreateIfMissing = True\<rparr>)
     [col ''a'' StringFieldType False, col ''b'' FloatFieldType False]"
  have contract: "table_contract id (mg_api ?mg)" and plan: "mg_plan ?mg = AppendNewColumns_Plan \<lparr>append_CreateIfMissing = True\<rparr>"
    and wf: "wf_schema (mg_schema ?mg)"
    by (simp_all add: plain_migrator_def plain_table_contract col_def)
  from append_migration_keeps_columns[OF contract plan wf plain_append_run]
  show ?thesis
    by (simp add: plain_env_def plain_eval etags_identify_def versions_wf_def col_def)
qed

lemma plain_sync_run:
  "migrate (plain_migrator (SyncAllColumns_Plan \<lparr>IgnoreColumns = [''z''], sync_CreateIfMissing = True\<rparr>)
       [col ''a'' StringFieldType False]) (plain_env [col ''z'' StringFieldType True, col ''y'' FloatFieldType False])
   = (None, \<lparr>world =
       [Some (empty_metadata\<lparr>md_Schema := Some [col ''z'' StringFieldType True, col ''a'' StringFieldType False], md_ETag := ''ee''\<rparr>),
        Some (empty_metadata\<lparr>md_Schema := Some [col ''z'' StringFieldType True, col ''y'' FloatFieldType False, col ''a'' StringFieldType False], md_ETag := ''e''\<rparr>),
        Some (empty_metadata\<lparr>md_Schema := Some [col ''z'' StringFieldType True, col ''y'' FloatFieldType False]\<rparr>)],
       logs = [Compared [''a''] [''z'', ''y''] [] 0, IgnoredDiffer [''z''], BroughtUp [''a''] [], DroppedColumns [''y'']]\<rparr>)"
  by (simp add: plain_env_def plain_eval migrate_eval plan_defs diff_eval log_add_def log_all_def
      checkColumnName_def column_char_def drop_statement_def quoted_def drop_clause_def backquoted_def)

theorem sync_migration_converges_witness:
  "diff_Empty (Without (DiffSchema [col ''a'' StringFieldType False]
     [col ''z'' StringFieldType True, col ''a'' StringFieldType False]) [''z''])"
proof -
  let ?mg = "plain_migrator (SyncAllColumns_Plan \<lparr>IgnoreColumns = [''z''], sync_CreateIfMissing = True\<rparr>)
     [col ''a'' StringFieldType False]"
  have contract: "table_contract id (mg_api ?mg)" and quiet: "undisturbed id (mg_api ?mg)"
    and plan: "mg_plan ?mg = SyncAllColumns_Plan \<lparr>IgnoreColumns = [''z''], sync_CreateIfMissing = True\<rparr>"
    and wf: "wf_schema (mg_schema ?mg)" and rel: "names_free_of_backquotes (mg_relation ?mg)"
    by (simp_all add: plain_migrator_def plain_table_contract plain_table_undisturbed col_def names_free_of_backquotes_def)
  from sync_migration_converges[OF contract quiet plan wf rel plain_sync_run]
  show ?thesis
    by (simp add: plain_migrator_def versions_wf_def columns_of_def col_def)
qed

theorem refused_migration_touches_nothing_witness:
  "world (snd (migrate (plain_migrator (builtin_Plan (AppendStrategy \<lparr>append_CreateIfMissing = False\<rparr>)) [])
     \<lparr>world = [None], logs = []\<rparr>)) = [None]"
proof -
  let ?mg = "plain_migrator (builtin_Plan (AppendStrategy \<lparr>append_CreateIfMissing = False\<rparr>)) []"
  have foreign: "foreign_errors (mg_api ?mg)"
    and plan: "mg_plan ?mg = builtin_Plan (AppendStrategy \<lparr>append_CreateIfMissing = False\<rparr>)"
    by (simp_all add: plain_migrator_def plain_table_foreign)
  have run: "migrate ?mg \<lparr>world = [None], logs = []\<rparr>
    = (Some (EWrap (MigrationSite TableMissing) (ESentinel ErrTableMissing)), \<lparr>world = [None], logs = [DoesNotExistYet]\<rparr>)"
    by (simp add: plain_eval migrate_eval plan_defs log_add_def log_all_def isNotFound_def)
  have "errors_Is (EWrap (MigrationSite TableMissing) (ESentinel ErrTableMissing)) ErrTableMissing" by simp
  from refused_migration_touches_nothing[OF foreign plan run this] show ?thesis
    unfolding run by (simp add: plain_migrator_def plain_table_def)
qed

end
