(* ===== verification/LoadJobs.thy ===== *)
theory LoadJobs
  imports Apply JsonRow "HOL-Library.Multiset"
begin

text \<open>
  write.go: the transport that renders rows as newline delimited JSON and submits load jobs.
  First what one submission does, then the writer, whose operations are split where they take
  and release the lock, so that calls of several goroutines may interleave between those points.
\<close>

section \<open>Running a load job\<close>

text \<open>
  The fields of a load that the sources set: where the rows are, and the schema. The format is
  always JSON, the write disposition WriteAppend and the create disposition CreateNever.
\<close>

datatype load_data = Uploaded string | AtURI string

datatype disposition = WriteAppend | CreateNever

record load_source =
  ls_data :: load_data
  ls_json :: bool
  ls_schema :: Schema
  ls_WriteDisposition :: disposition
  ls_CreateDisposition :: disposition

text \<open>
  The BigQuery client: submitting a load gives a job, waiting for it gives its status, known by
  its \<open>Err()\<close>.
\<close>

record ('w, 'j) load_client =
  lc_Run :: "load_source \<Rightarrow> 'w \<Rightarrow> (gerr + 'j) \<times> 'w"
  lc_Wait :: "'j \<Rightarrow> 'w \<Rightarrow> (gerr + gerr option) \<times> 'w"
  lc_ID :: "'j \<Rightarrow> string"

definition runLoader :: "('w, 'j) load_client \<Rightarrow> load_data \<Rightarrow> Schema \<Rightarrow> 'w env \<Rightarrow> gerr option \<times> 'w env" where
  "runLoader client data schema env =
     (let source = \<lparr>ls_data = data, ls_json = True, ls_schema = schema,
                    ls_WriteDisposition = WriteAppend, ls_CreateDisposition = CreateNever\<rparr>
      in case on_world (lc_Run client source) env of
           (Inl e, env1) \<Rightarrow> (Some (EWrap (WriterSite SubmitLoadJob) e), env1)
         | (Inr job, env1) \<Rightarrow>
             (let env2 = log_add (SubmittedLoadJob (lc_ID client job)) env1
              in case on_world (lc_Wait client job) env2 of
                   (Inl e, env3) \<Rightarrow> (Some (EWrap (WriterSite WaitForLoadJob) e), env3)
                 | (Inr (Some e), env3) \<Rightarrow> (Some (EWrap (WriterSite LoadJobFailed) e), env3)
                 | (Inr None, env3) \<Rightarrow> (None, log_add (LoadJobFinished (lc_ID client job)) env3)))"

type_synonym 'w jobLoader = "string \<Rightarrow> Schema \<Rightarrow> 'w env \<Rightarrow> gerr option \<times> 'w env"

definition tableLoader_load :: "('w, 'j) load_client \<Rightarrow> 'w jobLoader" where
  "tableLoader_load client rows schema env = runLoader client (Uploaded rows) schema env"

text \<open>\<open>Stager\<close>: the URI and what removes the object afterwards, which may be nil.\<close>

type_synonym 'w stager = "string \<Rightarrow> 'w \<Rightarrow> (gerr + string \<times> ('w \<Rightarrow> gerr option \<times> 'w) option) \<times> 'w"

definition run_cleanup :: "string \<Rightarrow> ('w \<Rightarrow> gerr option \<times> 'w) option \<Rightarrow> 'w env \<Rightarrow> 'w env" where
  "run_cleanup uri cleanup env =
     (case cleanup of
        None \<Rightarrow> env
      | Some c \<Rightarrow>
          (case on_world c env of
             (None, env1) \<Rightarrow> env1
           | (Some cerr, env1) \<Rightarrow> log_add (CouldNotRemoveStaged uri cerr) env1))"

definition stagedLoader_load :: "('w, 'j) load_client \<Rightarrow> 'w stager \<Rightarrow> 'w jobLoader" where
  "stagedLoader_load client stage rows schema env =
     (case on_world (stage rows) env of
        (Inl e, env1) \<Rightarrow> (Some (EWrap (WriterSite StageRows) e), env1)
      | (Inr (uri, cleanup), env1) \<Rightarrow>
          (let (err, env2) = runLoader client (AtURI uri) schema (log_add (StagedRows uri (length rows)) env1)
           in (err, run_cleanup uri cleanup env2)))"

section \<open>Loading a batch\<close>

definition ndjson :: "string list \<Rightarrow> string" where
  "ndjson lines = concat (map (\<lambda>l. l @ [newline]) lines)"

definition load :: "json_lib \<Rightarrow> (nat \<times> gerr option \<times> 'w env, 'r) invoker \<Rightarrow> ('r retry_method \<times> 'r) option \<Rightarrow>
    'w jobLoader \<Rightarrow> Row list \<Rightarrow> Schema \<Rightarrow> 'w env \<Rightarrow> gerr option \<times> 'w env" where
  "load L invoke newRetryer loader rows schema env =
     (case traverse (\<lambda>r. encodeJSONRow L (row_Values r) schema) rows of
        Inl e \<Rightarrow> (Some e, env)
      | Inr lines \<Rightarrow>
          (let buf = ndjson lines
           in retrying invoke ''load'' newRetryer (loader buf schema)
                (log_add (LoadingRows (length rows) (length buf)) env)))"

section \<open>The writer\<close>

record LoadJobsWriter =
  flushRows :: int
  bound_schema :: "Schema option"
  buf :: "Row list"
  pending :: "gerr list"
  closed :: bool
  wg :: nat

text \<open>A \<open>resolvedResult\<close>: how many rows, and an error. \<open>Wait\<close> returns them.\<close>

type_synonym resolved = "nat \<times> gerr option"

definition ResolvedResult :: "nat \<Rightarrow> gerr option \<Rightarrow> resolved" where
  "ResolvedResult n err = (n, err)"

definition resolved_Wait :: "resolved \<Rightarrow> 's \<Rightarrow> resolved \<times> 's" where
  "resolved_Wait r s = (r, s)"

definition BindSchema :: "Schema \<Rightarrow> LoadJobsWriter \<Rightarrow> gerr option \<times> LoadJobsWriter" where
  "BindSchema schema w =
     (if schema = [] then (Some (EMsg (WriterSite NoColumnsInSchema)), w)
      else if bound_schema w \<noteq> None then (Some (EMsg (WriterSite SchemaAlreadyBound)), w)
      else (None, w\<lparr>bound_schema := Some schema\<rparr>))"

definition writer_closed :: gerr where
  "writer_closed = EWrap (WriterSite InLoadJobs) (ESentinel ErrWriterClosed)"

definition did_not_land :: "Row list \<Rightarrow> gerr \<Rightarrow> gerr" where
  "did_not_land batch e = EWrap (WriterSite (RowsDidNotLand (length batch))) e"

definition schema_of :: "LoadJobsWriter \<Rightarrow> Schema" where
  "schema_of w = (case bound_schema w of None \<Rightarrow> [] | Some s \<Rightarrow> s)"

text \<open>
  \<open>WriteRows\<close> up to the point where it has released the lock for the first time: either it
  returns at once, or it goes on to load its own rows or the batch it took from the buffer.
\<close>

datatype write_entered =
    WReturn "gerr + resolved"
  | WDirect Schema
  | WBatch "Row list" Schema

definition WriteRows_enter :: "Row list \<Rightarrow> LoadJobsWriter \<Rightarrow> write_entered \<times> LoadJobsWriter" where
  "WriteRows_enter rows w =
     (if rows = [] then (WReturn (Inr (ResolvedResult 0 None)), w)
      else if closed w then (WReturn (Inl writer_closed), w)
      else if bound_schema w = None then (WReturn (Inl (EMsg (WriterSite NoSchemaBound))), w)
      else if flushRows w = 0 then (WDirect (schema_of w), w)
      else (let taken = buf w @ rows
            in if int (length taken) \<ge> flushRows w
               then (WBatch taken (schema_of w), w\<lparr>buf := [], wg := wg w + 1\<rparr>)
               else (WReturn (Inr (ResolvedResult (length rows) None)), w\<lparr>buf := taken\<rparr>)))"

text \<open>What follows a load of the call's own rows.\<close>

definition WriteRows_direct :: "Row list \<Rightarrow> gerr option \<Rightarrow> resolved" where
  "WriteRows_direct rows err =
     (case err of Some e \<Rightarrow> ResolvedResult 0 (Some e) | None \<Rightarrow> ResolvedResult (length rows) None)"

text \<open>The second critical section, after a batch was loaded, and the deferred \<open>wg.Done\<close>.\<close>

definition WriteRows_record :: "Row list \<Rightarrow> gerr option \<Rightarrow> LoadJobsWriter \<Rightarrow> LoadJobsWriter" where
  "WriteRows_record batch err w =
     (case err of None \<Rightarrow> w | Some e \<Rightarrow> w\<lparr>pending := pending w @ [did_not_land batch e]\<rparr>)"

definition wg_Done :: "LoadJobsWriter \<Rightarrow> LoadJobsWriter" where
  "wg_Done w = w\<lparr>wg := wg w - 1\<rparr>"

text \<open>\<open>FlushRows\<close>: its critical section, and what it returns once its batch was loaded.\<close>

definition FlushRows_enter :: "LoadJobsWriter \<Rightarrow> (gerr + Row list \<times> Schema \<times> gerr list) \<times> LoadJobsWriter" where
  "FlushRows_enter w =
     (if closed w then (Inl writer_closed, w)
      else (Inr (buf w, schema_of w, pending w),
            w\<lparr>buf := [], pending := [], wg := (if buf w \<noteq> [] then wg w + 1 else wg w)\<rparr>))"

definition FlushRows_result :: "Row list \<Rightarrow> gerr list \<Rightarrow> gerr option \<Rightarrow> resolved" where
  "FlushRows_result batch held err =
     (let n = (if batch \<noteq> [] \<and> err = None then length batch else 0);
          jobErr = (if batch = [] then None else map_option (did_not_land batch) err)
      in ResolvedResult n (if held \<noteq> [] then errors_Join (map Some held @ [jobErr]) else jobErr))"

text \<open>
  \<open>Close\<close>: its first critical section, the second one after \<open>wg.Wait\<close>, and what it returns.
  \<open>None\<close> where it returns at once.
\<close>

definition Close_enter :: "LoadJobsWriter \<Rightarrow> (Row list \<times> Schema) option \<times> LoadJobsWriter" where
  "Close_enter w =
     (if closed w then (None, w)
      else (Some (buf w, schema_of w), w\<lparr>closed := True, buf := []\<rparr>))"

definition Close_collect :: "LoadJobsWriter \<Rightarrow> gerr list \<times> LoadJobsWriter" where
  "Close_collect w = (pending w, w\<lparr>pending := []\<rparr>)"

definition Close_result :: "Row list \<Rightarrow> gerr list \<Rightarrow> gerr option \<Rightarrow> gerr option" where
  "Close_result batch held err =
     errors_Join (map Some held @ (if batch = [] then [] else [map_option (did_not_land batch) err]))"

section \<open>The operations of one goroutine alone\<close>

text \<open>
  The whole operations, where no other call intervenes; \<open>ld\<close> is the writer's \<open>load\<close>.
\<close>

definition LoadJobsWriter_WriteRows :: "(Row list \<Rightarrow> Schema \<Rightarrow> 's \<Rightarrow> gerr option \<times> 's) \<Rightarrow> Row list \<Rightarrow>
    LoadJobsWriter \<times> 's \<Rightarrow> (gerr + resolved) \<times> LoadJobsWriter \<times> 's" where
  "LoadJobsWriter_WriteRows ld rows = (\<lambda>(w, s).
     case WriteRows_enter rows w of
       (WReturn r, w1) \<Rightarrow> (r, w1, s)
     | (WDirect schema, w1) \<Rightarrow>
         (let (err, s1) = ld rows schema s in (Inr (WriteRows_direct rows err), w1, s1))
     | (WBatch batch schema, w1) \<Rightarrow>
         (let (err, s1) = ld batch schema s
          in (Inr (ResolvedResult (length rows) None), wg_Done (WriteRows_record batch err w1), s1)))"

definition LoadJobsWriter_FlushRows :: "(Row list \<Rightarrow> Schema \<Rightarrow> 's \<Rightarrow> gerr option \<times> 's) \<Rightarrow>
    LoadJobsWriter \<times> 's \<Rightarrow> (gerr + resolved) \<times> LoadJobsWriter \<times> 's" where
  "LoadJobsWriter_FlushRows ld = (\<lambda>(w, s).
     case FlushRows_enter w of
       (Inl e, w1) \<Rightarrow> (Inl e, w1, s)
     | (Inr (batch, schema, held), w1) \<Rightarrow>
         if batch = [] then (Inr (FlushRows_result batch held None), w1, s)
         else (let (err, s1) = ld batch schema s in (Inr (FlushRows_result batch held err), wg_Done w1, s1)))"

text \<open>\<open>wg.Wait\<close> returns at once, as no submission is in flight.\<close>

definition LoadJobsWriter_Close :: "(Row list \<Rightarrow> Schema \<Rightarrow> 's \<Rightarrow> gerr option \<times> 's) \<Rightarrow>
    LoadJobsWriter \<times> 's \<Rightarrow> gerr option \<times> LoadJobsWriter \<times> 's" where
  "LoadJobsWriter_Close ld = (\<lambda>(w, s).
     case Close_enter w of
       (None, w1) \<Rightarrow> (None, w1, s)
     | (Some (batch, schema), w1) \<Rightarrow>
         (let (held, w2) = Close_collect w1
          in if batch = [] then (Close_result batch held None, w2, s)
             else (let (err, s1) = ld batch schema s in (Close_result batch held err, w2, s1))))"

end
