(* ===== verification/Sinker.thy ===== *)
theory Sinker
  imports Declarations LoadJobs
begin

text \<open>
  The Sinker of bqsink.go, with option.go and fill.go: building one from a declaration and a
  writer, bringing the table in line on the first batch, and turning batches into rows for the
  writer. Calls are taken one at a time; \<open>sync.Once\<close> makes every other call wait for the first
  one's \<open>start\<close>.
\<close>

section \<open>What a Sinker is built from\<close>

text \<open>
  A value of \<open>MigrationStrategy\<close>: one of the package's own, a pointer to a \<open>MigrationNone\<close>, or
  any other, with its \<open>Plan\<close> and, where it implements \<open>Validator\<close>, what \<open>Validate\<close> returns.
\<close>

datatype MigrationStrategy =
    Builtin builtin_strategy
  | NonePointer "MigrationNone option"
  | OwnStrategy "TableState \<Rightarrow> plan_result" "gerr option option"

fun strategy_Plan :: "MigrationStrategy \<Rightarrow> TableState \<Rightarrow> plan_result" where
  "strategy_Plan (Builtin b) st = builtin_Plan b st"
| "strategy_Plan (NonePointer (Some m)) st = MigrationNone_Plan m st"
| "strategy_Plan (NonePointer None) st = (reflect_panic, [])"
| "strategy_Plan (OwnStrategy plan v) st = plan st"

fun strategy_Validate :: "MigrationStrategy \<Rightarrow> gerr option option" where
  "strategy_Validate (Builtin (SyncStrategy s)) = Some (SyncAllColumns_Validate s)"
| "strategy_Validate (OwnStrategy plan v) = v"
| "strategy_Validate s = None"

text \<open>A \<open>*slog.Logger\<close>: the discarding one, a caller's, and one with the relation added.\<close>

datatype logger = Discarding | Given string | WithRelation logger string

text \<open>
  \<open>RowsWriter\<close>, and \<open>LoggerBindable\<close> where the writer implements it. The client is known by the
  table and the query runner it gives for a relation. \<open>WriteRows\<close> may give a nil result.
\<close>

record ('w, 'r) RowsWriter =
  rw_Relation :: Relation
  rw_Client :: "(Relation \<Rightarrow> 'w tableAPI) option"
  rw_BindSchema :: "Schema \<Rightarrow> 'w env \<Rightarrow> gerr option \<times> 'w env"
  rw_WriteRows :: "Row list \<Rightarrow> 'w env \<Rightarrow> (gerr + 'r option) \<times> 'w env"
  rw_Wait :: "'r \<Rightarrow> 'w env \<Rightarrow> (int \<times> gerr option) \<times> 'w env"
  rw_BindLogger :: "(logger \<Rightarrow> 'w env \<Rightarrow> 'w env) option"

section \<open>Options\<close>

record 'p sinker_config =
  cfg_strategy :: "MigrationStrategy option"
  cfg_migrationRetry :: "'p option"
  cfg_logger :: "logger option"

type_synonym 'p Option = "'p sinker_config \<Rightarrow> gerr + 'p sinker_config"

definition validateStrategy :: "string \<Rightarrow> MigrationStrategy \<Rightarrow> gerr option" where
  "validateStrategy name s =
     (case strategy_Validate s of
        None \<Rightarrow> None
      | Some err \<Rightarrow> map_option (EWrap (SinkerSite (InOption name))) err)"

definition WithMigrationStrategy :: "MigrationStrategy option \<Rightarrow> 'p option \<Rightarrow> 'p Option" where
  "WithMigrationStrategy s retryPolicy c =
     (case s of
        None \<Rightarrow> Inl (EMsg (SinkerSite StrategyIsNil))
      | Some st \<Rightarrow> guarded (validateStrategy ''WithMigrationStrategy'' st)
          (Inr (c\<lparr>cfg_strategy := Some st, cfg_migrationRetry := retryPolicy\<rparr>)))"

definition WithLogger :: "logger option \<Rightarrow> 'p Option" where
  "WithLogger logger c =
     (case logger of
        None \<Rightarrow> Inl (EMsg (SinkerSite LoggerIsNil))
      | Some l \<Rightarrow> Inr (c\<lparr>cfg_logger := Some l\<rparr>))"

fun apply_options :: "'p Option list \<Rightarrow> 'p Option" where
  "apply_options [] c = Inr c"
| "apply_options (o1 # os) c = and_then (o1 c) (apply_options os)"

section \<open>Filling rows\<close>

record AppendInfo =
  ai_Relation :: Relation
  ai_SinkerID :: string
  ai_SinkerCreatedAt :: gotime
  ai_RowID :: string
  ai_Time :: gotime

text \<open>
  What a Sinker calls outside the package: version 7 UUIDs, the clock, and the \<open>FillRow\<close> of the
  caller's row types, which is given a pointer and leaves it pointing to what it wrote.
\<close>

record 'w runtime =
  rt_NewV7 :: "'w env \<Rightarrow> (gerr + string) \<times> 'w env"
  rt_Now :: "'w env \<Rightarrow> gotime \<times> 'w env"
  rt_FillRow :: "goval \<Rightarrow> AppendInfo \<Rightarrow> 'w env \<Rightarrow> (gerr option \<times> goval) \<times> 'w env"

definition newID :: "'w runtime \<Rightarrow> 'w env \<Rightarrow> (gerr + string) \<times> 'w env" where
  "newID R env = (let (id, env1) = rt_NewV7 R env in (map_error (EWrap (SinkerSite GenerateID)) id, env1))"

record IngestionMetadata =
  im_IngestionAt :: gotime
  im_IngestionID :: string
  im_IngestionRowID :: string

definition IngestionMetadata_FillRow :: "IngestionMetadata \<Rightarrow> AppendInfo \<Rightarrow> gerr option \<times> IngestionMetadata" where
  "IngestionMetadata_FillRow m info =
     (None, m\<lparr>im_IngestionAt := ai_Time info, im_IngestionID := ai_SinkerID info, im_IngestionRowID := ai_RowID info\<rparr>)"

section \<open>Building a Sinker\<close>

text \<open>\<open>sk_startErr\<close> is \<open>None\<close> until \<open>startOnce\<close> has run.\<close>

record ('w, 'r, 'p) Sinker =
  sk_writer :: "('w, 'r) RowsWriter"
  sk_relation :: Relation
  sk_api :: "'w tableAPI option"
  sk_strategy :: MigrationStrategy
  sk_migrationRetry :: "'p option"
  sk_logger :: logger
  sk_rowType :: rtype
  sk_plan :: "rowConverter option"
  sk_schema :: Schema
  sk_metadata :: "TableMetadata option"
  sk_fills :: bool
  sk_sinkerID :: string
  sk_createdAt :: gotime
  sk_startErr :: "gerr option option"

definition checkStrategyWithoutAClient :: "MigrationStrategy \<Rightarrow> gerr option" where
  "checkStrategyWithoutAClient strategy =
     (case (case strategy of
              Builtin (NoneStrategy m) \<Rightarrow> Some m
            | NonePointer p \<Rightarrow> p
            | _ \<Rightarrow> None) of
        None \<Rightarrow> Some (EMsg (SinkerSite NotReconcilable))
      | Some m \<Rightarrow> if none_CreateIfMissing m then Some (EMsg (SinkerSite NotCreatable)) else None)"

text \<open>The strategy and the retry policy in force; \<open>defaultPolicy\<close> is \<open>DefaultRetryPolicy\<close>.\<close>

definition chosen_strategy :: "'p \<Rightarrow> 'p sinker_config \<Rightarrow> MigrationStrategy \<times> 'p option" where
  "chosen_strategy defaultPolicy c =
     (case cfg_strategy c of
        None \<Rightarrow> (Builtin (AppendStrategy \<lparr>append_CreateIfMissing = True\<rparr>), Some defaultPolicy)
      | Some s \<Rightarrow> (s, cfg_migrationRetry c))"

definition empty_config :: "'p sinker_config" where
  "empty_config = \<lparr>cfg_strategy = None, cfg_migrationRetry = None, cfg_logger = None\<rparr>"

text \<open>The checks of \<open>NewSinker\<close> that come before anything is made.\<close>

definition check_new :: "('w, 'r) RowsWriter option \<Rightarrow> Declaration \<Rightarrow> 'p Option list \<Rightarrow>
    gerr + ('w, 'r) RowsWriter \<times> rtype \<times> 'p sinker_config" where
  "check_new w decl opts =
     (case w of
        None \<Rightarrow> Inl (EMsg (SinkerSite WriterIsNil))
      | Some writer \<Rightarrow>
          guarded (decl_err decl)
            (case decl_rowType decl of
               None \<Rightarrow> Inl (EMsg (SinkerSite DeclarationSaysNothing))
             | Some rt \<Rightarrow>
                 guarded (map_option (EWrap (SinkerSite RelationOfWriter)) (validate_relation (rw_Relation writer)))
                   (and_then (apply_options opts empty_config) (\<lambda>c. Inr (writer, rt, c)))))"

text \<open>The Sinker \<open>NewSinker\<close> makes once its checks have passed.\<close>

definition new_Sinker :: "'p \<Rightarrow> ('w, 'r) RowsWriter \<Rightarrow> Declaration \<Rightarrow> rtype \<Rightarrow> 'p sinker_config \<Rightarrow> string \<Rightarrow> gotime \<Rightarrow>
    ('w, 'r, 'p) Sinker" where
  "new_Sinker defaultPolicy writer decl rt c sinkerID createdAt =
     (let (strategy, retryPolicy) = chosen_strategy defaultPolicy c;
          relation = rw_Relation writer;
          logger = (case cfg_logger c of None \<Rightarrow> Discarding | Some l \<Rightarrow> l)
      in \<lparr>sk_writer = writer, sk_relation = relation,
          sk_api = map_option (\<lambda>client. client relation) (rw_Client writer), sk_strategy = strategy,
          sk_migrationRetry = retryPolicy, sk_logger = WithRelation logger (relation_String relation), sk_rowType = rt,
          sk_plan = decl_plan decl, sk_schema = decl_schema decl, sk_metadata = decl_metadata decl,
          sk_fills = decl_fills decl, sk_sinkerID = sinkerID, sk_createdAt = createdAt, sk_startErr = None\<rparr>)"

definition NewSinker :: "'w runtime \<Rightarrow> 'p \<Rightarrow> ('w, 'r) RowsWriter option \<Rightarrow> Declaration \<Rightarrow> 'p Option list \<Rightarrow>
    'w env \<Rightarrow> (gerr + ('w, 'r, 'p) Sinker) \<times> 'w env" where
  "NewSinker R defaultPolicy w decl opts env =
     (case check_new w decl opts of
        Inl e \<Rightarrow> (Inl e, env)
      | Inr (writer, rt, c) \<Rightarrow>
          (case newID R env of
             (Inl e, env1) \<Rightarrow> (Inl (EWrap (SinkerSite InSinker) e), env1)
           | (Inr sinkerID, env1) \<Rightarrow>
               (let (createdAt, env2) = rt_Now R env1;
                    s = new_Sinker defaultPolicy writer decl rt c sinkerID createdAt
                in (case (if sk_api s = None then checkStrategyWithoutAClient (sk_strategy s) else None) of
                      Some e \<Rightarrow> (Inl e, env2)
                    | None \<Rightarrow>
                        (let env3 = (case rw_BindLogger writer of None \<Rightarrow> env2 | Some bind \<Rightarrow> bind (sk_logger s) env2)
                         in (Inr s, if sk_api s = None then log_add NeverChecked env3 else env3))))))"

lemma new_Sinker_sel [simp]:
  "sk_writer (new_Sinker d w decl rt c i t) = w"
  "sk_relation (new_Sinker d w decl rt c i t) = rw_Relation w"
  "sk_api (new_Sinker d w decl rt c i t) = map_option (\<lambda>client. client (rw_Relation w)) (rw_Client w)"
  "sk_strategy (new_Sinker d w decl rt c i t) = fst (chosen_strategy d c)"
  "sk_migrationRetry (new_Sinker d w decl rt c i t) = snd (chosen_strategy d c)"
  "sk_rowType (new_Sinker d w decl rt c i t) = rt"
  "sk_plan (new_Sinker d w decl rt c i t) = decl_plan decl"
  "sk_schema (new_Sinker d w decl rt c i t) = decl_schema decl"
  "sk_metadata (new_Sinker d w decl rt c i t) = decl_metadata decl"
  "sk_fills (new_Sinker d w decl rt c i t) = decl_fills decl"
  "sk_startErr (new_Sinker d w decl rt c i t) = None"
  by (simp_all add: new_Sinker_def Let_def case_prod_beta)

section \<open>Starting\<close>

definition sinker_migrator :: "('w, 'r, 'p) Sinker \<Rightarrow> 'w tableAPI \<Rightarrow> 'w migrator" where
  "sinker_migrator s api =
     \<lparr>mg_relation = sk_relation s, mg_plan = strategy_Plan (sk_strategy s), mg_schema = sk_schema s,
      mg_metadata = sk_metadata s, mg_api = api\<rparr>"

text \<open>\<open>start\<close>: the closure \<open>startOnce\<close> runs, and the cached outcome. \<open>Start\<close> is the same.\<close>

definition start_once :: "(nat \<times> gerr option \<times> 'w env, 'q) invoker \<Rightarrow>
    ('w, 'r, 'q retry_method \<times> 'q) Sinker \<Rightarrow> 'w env \<Rightarrow> gerr option \<times> 'w env" where
  "start_once invoke s env =
     (case (case sk_api s of
              None \<Rightarrow> (None, env)
            | Some api \<Rightarrow> retrying invoke ''migrate'' (sk_migrationRetry s) (migrate (sinker_migrator s api)) env) of
        (Some err, env1) \<Rightarrow> (Some err, env1)
      | (None, env1) \<Rightarrow> rw_BindSchema (sk_writer s) (sk_schema s) env1)"

definition start :: "(nat \<times> gerr option \<times> 'w env, 'q) invoker \<Rightarrow>
    ('w, 'r, 'q retry_method \<times> 'q) Sinker \<Rightarrow> 'w env \<Rightarrow> gerr option \<times> ('w, 'r, 'q retry_method \<times> 'q) Sinker \<times> 'w env" where
  "start invoke s env =
     (case sk_startErr s of
        Some err \<Rightarrow> (err, s, env)
      | None \<Rightarrow> (let (err, env1) = start_once invoke s env in (err, s\<lparr>sk_startErr := Some err\<rparr>, env1)))"

definition Start :: "(nat \<times> gerr option \<times> 'w env, 'q) invoker \<Rightarrow>
    ('w, 'r, 'q retry_method \<times> 'q) Sinker \<Rightarrow> 'w env \<Rightarrow> gerr option \<times> ('w, 'r, 'q retry_method \<times> 'q) Sinker \<times> 'w env" where
  "Start invoke s env = start invoke s env"

section \<open>Batches\<close>

text \<open>\<open>Len\<close> and \<open>Index\<close> of a slice or an array, \<open>None\<close> for any other kind.\<close>

fun batch_elements :: "types \<Rightarrow> goval \<Rightarrow> goval list option" where
  "batch_elements u (GSlice t xs) = Some (case xs of None \<Rightarrow> [] | Some vs \<Rightarrow> vs)"
| "batch_elements u (GArray t vs) = Some vs"
| "batch_elements u (GBytes t b) =
     Some (map (\<lambda>c. GUint (elem_of u t) (int (of_char c))) (case b of None \<Rightarrow> [] | Some s \<Rightarrow> s))"
| "batch_elements u (GByteArray t s) = Some (map (\<lambda>c. GUint (elem_of u t) (int (of_char c))) s)"
| "batch_elements u v = None"

definition rowsOf :: "types \<Rightarrow> goval option \<Rightarrow> gerr + goval list" where
  "rowsOf u rows =
     (case rows of
        None \<Rightarrow> Inl (EMsg (SinkerSite RowsIsNil))
      | Some rv \<Rightarrow>
          (case batch_elements u rv of
             None \<Rightarrow> Inr [rv]
           | Some vs \<Rightarrow>
               traverse_indexed (\<lambda>i v. case unbox v of
                   None \<Rightarrow> Inl (EMsg (SinkerSite (RowIsNil i)))
                 | Some w \<Rightarrow> Inr w) vs))"

fun mixed_type :: "rtype \<Rightarrow> nat \<Rightarrow> goval list \<Rightarrow> gerr option" where
  "mixed_type rt i [] = None"
| "mixed_type rt i (v # vs) =
     (if type_of v \<noteq> rt then Some (EMsg (SinkerSite (MixedTypes i (type_of v) rt))) else mixed_type rt (Suc i) vs)"

text \<open>\<open>batchRowType\<close>; \<open>send\<close> never gives it an empty batch.\<close>

definition batchRowType :: "goval list \<Rightarrow> gerr + rtype" where
  "batchRowType vs =
     (case vs of
        [] \<Rightarrow> reflect_panic
      | v # rest \<Rightarrow> guarded (mixed_type (type_of v) 1 rest) (Inr (type_of v)))"

section \<open>One row\<close>

definition fillable :: "goval \<Rightarrow> gerr + goval" where
  "fillable v =
     (case v of
        GPtr t None \<Rightarrow> Inl (EMsg (SinkerSite (CannotWriteNil t)))
      | GPtr t (Some x) \<Rightarrow> Inr v
      | _ \<Rightarrow> Inr (GPtr (Ptr (type_of v)) (Some v)))"

text \<open>The value to convert: the row as it is, or what its \<open>FillRow\<close> left of it.\<close>

definition fill :: "go_env \<Rightarrow> 'w runtime \<Rightarrow> ('w, 'r, 'p) Sinker \<Rightarrow> string \<Rightarrow> goval \<Rightarrow> 'w env \<Rightarrow> (gerr + goval) \<times> 'w env" where
  "fill G R s rowID v env =
     (if \<not> sk_fills s
      then ((if nil_pointer v then Inl (EMsg (SinkerSite (CannotWriteNil (type_of v)))) else Inr v), env)
      else (case fillable v of
              Inl e \<Rightarrow> (Inl e, env)
            | Inr rv \<Rightarrow>
                if \<not> implements ti_RowFiller (ge_types G) (type_of rv)
                then (Inl (EMsg (SinkerSite (NoLongerFiller (type_of v)))), env)
                else (let (now, env1) = rt_Now R env;
                          info = \<lparr>ai_Relation = sk_relation s, ai_SinkerID = sk_sinkerID s,
                                  ai_SinkerCreatedAt = sk_createdAt s, ai_RowID = rowID, ai_Time = now\<rparr>;
                          ((err, filled), env2) = rt_FillRow R rv info env1
                      in ((case err of
                             Some e \<Rightarrow> Inl (EWrap (SinkerSite (FillARow (type_of v))) e)
                           | None \<Rightarrow> Inr filled), env2))))"

definition plan_marshalRow :: "go_env \<Rightarrow> rowConverter option \<Rightarrow> rvalue \<Rightarrow> gerr + row_values" where
  "plan_marshalRow G p rv = (case p of None \<Rightarrow> reflect_panic | Some c \<Rightarrow> converter_marshalRow G c rv)"

definition prepare :: "go_env \<Rightarrow> 'w runtime \<Rightarrow> ('w, 'r, 'p) Sinker \<Rightarrow> goval \<Rightarrow> 'w env \<Rightarrow> (gerr + Row) \<times> 'w env" where
  "prepare G R s v env =
     (case newID R env of
        (Inl e, env1) \<Rightarrow> (Inl (EWrap (SinkerSite InSinker) e), env1)
      | (Inr rowID, env1) \<Rightarrow>
          (let (rv, env2) = fill G R s rowID v env1
           in (and_then rv (\<lambda>rv. and_then (plan_marshalRow G (sk_plan s) (False, rv)) (\<lambda>values.
                 Inr \<lparr>row_ID = rowID, row_Values = values\<rparr>)), env2)))"

fun prepare_all :: "go_env \<Rightarrow> 'w runtime \<Rightarrow> ('w, 'r, 'p) Sinker \<Rightarrow> goval list \<Rightarrow> 'w env \<Rightarrow> (gerr + Row list) \<times> 'w env" where
  "prepare_all G R s [] env = (Inr [], env)"
| "prepare_all G R s (v # vs) env =
     (case prepare G R s v env of
        (Inl e, env1) \<Rightarrow> (Inl e, env1)
      | (Inr row, env1) \<Rightarrow>
          (let (rows, env2) = prepare_all G R s vs env1 in (and_then rows (\<lambda>rows. Inr (row # rows)), env2)))"

section \<open>Sending a batch\<close>

text \<open>The \<open>WriteResult\<close> \<open>send\<close> returns: one that has settled already, or the writer's.\<close>

datatype 'r sent = Settled int "gerr option" | Handed 'r

definition send_rows :: "go_env \<Rightarrow> 'w runtime \<Rightarrow> ('w, 'r, 'p) Sinker \<Rightarrow> goval list \<Rightarrow> 'w env \<Rightarrow>
    (gerr + 'r sent \<times> nat) \<times> 'w env" where
  "send_rows G R s vs env =
     (case prepare_all G R s vs env of
        (Inl e, env1) \<Rightarrow> (Inl e, env1)
      | (Inr out, env1) \<Rightarrow>
          (case rw_WriteRows (sk_writer s) out env1 of
             (Inl e, env2) \<Rightarrow> (Inl e, env2)
           | (Inr None, env2) \<Rightarrow> (Inl (EMsg (SinkerSite (NoResult (length out)))), env2)
           | (Inr (Some r), env2) \<Rightarrow> (Inr (Handed r, length out), env2)))"

definition batch_of :: "types \<Rightarrow> rtype \<Rightarrow> goval option \<Rightarrow> gerr + goval list" where
  "batch_of u rowType rows =
     and_then (rowsOf u rows) (\<lambda>vs.
       if vs = [] then Inr []
       else and_then (batchRowType vs) (\<lambda>rt.
         if rt \<noteq> rowType then Inl (EMsg (SinkerSite (WrongRowType rowType rt))) else Inr vs))"

definition send :: "(nat \<times> gerr option \<times> 'w env, 'q) invoker \<Rightarrow> go_env \<Rightarrow> 'w runtime \<Rightarrow> goval option \<Rightarrow>
    ('w, 'r, 'q retry_method \<times> 'q) Sinker \<Rightarrow> 'w env \<Rightarrow>
    (gerr + 'r sent \<times> nat) \<times> ('w, 'r, 'q retry_method \<times> 'q) Sinker \<times> 'w env" where
  "send invoke G R rows s env =
     (case batch_of (ge_types G) (sk_rowType s) rows of
        Inl e \<Rightarrow> (Inl e, s, env)
      | Inr [] \<Rightarrow> (Inr (Settled 0 None, 0), s, env)
      | Inr vs \<Rightarrow>
          (case start invoke s env of
             (Some e, s1, env1) \<Rightarrow> (Inl e, s1, env1)
           | (None, s1, env1) \<Rightarrow> (let (r, env2) = send_rows G R s1 vs env1 in (r, s1, env2))))"

fun sent_Wait :: "('w, 'r) RowsWriter \<Rightarrow> 'r sent \<Rightarrow> 'w env \<Rightarrow> (int \<times> gerr option) \<times> 'w env" where
  "sent_Wait w (Settled n err) env = ((n, err), env)"
| "sent_Wait w (Handed r) env = rw_Wait w r env"

definition Sink :: "(nat \<times> gerr option \<times> 'w env, 'q) invoker \<Rightarrow> go_env \<Rightarrow> 'w runtime \<Rightarrow> goval option \<Rightarrow>
    ('w, 'r, 'q retry_method \<times> 'q) Sinker \<Rightarrow> 'w env \<Rightarrow>
    (int \<times> gerr option) \<times> ('w, 'r, 'q retry_method \<times> 'q) Sinker \<times> 'w env" where
  "Sink invoke G R rows s env =
     (case send invoke G R rows s env of
        (Inl e, s1, env1) \<Rightarrow> ((0, Some e), s1, env1)
      | (Inr (result, sent), s1, env1) \<Rightarrow>
          (let ((n, err), env2) = sent_Wait (sk_writer s1) result env1
           in ((n, if err = None \<and> n \<noteq> int sent then Some (EMsg (SinkerSite (ShortWrite n sent))) else err), s1, env2)))"

definition SinkAsync :: "(nat \<times> gerr option \<times> 'w env, 'q) invoker \<Rightarrow> go_env \<Rightarrow> 'w runtime \<Rightarrow> goval option \<Rightarrow>
    ('w, 'r, 'q retry_method \<times> 'q) Sinker \<Rightarrow> 'w env \<Rightarrow>
    (gerr + 'r sent) \<times> ('w, 'r, 'q retry_method \<times> 'q) Sinker \<times> 'w env" where
  "SinkAsync invoke G R rows s env =
     (let (r, s1, env1) = send invoke G R rows s env in (and_then r (\<lambda>(result, sent). Inr result), s1, env1))"

section \<open>Rows and their columns\<close>

lemma prepare_all_Inr:
  assumes "prepare_all G R s vs env = (Inr out, env')"
  shows "length out = length vs" and "\<forall>row\<in>set out. \<exists>rv. plan_marshalRow G (sk_plan s) (False, rv) = Inr (row_Values row)"
proof -
  have "length out = length vs \<and> (\<forall>row\<in>set out. \<exists>rv. plan_marshalRow G (sk_plan s) (False, rv) = Inr (row_Values row))"
    using assms
  proof (induction vs arbitrary: env out)
    case (Cons v vs)
    from Cons.prems obtain row env1 rows where row: "prepare G R s v env = (Inr row, env1)"
      and rows: "prepare_all G R s vs env1 = (Inr rows, env')" "out = row # rows"
      by (auto simp: and_then_Inr split: prod.splits sum.splits)
    from row obtain rv where "plan_marshalRow G (sk_plan s) (False, rv) = Inr (row_Values row)"
      by (auto simp: prepare_def and_then_Inr split: prod.splits sum.splits)
    with Cons.IH[OF rows(1)] rows(2) show ?case by auto
  qed simp
  then show "length out = length vs" "\<forall>row\<in>set out. \<exists>rv. plan_marshalRow G (sk_plan s) (False, rv) = Inr (row_Values row)"
    by simp_all
qed

lemma check_new_Inr:
  assumes "check_new w decl opts = Inr (writer, rt, c)"
  shows "w = Some writer" and "decl_err decl = None" and "decl_rowType decl = Some rt"
    and "validate_relation (rw_Relation writer) = None" and "apply_options opts empty_config = Inr c"
  using assms by (auto simp: check_new_def result_simps split: option.splits)

lemma NewSinker_Inr:
  assumes "NewSinker R d w decl opts env = (Inr s, env')"
  obtains writer rt c i t where "check_new w decl opts = Inr (writer, rt, c)" "s = new_Sinker d writer decl rt c i t"
    "sk_api s = None \<Longrightarrow> checkStrategyWithoutAClient (sk_strategy s) = None"
proof -
  from assms obtain x where x: "check_new w decl opts = Inr x"
    by (cases "check_new w decl opts") (simp_all add: NewSinker_def)
  obtain writer rt c where "x = (writer, rt, c)" by (cases x)
  with x have checks: "check_new w decl opts = Inr (writer, rt, c)" by simp
  obtain id env1 where id: "newID R env = (id, env1)" by force
  with assms checks obtain i where i: "id = Inr i" by (cases id) (simp_all add: NewSinker_def)
  obtain t env2 where t: "rt_Now R env1 = (t, env2)" by force
  let ?s = "new_Sinker d writer decl rt c i t"
  let ?err = "if sk_api ?s = None then checkStrategyWithoutAClient (sk_strategy ?s) else None"
  have new: "NewSinker R d w decl opts env = (case ?err of Some e \<Rightarrow> (Inl e, env2)
      | None \<Rightarrow> (let env3 = (case rw_BindLogger writer of None \<Rightarrow> env2 | Some bind \<Rightarrow> bind (sk_logger ?s) env2)
                 in (Inr ?s, if sk_api ?s = None then log_add NeverChecked env3 else env3)))"
    by (simp only: NewSinker_def checks id i t sum.case prod.case Let_def)
  show ?thesis
  proof (cases ?err)
    case (Some e)
    with assms new show ?thesis by simp
  next
    case None
    with assms new have "s = ?s" by (simp only: option.case Let_def prod.inject sum.inject)
    with that[of writer rt c i t] checks None show ?thesis by (simp only: if_True refl split: if_splits)
  qed
qed

end
