(* ===== verification/SinkerRuns.thy ===== *)
theory SinkerRuns
  imports Sinker
begin

text \<open>
  What a caller of a Sinker may rely on: what the count returned says, for any writer; that the
  writer is called in the order it asks for; and, through a \<open>LoadJobsWriter\<close>, what became of the
  rows.
\<close>

section \<open>The promise of a writer\<close>

text \<open>
  \<open>RowsWriter\<close> and \<open>WriteResult\<close> as write.go documents them: a nil error comes with a result, and
  a result that counts fewer rows than were given comes with an error. \<open>promise r n\<close> says that
  \<open>r\<close> was given for \<open>n\<close> rows.
\<close>

locale rows_writer =
  fixes put :: "Row list \<Rightarrow> 's \<Rightarrow> (gerr + 'r option) \<times> 's"
    and wait :: "'r \<Rightarrow> 's \<Rightarrow> (int \<times> gerr option) \<times> 's"
    and promise :: "'r \<Rightarrow> nat \<Rightarrow> bool"
  assumes gives_result: "fst (put rows s) \<noteq> Inr None"
    and promises: "put rows s = (Inr (Some r), s') \<Longrightarrow> promise r (length rows)"
    and counts: "promise r n \<Longrightarrow> fst (wait r s) = (k, err) \<Longrightarrow> 0 \<le> k \<and> k \<le> int n \<and> (k = int n \<or> err \<noteq> None)"
begin

lemma nil_error_counts_all:
  assumes "put rows s = (Inr (Some r), s1)" and "wait r s2 = ((k, None), s3)"
  shows "k = int (length rows)"
  using counts[OF promises[OF assms(1)], of s2 k None] assms(2) by auto

lemma never_short: "put rows s = (Inr (Some r), s1) \<Longrightarrow> wait r s2 = ((k, err), s3) \<Longrightarrow> err = None \<and> k \<noteq> int (length rows) \<Longrightarrow> False"
  using nil_error_counts_all by blast

end

text \<open>Resolved results, which both transports give or end in.\<close>

definition resolved_for :: "resolved \<Rightarrow> nat \<Rightarrow> bool" where
  "resolved_for r n \<longleftrightarrow> fst r \<le> n \<and> (fst r = n \<or> snd r \<noteq> None)"

definition resolved_wait :: "resolved \<Rightarrow> 's \<Rightarrow> (int \<times> gerr option) \<times> 's" where
  "resolved_wait r s = (let ((n, err), s1) = resolved_Wait r s in ((int n, err), s1))"

lemma resolved_wait_simp [simp]: "resolved_wait r s = ((int (fst r), snd r), s)"
  by (cases r) (simp add: resolved_wait_def resolved_Wait_def)

definition load_jobs_write :: "(Row list \<Rightarrow> Schema \<Rightarrow> 's \<Rightarrow> gerr option \<times> 's) \<Rightarrow> Row list \<Rightarrow>
    LoadJobsWriter \<times> 's \<Rightarrow> (gerr + resolved option) \<times> LoadJobsWriter \<times> 's" where
  "load_jobs_write ld rows ws =
     (let (r, ws1) = LoadJobsWriter_WriteRows ld rows ws in (and_then r (\<lambda>r. Inr (Some r)), ws1))"

lemma WriteRows_resolved:
  assumes "LoadJobsWriter_WriteRows ld rows (w, s) = (Inr r, ws)"
  shows "resolved_for r (length rows)"
proof (cases "WriteRows_enter rows w")
  case (Pair entered w1)
  with assms show ?thesis
    by (cases entered)
      (auto simp: LoadJobsWriter_WriteRows_def WriteRows_enter_def WriteRows_direct_def ResolvedResult_def resolved_for_def
        Let_def split: if_splits prod.splits option.splits)
qed

interpretation load_jobs: rows_writer "load_jobs_write ld" resolved_wait resolved_for for ld
proof unfold_locales
  show "fst (load_jobs_write ld rows s) \<noteq> Inr None" for rows s
    by (simp add: load_jobs_write_def and_then_Inr split: prod.splits)
next
  fix rows s r s'
  assume "load_jobs_write ld rows s = (Inr (Some r), s')"
  then have "LoadJobsWriter_WriteRows ld rows (fst s, snd s) = (Inr r, s')"
    by (cases "LoadJobsWriter_WriteRows ld rows s"; cases "fst (LoadJobsWriter_WriteRows ld rows s)")
      (simp_all add: load_jobs_write_def)
  then show "resolved_for r (length rows)" by (rule WriteRows_resolved)
next
  show "resolved_for r n \<Longrightarrow> fst (resolved_wait r s) = (k, err) \<Longrightarrow> 0 \<le> k \<and> k \<le> int n \<and> (k = int n \<or> err \<noteq> None)"
    for r n s k err
    by (auto simp: resolved_for_def)
qed

section \<open>Counting rows\<close>

lemma send_rows_Inr:
  assumes "send_rows G R s vs env = (Inr (r, sent), env')"
  shows "\<exists>out env1 x. prepare_all G R s vs env = (Inr out, env1) \<and> sent = length vs \<and> length out = length vs
      \<and> r = Handed x \<and> rw_WriteRows (sk_writer s) out env1 = (Inr (Some x), env')"
proof -
  obtain prepared env1 where p: "prepare_all G R s vs env = (prepared, env1)" by force
  show ?thesis
  proof (cases prepared)
    case (Inl e)
    with assms p show ?thesis by (simp add: send_rows_def)
  next
    case (Inr out)
    note p = p[unfolded Inr]
    obtain w env2 where w: "rw_WriteRows (sk_writer s) out env1 = (w, env2)" by force
    have "\<exists>x. w = Inr (Some x)"
      using assms by (cases w rule: sum.exhaust; cases "projr w") (simp_all add: send_rows_def p w)
    then obtain x where x: "w = Inr (Some x)" ..
    from assms have "r = Handed x" "sent = length out" "env2 = env'"
      by (simp_all add: send_rows_def p w x)
    with p w x prepare_all_Inr(1)[OF p] show ?thesis by (intro exI[of _ out] exI[of _ env1] exI[of _ x]) simp
  qed
qed

lemma send_Inr:
  assumes "send invoke G R rows s env = (Inr (r, sent), s', env')"
  obtains (empty) "batch_of (ge_types G) (sk_rowType s) rows = Inr []" "r = Settled 0 None" "sent = 0" "s' = s" "env' = env"
    | (rows) vs env1 where "batch_of (ge_types G) (sk_rowType s) rows = Inr vs" "vs \<noteq> []" "start invoke s env = (None, s', env1)"
      "send_rows G R s' vs env1 = (Inr (r, sent), env')"
proof (cases "batch_of (ge_types G) (sk_rowType s) rows")
  case (Inl e)
  with assms show ?thesis by (simp add: send_def)
next
  case (Inr vs)
  show ?thesis
  proof (cases vs)
    case Nil
    show ?thesis by (rule empty) (use assms Inr Nil in \<open>simp_all add: send_def\<close>)
  next
    case (Cons v vs')
    obtain err s1 env1 where start: "start invoke s env = (err, s1, env1)" by (cases "start invoke s env")
    obtain x env2 where x: "send_rows G R s1 vs env1 = (x, env2)" by force
    from assms Inr Cons start x have "err = None \<and> x = Inr (r, sent) \<and> s1 = s' \<and> env2 = env'"
      by (cases err) (simp_all add: send_def)
    then have eqs: "err = None" "x = Inr (r, sent)" "s1 = s'" "env2 = env'" by simp_all
    show ?thesis by (rule rows[OF Inr _ start[unfolded eqs] x[unfolded eqs]]) (simp add: Cons)
  qed
qed

text \<open>
  C6: no row is lost without a word. When \<open>Sink\<close> returns a nil error, the count is the number
  of rows of the batch, whatever the writer reports; and when it returns an error before the
  writer took the rows, the count is 0.
\<close>

theorem Sink_accounts_for_every_row:
  assumes "Sink invoke G R rows s env = ((n, err), s', env')"
  shows "(err = None \<longrightarrow> (\<exists>vs. batch_of (ge_types G) (sk_rowType s) rows = Inr vs \<and> n = int (length vs)))
    \<and> (\<forall>e. fst (send invoke G R rows s env) = Inl e \<longrightarrow> n = 0 \<and> err = Some e)"
proof -
  obtain x s1 env1 where sent: "send invoke G R rows s env = (x, s1, env1)" by (cases "send invoke G R rows s env")
  show ?thesis
  proof (cases x)
    case (Inl e)
    with assms sent show ?thesis by (auto simp: Sink_def)
  next
    case (Inr rs)
    obtain r m where rs: "rs = (r, m)" by (cases rs)
    obtain k e env2 where waited: "sent_Wait (sk_writer s1) r env1 = ((k, e), env2)"
      by (cases "sent_Wait (sk_writer s1) r env1") (auto simp del: split_paired_Ex)
    from assms sent Inr rs waited have n: "n = k" "err = (if e = None \<and> k \<noteq> int m then Some (EMsg (SinkerSite (ShortWrite k m))) else e)"
      by (auto simp: Sink_def)
    from sent Inr rs have "send invoke G R rows s env = (Inr (r, m), s1, env1)" by simp
    then have "\<exists>vs. batch_of (ge_types G) (sk_rowType s) rows = Inr vs \<and> m = length vs"
    proof (cases rule: send_Inr)
      case (rows vs env0)
      from send_rows_Inr[OF rows(4)] have "m = length vs" by blast
      with rows(1) show ?thesis by blast
    qed auto
    with n sent Inr show ?thesis by (auto split: if_splits)
  qed
qed

text \<open>What has happened when \<open>Sink\<close> returns a nil error for a batch with rows.\<close>

lemma Sink_nil_error:
  assumes "Sink invoke G R rows s env = ((n, None), s', env')" and "n \<noteq> 0"
  obtains vs env1 out env2 r env3 where "batch_of (ge_types G) (sk_rowType s) rows = Inr vs" "start invoke s env = (None, s', env1)"
    "prepare_all G R s' vs env1 = (Inr out, env2)" "out \<noteq> []" "n = int (length out)"
    "rw_WriteRows (sk_writer s') out env2 = (Inr (Some r), env3)" "rw_Wait (sk_writer s') r env3 = ((n, None), env')"
proof -
  obtain x s1 env3 where sent: "send invoke G R rows s env = (x, s1, env3)" by (cases "send invoke G R rows s env")
  obtain res m where x: "x = Inr (res, m)"
  proof (cases x)
    case (Inl e)
    have "Sink invoke G R rows s env = ((0, Some e), s1, env3)" by (simp add: Sink_def sent Inl)
    with assms(1) show ?thesis by simp
  next
    case (Inr rm)
    with that show ?thesis by (cases rm) simp
  qed
  from sent[unfolded x] show ?thesis
  proof (cases rule: send_Inr)
    case empty
    have "Sink invoke G R rows s env = ((0, None), s1, env3)" by (simp add: Sink_def sent x empty(2,3))
    with assms show ?thesis by simp
  next
    case (rows vs env1)
    from send_rows_Inr[OF rows(4)] obtain out env2 r where out: "prepare_all G R s1 vs env1 = (Inr out, env2)"
      "m = length vs" "length out = length vs" "res = Handed r" "rw_WriteRows (sk_writer s1) out env2 = (Inr (Some r), env3)"
      by blast
    obtain k err e4 where waited: "rw_Wait (sk_writer s1) r env3 = ((k, err), e4)" by (metis surj_pair)
    have "Sink invoke G R rows s env = ((k, if err = None \<and> k \<noteq> int m
        then Some (EMsg (SinkerSite (ShortWrite k m))) else err), s1, e4)"
      using waited by (simp add: Sink_def sent x out(4))
    with assms(1) have nil: "err = None" "k = n" "k = int m" "s1 = s'" "env' = e4" by (simp_all split: if_splits)
    show ?thesis
      by (rule that[of vs env1 out env2 r env3]) (use rows out waited nil in auto)
  qed
qed

section \<open>A Sinker over load jobs\<close>

text \<open>
  A writer as a \<open>RowsWriter\<close>: the state is the writer's own and what lies outside the
  program, which is all the table, the load jobs and the log are about. \<open>BindLogger\<close> changes
  nothing the model keeps.
\<close>

definition inner :: "('u \<times> 'v) env \<Rightarrow> 'u \<times> 'v env" where
  "inner env = (fst (world env), \<lparr>world = snd (world env), logs = logs env\<rparr>)"

definition outer :: "'u \<times> 'v env \<Rightarrow> ('u \<times> 'v) env" where
  "outer ws = \<lparr>world = (fst ws, world (snd ws)), logs = logs (snd ws)\<rparr>"

lemma inner_outer [simp]: "inner (outer ws) = ws" and outer_inner [simp]: "outer (inner env) = env"
  by (cases ws) (simp_all add: inner_def outer_def)

lemma fst_inner: "fst (inner env) = fst (world env)" and fst_outer: "fst (world (outer ws)) = fst ws"
  by (simp_all add: inner_def outer_def)

definition on_snd :: "('v \<Rightarrow> 'a \<times> 'v) \<Rightarrow> 'u \<times> 'v \<Rightarrow> 'a \<times> 'u \<times> 'v" where
  "on_snd f uv = (let (a, v) = f (snd uv) in (a, fst uv, v))"

lemma on_snd_fst [simp]: "fst (snd (on_snd f uv)) = fst uv"
  by (simp add: on_snd_def case_prod_beta Let_def)

definition outside_table :: "'v tableAPI \<Rightarrow> ('u \<times> 'v) tableAPI" where
  "outside_table A =
     \<lparr>api_Metadata = on_snd (api_Metadata A), api_Update = (\<lambda>s e. on_snd (api_Update A s e)),
      api_Create = (\<lambda>md. on_snd (api_Create A md)), query_run = (\<lambda>sql. on_snd (query_run A sql))\<rparr>"

definition LoadJobs_RowsWriter :: "Relation \<Rightarrow> (Relation \<Rightarrow> 'v tableAPI) \<Rightarrow>
    (Row list \<Rightarrow> Schema \<Rightarrow> 'v env \<Rightarrow> gerr option \<times> 'v env) \<Rightarrow> (LoadJobsWriter \<times> 'v, resolved) RowsWriter" where
  "LoadJobs_RowsWriter relation client ld =
     \<lparr>rw_Relation = relation,
      rw_Client = Some (\<lambda>r. outside_table (client r)),
      rw_BindSchema = (\<lambda>schema env.
        let (w, e) = inner env; (err, w1) = BindSchema schema w in (err, outer (w1, e))),
      rw_WriteRows = (\<lambda>rows env. let (r, ws) = load_jobs_write ld rows (inner env) in (r, outer ws)),
      rw_Wait = resolved_wait,
      rw_BindLogger = Some (\<lambda>l env. env)\<rparr>"

section \<open>What a migration leaves alone\<close>

text \<open>Whatever every operation of the table keeps, a migration keeps.\<close>

definition table_keeps :: "('w \<Rightarrow> bool) \<Rightarrow> 'w tableAPI \<Rightarrow> bool" where
  "table_keeps P A \<longleftrightarrow> (\<forall>w. P w \<longrightarrow> P (snd (api_Metadata A w)) \<and> (\<forall>s e. P (snd (api_Update A s e w)))
     \<and> (\<forall>md. P (snd (api_Create A md w))) \<and> (\<forall>sql. P (snd (query_run A sql w))))"

lemma on_world_keeps: "P (snd (f (world env))) \<Longrightarrow> P (world (snd (on_world f env)))"
  by (simp add: on_world_def case_prod_beta Let_def)

lemma dropColumns_keeps:
  assumes "table_keeps P (mg_api mg)" and "P (world env)"
  shows "P (world (snd (dropColumns mg names env)))"
proof -
  obtain r env1 where call: "on_world (query_run (mg_api mg) (drop_statement (mg_relation mg) names)) env = (r, env1)" by force
  have "P (world (snd (on_world (query_run (mg_api mg) (drop_statement (mg_relation mg) names)) env)))"
    by (rule on_world_keeps[of P]) (use assms in \<open>simp add: table_keeps_def\<close>)
  with call have "P (world env1)" by simp
  with assms(2) call show ?thesis by (cases "first_error checkColumnName names"; cases r) (simp_all add: dropColumns_def)
qed

lemma patchSchema_keeps:
  assumes "table_keeps P (mg_api mg)" and "P (world env)"
  shows "P (world (snd (patchSchema mg md change env)))"
proof -
  obtain r env1 where call: "on_world (api_Update (mg_api mg) (mergeSchema (columns_of md) change) (md_ETag md)) env = (r, env1)" by force
  have "P (world (snd (on_world (api_Update (mg_api mg) (mergeSchema (columns_of md) change) (md_ETag md)) env)))"
    by (rule on_world_keeps[of P]) (use assms in \<open>simp add: table_keeps_def\<close>)
  with call have "P (world env1)" by simp
  with assms(2) call show ?thesis by (cases r) (simp_all add: patchSchema_def)
qed

lemma createTable_keeps:
  assumes "table_keeps P (mg_api mg)" and "P (world env)"
  shows "P (world (snd (createTable mg env)))"
proof -
  obtain r env1 where call: "on_world (api_Create (mg_api mg) (newTableMetadata (mg_metadata mg) (mg_schema mg))) env = (r, env1)" by force
  have "P (world (snd (on_world (api_Create (mg_api mg) (newTableMetadata (mg_metadata mg) (mg_schema mg))) env)))"
    by (rule on_world_keeps[of P]) (use assms in \<open>simp add: table_keeps_def\<close>)
  with call have "P (world env1)" by simp
  with assms(2) call show ?thesis by (cases r) (simp_all add: createTable_def)
qed

lemma apply_change_keeps:
  assumes "table_keeps P (mg_api mg)" and "P (world env)"
  shows "P (world (snd (apply_change mg md change env)))"
proof (cases md)
  case None
  with assms(2) createTable_keeps[OF assms] show ?thesis by (simp add: apply_change_def)
next
  case (Some m)
  obtain err env1 where patched: "patchSchema mg m change env = (err, env1)" by force
  with patchSchema_keeps[OF assms, of m change] have "P (world env1)" by simp
  with assms(2) Some patched dropColumns_keeps[OF assms(1), of env1] show ?thesis
    by (cases err) (simp_all add: apply_change_def)
qed

lemma migrate_planned_keeps:
  assumes "table_keeps P (mg_api mg)" and "P (world env)"
  shows "P (world (snd (migrate_planned mg md st env)))"
proof -
  obtain r ls where plan: "mg_plan mg st = (r, ls)" by force
  have "P (world (snd (apply_change mg md change (log_all ls env))))" for change
    by (rule apply_change_keeps[of P]) (use assms in simp_all)
  with assms(2) plan show ?thesis by (cases r) (simp_all add: migrate_planned_def)
qed

lemma migrate_keeps:
  assumes "table_keeps P (mg_api mg)" and "P (world env)"
  shows "P (world (snd (migrate mg env)))"
proof -
  obtain r env1 where read: "on_world (api_Metadata (mg_api mg)) env = (r, env1)" by force
  have "P (world (snd (on_world (api_Metadata (mg_api mg)) env)))"
    by (rule on_world_keeps[of P]) (use assms in \<open>simp add: table_keeps_def\<close>)
  with read have "P (world env1)" by simp
  have "P (world (snd (migrate_planned mg md st (log_add l env1))))" for md st l
    by (rule migrate_planned_keeps[of P]) (use assms(1) \<open>P (world env1)\<close> in simp_all)
  with read \<open>P (world env1)\<close> show ?thesis by (cases r) (simp_all add: migrate_def Let_def)
qed

text \<open>
  \<open>gax.Invoke\<close> touches nothing but through the call it is given.
\<close>

definition acts_through_calls :: "('s, 'q) invoker \<Rightarrow> bool" where
  "acts_through_calls invoke \<longleftrightarrow> (\<forall>P call retry r s. (\<forall>s. P s \<longrightarrow> P (snd (call s))) \<longrightarrow> P s \<longrightarrow> P (snd (invoke call retry r s)))"

lemma retrying_keeps:
  assumes "acts_through_calls invoke" and "\<And>env. P (world env) \<Longrightarrow> P (world (snd (op env)))" and "P (world env)"
  shows "P (world (snd (retrying invoke what policy op env)))"
proof (cases policy)
  case None
  with assms(2,3) show ?thesis by (simp add: retrying_def)
next
  case (Some p)
  obtain retry r where p: "p = (retry, r)" by force
  let ?Q = "\<lambda>s. P (world (snd (snd s)))"
  have call: "?Q s \<Longrightarrow> ?Q (snd (retry_call what op s))" for s
  proof -
    obtain k prev env where s: "s = (k, prev, env)" by (cases s)
    assume "?Q s"
    then have "P (world (case prev of None \<Rightarrow> env | Some e \<Rightarrow> log_add (Retrying what k e) env))"
      using s by (simp split: option.split)
    from assms(2)[OF this] show "?Q (snd (retry_call what op s))"
      unfolding s by (cases prev) (simp_all add: retry_call_def Let_def case_prod_beta)
  qed
  have "?Q (snd (invoke (retry_call what op) retry r (0, None, env)))"
    by (rule assms(1)[unfolded acts_through_calls_def, rule_format, of ?Q]) (use call assms(3) in simp_all)
  with Some p show ?thesis by (simp add: retrying_def case_prod_beta Let_def)
qed

section \<open>The order of calls\<close>

text \<open>What the Sinker calls outside the package leaves its writer alone.\<close>

definition leaves_writer :: "('u \<times> 'v) runtime \<Rightarrow> bool" where
  "leaves_writer R \<longleftrightarrow> (\<forall>env. fst (world (snd (rt_NewV7 R env))) = fst (world env)
     \<and> fst (world (snd (rt_Now R env))) = fst (world env)
     \<and> (\<forall>v info. fst (world (snd (rt_FillRow R v info env))) = fst (world env)))"

lemma fill_leaves: "leaves_writer R \<Longrightarrow> fst (world (snd (fill G R s i v env))) = fst (world env)"
  by (simp add: fill_def leaves_writer_def Let_def case_prod_beta split: sum.split)

lemma prepare_leaves:
  assumes "leaves_writer R"
  shows "fst (world (snd (prepare G R s v env))) = fst (world env)"
proof -
  obtain id env1 where id: "newID R env = (id, env1)" by force
  then have "fst (world env1) = fst (world env)"
    using assms by (auto simp: newID_def leaves_writer_def case_prod_beta Let_def)
  with id show ?thesis
    by (cases id) (simp_all add: prepare_def Let_def case_prod_beta fill_leaves[OF assms])
qed

lemma prepare_all_leaves:
  assumes "leaves_writer R"
  shows "fst (world (snd (prepare_all G R s vs env))) = fst (world env)"
proof (induction vs arbitrary: env)
  case (Cons v vs)
  obtain row env1 where row: "prepare G R s v env = (row, env1)" by force
  with prepare_leaves[OF assms, of G s v env] have "fst (world env1) = fst (world env)" by simp
  with Cons.IH[of env1] row show ?case by (cases row) (simp_all add: case_prod_beta Let_def)
qed simp

text \<open>
  The writer has the declared schema once \<open>start\<close> has succeeded. Before it ran, and after it
  failed, the writer has none, or one of those the application has asked it to take by itself.
\<close>

definition in_step :: "Schema list \<Rightarrow> (LoadJobsWriter \<times> 'v, resolved, 'p) Sinker \<Rightarrow> (LoadJobsWriter \<times> 'v) env \<Rightarrow> bool" where
  "in_step asked s env \<longleftrightarrow>
     (if sk_startErr s = Some None then bound_schema (fst (world env)) = Some (sk_schema s)
      else bound_schema (fst (world env)) \<in> insert None (Some ` set asked))"

definition over_load_jobs :: "Relation \<Rightarrow> (Relation \<Rightarrow> 'v tableAPI) \<Rightarrow> (Row list \<Rightarrow> Schema \<Rightarrow> 'v env \<Rightarrow> gerr option \<times> 'v env) \<Rightarrow>
    (LoadJobsWriter \<times> 'v, resolved, 'p) Sinker \<Rightarrow> bool" where
  "over_load_jobs relation client ld s \<longleftrightarrow>
     sk_writer s = LoadJobs_RowsWriter relation client ld
     \<and> (sk_api s = None \<or> sk_api s = Some (outside_table (client relation)))"

lemma start_once_cases:
  assumes "sk_api s = None \<or> (\<exists>A. sk_api s = Some (outside_table A))" and "acts_through_calls invoke"
    and "start_once invoke s env = (err, env1)"
  obtains (unbound) e where "err = Some e" "fst (world env1) = fst (world env)"
    | (bound) env0 where "fst (world env0) = fst (world env)" "rw_BindSchema (sk_writer s) (sk_schema s) env0 = (err, env1)"
proof -
  let ?op = "case sk_api s of None \<Rightarrow> (None, env)
    | Some api \<Rightarrow> retrying invoke ''migrate'' (sk_migrationRetry s) (migrate (sinker_migrator s api)) env"
  obtain merr env0 where op: "?op = (merr, env0)" by force
  have kept: "fst (world env0) = fst (world env)"
  proof (cases "sk_api s")
    case None
    with op show ?thesis by simp
  next
    case (Some api)
    with assms(1) obtain A where api: "api = outside_table A" by auto
    let ?P = "\<lambda>w. fst w = fst (world env)"
    have keeps: "table_keeps ?P api" by (simp add: table_keeps_def api outside_table_def)
    have "?P (world (snd (retrying invoke ''migrate'' (sk_migrationRetry s) (migrate (sinker_migrator s api)) env)))"
      by (rule retrying_keeps[of _ ?P, OF assms(2)], rule migrate_keeps[of ?P])
        (simp_all add: sinker_migrator_def keeps)
    with op Some show ?thesis by simp
  qed
  have once: "start_once invoke s env = (case merr of Some e \<Rightarrow> (Some e, env0)
      | None \<Rightarrow> rw_BindSchema (sk_writer s) (sk_schema s) env0)"
    unfolding start_once_def op by (cases merr) simp_all
  show ?thesis
  proof (cases merr)
    case None
    with once assms(3) show ?thesis by (intro bound[OF kept]) simp
  next
    case (Some e)
    with once assms(3) kept show ?thesis by (intro unbound[of e]) simp_all
  qed
qed

lemma start_once_steps:
  assumes "over_load_jobs relation client ld s" and "acts_through_calls invoke"
    and "start_once invoke s env = (err, env1)"
  shows "fst (world env1) = fst (world env)
    \<or> fst (world env1) = snd (BindSchema (sk_schema s) (fst (world env))) \<and> err = fst (BindSchema (sk_schema s) (fst (world env)))"
    and "err = None \<Longrightarrow> fst (BindSchema (sk_schema s) (fst (world env))) = None
      \<and> fst (world env1) = snd (BindSchema (sk_schema s) (fst (world env)))"
proof -
  have api: "sk_api s = None \<or> (\<exists>A. sk_api s = Some (outside_table A))"
    using assms(1) by (auto simp: over_load_jobs_def)
  have "fst (world env1) = fst (world env) \<and> err \<noteq> None
    \<or> fst (world env1) = snd (BindSchema (sk_schema s) (fst (world env))) \<and> err = fst (BindSchema (sk_schema s) (fst (world env)))"
    using api assms(2,3)
  proof (cases rule: start_once_cases)
    case (bound env0)
    have "rw_BindSchema (sk_writer s) (sk_schema s) env0
        = (fst (BindSchema (sk_schema s) (fst (world env0))), outer (snd (BindSchema (sk_schema s) (fst (world env0))), snd (inner env0)))"
      using assms(1) by (simp add: over_load_jobs_def LoadJobs_RowsWriter_def case_prod_beta Let_def fst_inner)
    with bound show ?thesis by (auto simp: fst_outer)
  qed simp
  then show "fst (world env1) = fst (world env)
    \<or> fst (world env1) = snd (BindSchema (sk_schema s) (fst (world env))) \<and> err = fst (BindSchema (sk_schema s) (fst (world env)))"
    "err = None \<Longrightarrow> fst (BindSchema (sk_schema s) (fst (world env))) = None
      \<and> fst (world env1) = snd (BindSchema (sk_schema s) (fst (world env)))"
    by auto
qed

lemma BindSchema_None: "fst (BindSchema schema w) = None \<Longrightarrow> snd (BindSchema schema w) = w\<lparr>bound_schema := Some schema\<rparr>"
  by (simp add: BindSchema_def split: if_splits)

lemma BindSchema_Some: "fst (BindSchema schema w) = Some e \<Longrightarrow> snd (BindSchema schema w) = w"
  by (simp add: BindSchema_def split: if_splits)

lemma BindSchema_bound: "bound_schema w = Some sch \<Longrightarrow> snd (BindSchema schema w) = w"
  by (simp add: BindSchema_def)

lemma BindSchema_sets: "bound_schema (snd (BindSchema schema w)) \<in> {bound_schema w, Some schema}"
  by (simp add: BindSchema_def)

lemma BindSchema_flushRows [simp]: "flushRows (snd (BindSchema schema w)) = flushRows w"
  by (simp add: BindSchema_def)

text \<open>What holds of a Sinker over load jobs and its writer between calls.\<close>

definition in_order :: "Relation \<Rightarrow> (Relation \<Rightarrow> 'v tableAPI) \<Rightarrow> (Row list \<Rightarrow> Schema \<Rightarrow> 'v env \<Rightarrow> gerr option \<times> 'v env) \<Rightarrow>
    Schema \<Rightarrow> int \<Rightarrow> Schema list \<Rightarrow> (LoadJobsWriter \<times> 'v, resolved, 'p) Sinker \<Rightarrow> (LoadJobsWriter \<times> 'v) env \<Rightarrow> bool" where
  "in_order relation client ld schema limit asked s env \<longleftrightarrow>
     over_load_jobs relation client ld s \<and> in_step asked s env \<and> sk_schema s = schema \<and> flushRows (fst (world env)) = limit"

lemma start_in_order:
  assumes "in_order relation client ld schema limit asked s env" and "acts_through_calls invoke"
    and "start invoke s env = (err, s1, env1)"
  shows "in_order relation client ld schema limit asked s1 env1"
    and "err = None \<Longrightarrow> bound_schema (fst (world env1)) = Some schema"
    and "sk_rowType s1 = sk_rowType s" and "sk_plan s1 = sk_plan s"
proof -
  have step: "over_load_jobs relation client ld s" "in_step asked s env" "sk_schema s = schema" "flushRows (fst (world env)) = limit"
    using assms(1) by (simp_all add: in_order_def)
  have "in_order relation client ld schema limit asked s1 env1 \<and> (err = None \<longrightarrow> bound_schema (fst (world env1)) = Some schema)
      \<and> sk_rowType s1 = sk_rowType s \<and> sk_plan s1 = sk_plan s"
  proof (cases "sk_startErr s")
    case (Some cached)
    with assms(3) have eqs: "err = cached" "s1 = s" "env1 = env" by (simp_all add: start_def)
    have "cached = None \<Longrightarrow> bound_schema (fst (world env)) = Some schema"
      using step(2,3) Some by (simp add: in_step_def)
    with assms(1) show ?thesis unfolding eqs by simp
  next
    case None
    obtain e env2 where once: "start_once invoke s env = (e, env2)" by force
    have "start invoke s env = (e, s\<lparr>sk_startErr := Some e\<rparr>, env2)" by (simp add: start_def None once)
    with assms(3) have eqs: "e = err" "env2 = env1" and s1: "s1 = s\<lparr>sk_startErr := Some err\<rparr>" by auto
    note steps = start_once_steps[OF step(1) assms(2) once[unfolded eqs]]
    have limit: "flushRows (fst (world env1)) = limit" using steps(1) step(4) by auto
    have bound: "err = None \<Longrightarrow> bound_schema (fst (world env1)) = Some schema"
      using steps(2) step(3) BindSchema_None[of schema "fst (world env)"] by simp
    moreover have "bound_schema (fst (world env1)) \<in> insert None (Some ` set asked)" if "err \<noteq> None"
    proof -
      from that obtain e where e: "err = Some e" by blast
      from steps(1) have "fst (world env1) = fst (world env)"
        by (auto dest: BindSchema_Some[OF trans[OF sym e]])
      moreover have "bound_schema (fst (world env)) \<in> insert None (Some ` set asked)"
        using step(2) None by (simp add: in_step_def)
      ultimately show ?thesis by simp
    qed
    ultimately have "in_step asked s1 env1" using step(3) by (cases err) (auto simp: s1 in_step_def)
    with step limit bound show ?thesis by (simp add: s1 in_order_def over_load_jobs_def)
  qed
  then show "in_order relation client ld schema limit asked s1 env1" "err = None \<Longrightarrow> bound_schema (fst (world env1)) = Some schema"
    "sk_rowType s1 = sk_rowType s" "sk_plan s1 = sk_plan s" by simp_all
qed

lemma load_jobs_keep:
  "bound_schema (fst (snd (load_jobs_write ld rows ws))) = bound_schema (fst ws)"
  "flushRows (fst (snd (load_jobs_write ld rows ws))) = flushRows (fst ws)"
  "bound_schema (fst (snd (LoadJobsWriter_FlushRows ld ws))) = bound_schema (fst ws)"
  "flushRows (fst (snd (LoadJobsWriter_FlushRows ld ws))) = flushRows (fst ws)"
  "bound_schema (fst (snd (LoadJobsWriter_Close ld ws))) = bound_schema (fst ws)"
  "flushRows (fst (snd (LoadJobsWriter_Close ld ws))) = flushRows (fst ws)"
  by (cases ws, simp add: load_jobs_write_def LoadJobsWriter_WriteRows_def WriteRows_enter_def WriteRows_record_def wg_Done_def
      LoadJobsWriter_FlushRows_def FlushRows_enter_def LoadJobsWriter_Close_def Close_enter_def Close_collect_def Let_def
      case_prod_beta split: write_entered.split option.split)+

text \<open>
  The calls of an application: \<open>Sink\<close>, \<open>SinkAsync\<close> and \<open>Start\<close> of the Sinker, and every method
  of the writer it holds itself, in any order and number. The list holds the schemas it asked the
  writer to take by calling \<open>BindSchema\<close> itself, which is the Sinker's part.
\<close>

inductive reached :: "(nat \<times> gerr option \<times> (LoadJobsWriter \<times> 'v) env, 'q) invoker \<Rightarrow> go_env \<Rightarrow> (LoadJobsWriter \<times> 'v) runtime \<Rightarrow>
    (Row list \<Rightarrow> Schema \<Rightarrow> 'v env \<Rightarrow> gerr option \<times> 'v env) \<Rightarrow>
    (LoadJobsWriter \<times> 'v, resolved, 'q retry_method \<times> 'q) Sinker \<Rightarrow> (LoadJobsWriter \<times> 'v) env \<Rightarrow> Schema list \<Rightarrow>
    (LoadJobsWriter \<times> 'v, resolved, 'q retry_method \<times> 'q) Sinker \<Rightarrow> (LoadJobsWriter \<times> 'v) env \<Rightarrow> bool"
  for invoke G R ld s0 env0 where
  reached_new: "reached invoke G R ld s0 env0 [] s0 env0"
| reached_Sink: "reached invoke G R ld s0 env0 asked s env \<Longrightarrow> Sink invoke G R rows s env = (r, s', env') \<Longrightarrow>
    reached invoke G R ld s0 env0 asked s' env'"
| reached_SinkAsync: "reached invoke G R ld s0 env0 asked s env \<Longrightarrow> SinkAsync invoke G R rows s env = (x, s', env') \<Longrightarrow>
    reached invoke G R ld s0 env0 asked s' env'"
| reached_Start: "reached invoke G R ld s0 env0 asked s env \<Longrightarrow> Start invoke s env = (err, s', env') \<Longrightarrow>
    reached invoke G R ld s0 env0 asked s' env'"
| reached_BindSchema: "reached invoke G R ld s0 env0 asked s env \<Longrightarrow> BindSchema schema (fst (inner env)) = (err, w) \<Longrightarrow>
    reached invoke G R ld s0 env0 (schema # asked) s (outer (w, snd (inner env)))"
| reached_WriteRows: "reached invoke G R ld s0 env0 asked s env \<Longrightarrow> load_jobs_write ld out (inner env) = (x, ws) \<Longrightarrow>
    reached invoke G R ld s0 env0 asked s (outer ws)"
| reached_FlushRows: "reached invoke G R ld s0 env0 asked s env \<Longrightarrow> LoadJobsWriter_FlushRows ld (inner env) = (f, ws) \<Longrightarrow>
    reached invoke G R ld s0 env0 asked s (outer ws)"
| reached_Close: "reached invoke G R ld s0 env0 asked s env \<Longrightarrow> LoadJobsWriter_Close ld (inner env) = (c, ws) \<Longrightarrow>
    reached invoke G R ld s0 env0 asked s (outer ws)"

lemma in_order_moves:
  assumes "in_order relation client ld schema limit asked s env"
    and "bound_schema (fst (world env')) = bound_schema (fst (world env))"
    and "flushRows (fst (world env')) = flushRows (fst (world env))"
  shows "in_order relation client ld schema limit asked s env'"
  using assms by (simp add: in_order_def in_step_def split: if_splits)

text \<open>A schema the application binds by itself: it changes nothing once \<open>start\<close> has succeeded.\<close>

lemma in_order_binds:
  assumes "in_order relation client ld schema limit asked s env"
    and "world env' = (snd (BindSchema sch (fst (world env))), v)"
  shows "in_order relation client ld schema limit (sch # asked) s env'"
  using assms BindSchema_bound[of "fst (world env)" _ sch] BindSchema_sets[of sch "fst (world env)"]
  by (auto simp: in_order_def in_step_def split: if_splits)

lemma send_rows_in_order:
  assumes "in_order relation client ld schema limit asked s env" and "leaves_writer R"
  shows "in_order relation client ld schema limit asked s (snd (send_rows G R s vs env))"
proof -
  obtain prepared env1 where p: "prepare_all G R s vs env = (prepared, env1)" by force
  with prepare_all_leaves[OF assms(2), of G s vs env] have "fst (world env1) = fst (world env)" by simp
  with assms(1) have order: "in_order relation client ld schema limit asked s env1" by (intro in_order_moves[OF assms(1)]) simp_all
  show ?thesis
  proof (cases prepared)
    case (Inl e)
    with p order show ?thesis by (simp add: send_rows_def)
  next
    case (Inr out)
    obtain r ws where w: "load_jobs_write ld out (inner env1) = (r, ws)" by (rule prod.exhaust)
    have "sk_writer s = LoadJobs_RowsWriter relation client ld" using assms(1) by (simp add: in_order_def over_load_jobs_def)
    with p Inr w have "snd (send_rows G R s vs env) = outer ws"
      by (cases r rule: sum.exhaust; cases "projr r") (simp_all add: send_rows_def LoadJobs_RowsWriter_def)
    moreover have "in_order relation client ld schema limit asked s (outer ws)"
      using load_jobs_keep(1,2)[of ld out "inner env1"] w by (intro in_order_moves[OF order]) (simp_all add: fst_outer fst_inner)
    ultimately show ?thesis by simp
  qed
qed

lemma send_in_order:
  assumes "in_order relation client ld schema limit asked s env" and "leaves_writer R" and "acts_through_calls invoke"
    and "send invoke G R rows s env = (x, s', env')"
  shows "in_order relation client ld schema limit asked s' env'"
proof (cases "batch_of (ge_types G) (sk_rowType s) rows")
  case (Inl e)
  with assms(1,4) show ?thesis by (simp add: send_def)
next
  case (Inr vs)
  show ?thesis
  proof (cases vs)
    case Nil
    with assms(1,4) Inr show ?thesis by (simp add: send_def)
  next
    case (Cons v vs')
    obtain err s1 env1 where started: "start invoke s env = (err, s1, env1)" by (cases "start invoke s env")
    note order = start_in_order(1)[OF assms(1,3) started]
    show ?thesis
    proof (cases err)
      case None
      obtain y env2 where y: "send_rows G R s1 vs env1 = (y, env2)" by force
      have "send invoke G R rows s env = (y, s1, env2)"
        using Inr Cons started None y by (simp add: send_def)
      with assms(4) send_rows_in_order[OF order assms(2), of G vs] y show ?thesis by simp
    next
      case (Some e)
      have "send invoke G R rows s env = (Inl e, s1, env1)"
        using Inr Cons started Some by (simp add: send_def)
      with assms(4) order show ?thesis by simp
    qed
  qed
qed

lemma Sink_in_order:
  assumes "in_order relation client ld schema limit asked s env" and "leaves_writer R" and "acts_through_calls invoke"
    and "Sink invoke G R rows s env = (r, s', env')"
  shows "in_order relation client ld schema limit asked s' env'"
proof -
  obtain x s1 env1 where sent: "send invoke G R rows s env = (x, s1, env1)" by (cases "send invoke G R rows s env")
  note order = send_in_order[OF assms(1-3) sent]
  then have w: "sk_writer s1 = LoadJobs_RowsWriter relation client ld" by (simp add: in_order_def over_load_jobs_def)
  have waits: "snd (sent_Wait (sk_writer s1) res env1) = env1" for res
    by (cases res) (simp_all add: w LoadJobs_RowsWriter_def)
  show ?thesis
  proof (cases x)
    case (Inl e)
    have "Sink invoke G R rows s env = ((0, Some e), s1, env1)" by (simp add: Sink_def sent Inl)
    with assms(4) order show ?thesis by simp
  next
    case (Inr rm)
    obtain res m where rm: "rm = (res, m)" by (cases rm)
    have "snd (Sink invoke G R rows s env) = (s1, env1)"
      using waits[of res] by (simp add: Sink_def sent Inr rm case_prod_beta Let_def)
    with assms(4) order show ?thesis by simp
  qed
qed

lemma reached_in_order:
  assumes "reached invoke G R ld s0 env0 asked s env" and "in_order relation client ld schema limit [] s0 env0"
    and "leaves_writer R" and "acts_through_calls invoke"
  shows "in_order relation client ld schema limit asked s env"
  using assms(1)
proof (induction rule: reached.induct)
  case reached_new
  show ?case by (rule assms(2))
next
  case (reached_Sink asked s env rows r s' env')
  show ?case by (rule Sink_in_order[OF reached_Sink.IH assms(3,4) reached_Sink(2)])
next
  case (reached_SinkAsync asked s env rows x s' env')
  obtain y s1 env1 where sent: "send invoke G R rows s env = (y, s1, env1)" by (cases "send invoke G R rows s env")
  have "SinkAsync invoke G R rows s env = (and_then y (\<lambda>(result, sent). Inr result), s1, env1)"
    by (simp add: SinkAsync_def sent)
  with reached_SinkAsync(2) send_in_order[OF reached_SinkAsync.IH assms(3,4) sent] show ?case by simp
next
  case (reached_Start asked s env err s' env')
  show ?case by (rule start_in_order(1)[OF reached_Start.IH assms(4) reached_Start(2)[unfolded Start_def]])
next
  case (reached_BindSchema asked s env sch err w)
  then show ?case by (intro in_order_binds[OF reached_BindSchema.IH]) (simp add: outer_def fst_inner)
next
  case (reached_WriteRows asked s env out x ws)
  with load_jobs_keep(1,2)[of ld out "inner env"] show ?case
    by (intro in_order_moves[OF reached_WriteRows.IH]) (simp_all add: fst_outer fst_inner)
next
  case (reached_FlushRows asked s env f ws)
  with load_jobs_keep(3,4)[of ld "inner env"] show ?case
    by (intro in_order_moves[OF reached_FlushRows.IH]) (simp_all add: fst_outer fst_inner)
next
  case (reached_Close asked s env c ws)
  with load_jobs_keep(5,6)[of ld "inner env"] show ?case
    by (intro in_order_moves[OF reached_Close.IH]) (simp_all add: fst_outer fst_inner)
qed

lemma new_in_order:
  assumes "NewSinker R d (Some (LoadJobs_RowsWriter relation client ld)) decl opts env00 = (Inr s0, env0)"
    and "bound_schema (fst (world env0)) = None"
  shows "in_order relation client ld (decl_schema decl) (flushRows (fst (world env0))) [] s0 env0"
  using assms(1)
proof (rule NewSinker_Inr)
  fix writer rt c i t
  assume checks: "check_new (Some (LoadJobs_RowsWriter relation client ld)) decl opts = Inr (writer, rt, c)"
    and s0: "s0 = new_Sinker d writer decl rt c i t"
  from check_new_Inr(1)[OF checks] have "writer = LoadJobs_RowsWriter relation client ld" by simp
  with assms(2) show ?thesis
    unfolding s0 by (simp add: in_order_def over_load_jobs_def in_step_def LoadJobs_RowsWriter_def)
qed

text \<open>
  C5: the writer is given the schema once, and not before the table is ready for it. Whatever calls
  an application makes on a Sinker over a fresh \<open>LoadJobsWriter\<close>, and on the writer itself, in
  whatever order: once \<open>start\<close> has succeeded the writer holds the declared schema for good, so that
  no batch is refused for want of one; and before \<open>start\<close> ran, and after a \<open>start\<close> that failed,
  the writer holds no schema but one the application bound by itself. So where the application
  leaves binding to the Sinker, the writer holds a schema exactly from the successful start on.
\<close>

theorem schema_is_bound_once_and_first:
  assumes "NewSinker R d (Some (LoadJobs_RowsWriter relation client ld)) decl opts env00 = (Inr s0, env0)"
    and "bound_schema (fst (world env0)) = None" and "leaves_writer R" and "acts_through_calls invoke"
    and "reached invoke G R ld s0 env0 asked s env"
  shows "(sk_startErr s = Some None \<longrightarrow> bound_schema (fst (world env)) = Some (decl_schema decl)
        \<and> fst (load_jobs_write ld out (inner env)) \<noteq> Inl (EMsg (WriterSite NoSchemaBound)))
    \<and> (sk_startErr s \<noteq> Some None \<longrightarrow> bound_schema (fst (world env)) \<in> insert None (Some ` set asked))
    \<and> (asked = [] \<longrightarrow> bound_schema (fst (world env)) = (if sk_startErr s = Some None then Some (decl_schema decl) else None))"
proof -
  from reached_in_order[OF assms(5) new_in_order[OF assms(1,2)] assms(3,4)]
  have step: "in_step asked s env" "sk_schema s = decl_schema decl" by (simp_all add: in_order_def)
  have "fst (load_jobs_write ld out (inner env)) \<noteq> Inl (EMsg (WriterSite NoSchemaBound))"
    if "bound_schema (fst (world env)) = Some (decl_schema decl)"
    using that by (cases "inner env")
      (auto simp: load_jobs_write_def LoadJobsWriter_WriteRows_def WriteRows_enter_def writer_closed_def inner_def Let_def
        case_prod_beta and_then_Inl split: write_entered.split)
  with step show ?thesis by (auto simp: in_step_def)
qed

lemma direct_write:
  assumes "load_jobs_write ld out (w, e0) = (Inr (Some r), ws)" and "flushRows w = 0" and "bound_schema w = Some schema"
    and "out \<noteq> []" and "ld out schema e0 = (err, e)"
  shows "r = WriteRows_direct out err" and "ws = (w, e)"
  using assms by (auto simp: load_jobs_write_def LoadJobsWriter_WriteRows_def WriteRows_enter_def schema_of_def and_then_Inr
      split: if_splits)

text \<open>
  C3: what a nil error means through load jobs. Without a buffer, when \<open>Sink\<close> returns a nil
  error for a batch with rows, a load of exactly the rows that batch was converted to, under the
  declared schema, was submitted and came to a successful end, and the count is theirs.
\<close>

theorem Sink_means_loaded:
  assumes "NewSinker R d (Some (LoadJobs_RowsWriter relation client ld)) decl opts env00 = (Inr s0, env0)"
    and "bound_schema (fst (world env0)) = None" and "flushRows (fst (world env0)) = 0"
    and "leaves_writer R" and "acts_through_calls invoke"
    and "reached invoke G R ld s0 env0 asked s env"
    and "Sink invoke G R rows s env = ((n, None), s', env')" and "n \<noteq> 0"
  shows "\<exists>vs out env1 env2 e. batch_of (ge_types G) (sk_rowType s) rows = Inr vs
    \<and> prepare_all G R s' vs env1 = (Inr out, env2) \<and> n = int (length out)
    \<and> ld out (decl_schema decl) (snd (inner env2)) = (None, e) \<and> snd (inner env') = e"
proof -
  note order = reached_in_order[OF assms(6) new_in_order[OF assms(1,2)] assms(4,5)]
  from assms(7,8) show ?thesis
  proof (rule Sink_nil_error)
    fix vs env1 out env2 r env3
    assume batch: "batch_of (ge_types G) (sk_rowType s) rows = Inr vs" and start: "start invoke s env = (None, s', env1)"
      and out: "prepare_all G R s' vs env1 = (Inr out, env2)" "out \<noteq> []" "n = int (length out)"
      and put: "rw_WriteRows (sk_writer s') out env2 = (Inr (Some r), env3)" "rw_Wait (sk_writer s') r env3 = ((n, None), env')"
    note started = start_in_order[OF order assms(5) start]
    then have writer: "sk_writer s' = LoadJobs_RowsWriter relation client ld"
      and bound: "bound_schema (fst (world env1)) = Some (decl_schema decl)" "flushRows (fst (world env1)) = 0"
      using assms(3) by (simp_all add: in_order_def over_load_jobs_def)
    have fst2: "fst (world env2) = fst (world env1)"
      using prepare_all_leaves[OF assms(4), of G s' vs env1] out(1) by simp
    obtain err e where ld: "ld out (decl_schema decl) (snd (inner env2)) = (err, e)" by force
    obtain r' ws where written: "load_jobs_write ld out (inner env2) = (r', ws)" by (rule prod.exhaust)
    with put writer have r': "r' = Inr (Some r)" "env' = outer ws" "snd r = None" by (simp_all add: LoadJobs_RowsWriter_def)
    have "load_jobs_write ld out (fst (world env2), snd (inner env2)) = (Inr (Some r), ws)"
      using written r' by (simp add: inner_def)
    from direct_write[OF this _ _ out(2) ld] fst2 bound
    have direct: "r = WriteRows_direct out err" "ws = (fst (world env2), e)" by simp_all
    from direct(1) r'(3) have "err = None" by (cases err) (simp_all add: WriteRows_direct_def ResolvedResult_def)
    moreover have "snd (inner env') = e" using r'(2) direct(2) by simp
    ultimately show ?thesis
      using batch out ld by (intro exI[of _ vs] exI[of _ out] exI[of _ env1] exI[of _ env2] exI[of _ e]) simp
  qed
qed

text \<open>
  C35: a failed start is final. Once \<open>start\<close> has failed, every call with rows to write returns
  that error, with a count of 0, and touches neither the table nor the writer; a batch that is
  empty or no batch at all is answered as always.
\<close>

theorem failed_start_is_final:
  assumes "sk_startErr s = None" and "start_once invoke s env = (Some e, env1)"
    and "batch_of (ge_types G) (sk_rowType s) rows = Inr (v # vs)"
  shows "Sink invoke G R rows s env = ((0, Some e), s\<lparr>sk_startErr := Some (Some e)\<rparr>, env1)
    \<and> Sink invoke G R rows (s\<lparr>sk_startErr := Some (Some e)\<rparr>) env2 = ((0, Some e), s\<lparr>sk_startErr := Some (Some e)\<rparr>, env2)
    \<and> SinkAsync invoke G R rows (s\<lparr>sk_startErr := Some (Some e)\<rparr>) env2 = (Inl e, s\<lparr>sk_startErr := Some (Some e)\<rparr>, env2)
    \<and> Start invoke (s\<lparr>sk_startErr := Some (Some e)\<rparr>) env2 = (Some e, s\<lparr>sk_startErr := Some (Some e)\<rparr>, env2)"
proof -
  have first: "start invoke s env = (Some e, s\<lparr>sk_startErr := Some (Some e)\<rparr>, env1)"
    by (simp add: start_def assms(1,2))
  have again: "start invoke (s\<lparr>sk_startErr := Some (Some e)\<rparr>) env2 = (Some e, s\<lparr>sk_startErr := Some (Some e)\<rparr>, env2)"
    by (simp add: start_def)
  show ?thesis by (simp add: Sink_def SinkAsync_def Start_def send_def assms(3) first again)
qed

text \<open>
  C34: what reaches the writer is columns of the declared schema. A Sinker built from a
  declaration, of a struct type or of metadata, hands its writer one row for each row of the
  batch, and no row names a column the schema lacks or names one twice, whatever the schema a
  type spells out for itself and whatever its \<open>FillRow\<close> does.
\<close>

theorem prepared_rows_have_declared_columns:
  assumes "declarationOf n (ge_types G) rt ms = Some decl \<or> decl = DeclarationFromMetadata md mss"
    and "NewSinker R d w decl opts env = (Inr s, env1)"
    and "prepare_all G R s vs env2 = (Inr out, env3)"
  shows "length out = length vs \<and> (\<forall>row\<in>set out. distinct (map fst (row_Values row))
    \<and> fst ` set (row_Values row) \<subseteq> fs_Name ` set (sk_schema s))"
proof -
  have "sound_declaration decl" using assms(1) declarationOf_sound DeclarationFromMetadata_sound by blast
  then obtain p where p: "decl_err decl = None \<Longrightarrow> decl_plan decl = Some p \<and> converter_ready p (decl_schema decl)"
    by (auto simp: sound_declaration_def)
  from assms(2) have s: "sk_plan s = Some p" "converter_ready p (sk_schema s)"
    by (rule NewSinker_Inr; use p check_new_Inr(2) in force)+
  have "distinct (map fst (row_Values row)) \<and> fst ` set (row_Values row) \<subseteq> fs_Name ` set (sk_schema s)"
    if "row \<in> set out" for row
  proof -
    from prepare_all_Inr(2)[OF assms(3)] that obtain rv where "converter_marshalRow G p (False, rv) = Inr (row_Values row)"
      using s(1) by (auto simp: plan_marshalRow_def)
    from converters.columns[OF s(2) this] show ?thesis .
  qed
  with prepare_all_Inr(1)[OF assms(3)] show ?thesis by blast
qed

text \<open>
  A writer without a client gets a Sinker only under \<open>MigrationNone\<close> that creates nothing,
  and such a Sinker never asks for the table: starting it is handing the writer its schema.
\<close>

theorem no_client_no_migration:
  assumes "NewSinker R d (Some w) decl opts env = (Inr s, env')" and "rw_Client w = None"
  shows "(\<exists>m. \<not> none_CreateIfMissing m \<and> (sk_strategy s = Builtin (NoneStrategy m) \<or> sk_strategy s = NonePointer (Some m)))
    \<and> start_once invoke s env2 = rw_BindSchema w (decl_schema decl) env2"
proof -
  from assms have none: "sk_api s = None" and check: "checkStrategyWithoutAClient (sk_strategy s) = None"
    and w: "sk_writer s = w" "sk_schema s = decl_schema decl"
    by (auto elim!: NewSinker_Inr dest!: check_new_Inr(1))
  have "\<exists>m. \<not> none_CreateIfMissing m \<and> (sk_strategy s = Builtin (NoneStrategy m) \<or> sk_strategy s = NonePointer (Some m))"
    using check by (auto simp: checkStrategyWithoutAClient_def split: MigrationStrategy.splits builtin_strategy.splits option.splits if_splits)
  with none w show ?thesis by (simp add: start_once_def)
qed

section \<open>One Sinker over load jobs\<close>

definition id_schema :: Schema where
  "id_schema = [FieldSchema ''id'' StringFieldType False False [] 0 []]"

definition id_declaration :: Declaration where
  "id_declaration = DeclarationFromMetadata (Some (empty_metadata\<lparr>md_Schema := Some id_schema\<rparr>)) []"

definition quiet_runtime :: "'w runtime" where
  "quiet_runtime = \<lparr>rt_NewV7 = (\<lambda>env. (Inr ''u7'', env)), rt_Now = (\<lambda>env. (\<lparr>gt_nanos = 0, gt_offset = 0\<rparr>, env)),
     rt_FillRow = (\<lambda>v info env. ((None, v), env))\<rparr>"

definition call_once :: "('s, 'q) invoker" where
  "call_once call retry r s = call s"

definition no_retries :: "unit retry_method \<times> unit" where
  "no_retries = (\<lambda>r e. (None, r), ())"

definition id_table :: "'w tableAPI" where
  "id_table = \<lparr>api_Metadata = (\<lambda>w. (Inr (empty_metadata\<lparr>md_Schema := Some id_schema\<rparr>), w)),
     api_Update = (\<lambda>s e w. (None, w)), api_Create = (\<lambda>md w. (None, w)), query_run = (\<lambda>sql w. (None, w))\<rparr>"

definition id_relation :: Relation where
  "id_relation = \<lparr>ProjectID = ''p'', DatasetID = ''d'', TableID = ''t''\<rparr>"

definition id_writer :: "(LoadJobsWriter \<times> unit, resolved) RowsWriter" where
  "id_writer = LoadJobs_RowsWriter id_relation (\<lambda>r. id_table) (\<lambda>rows schema env. (None, env))"

definition id_options :: "(unit retry_method \<times> unit) Option list" where
  "id_options = [WithMigrationStrategy (Some (Builtin (NoneStrategy \<lparr>none_CreateIfMissing = False\<rparr>))) None]"

definition id_env :: "(LoadJobsWriter \<times> unit) env" where
  "id_env = \<lparr>world = (\<lparr>flushRows = 0, bound_schema = None, buf = [], pending = [], closed = False, wg = 0\<rparr>, ()), logs = []\<rparr>"

definition id_sinker :: "(LoadJobsWriter \<times> unit, resolved, unit retry_method \<times> unit) Sinker" where
  "id_sinker = new_Sinker no_retries id_writer id_declaration typeMapStringAny
     \<lparr>cfg_strategy = Some (Builtin (NoneStrategy \<lparr>none_CreateIfMissing = False\<rparr>)), cfg_migrationRetry = None,
      cfg_logger = None\<rparr> ''u7'' \<lparr>gt_nanos = 0, gt_offset = 0\<rparr>"

definition id_plan :: mapPlan where
  "id_plan = MapPlan id_schema [(''id'', id_schema ! 0)] [] None"

lemma id_declaration_eq:
  "id_declaration = \<lparr>decl_rowType = Some typeMapStringAny, decl_plan = Some (MapRows id_plan), decl_schema = id_schema,
     decl_metadata = Some (empty_metadata\<lparr>md_Schema := Some id_schema\<rparr>), decl_fills = False, decl_err = None\<rparr>"
  by (simp add: id_declaration_def DeclarationFromMetadata_def columns_of_def id_schema_def buildMapPlan_def joinMarshalers_def
      marshalers_err_def map_put_def id_plan_def)

lemma id_sinker_made: "NewSinker quiet_runtime no_retries (Some id_writer) id_declaration id_options id_env = (Inr id_sinker, id_env)"
  by (simp add: NewSinker_def check_new_def id_declaration_eq id_options_def id_writer_def LoadJobs_RowsWriter_def
      validate_relation_def id_relation_def WithMigrationStrategy_def validateStrategy_def empty_config_def newID_def
      quiet_runtime_def id_sinker_def)

definition id_row :: goval where
  "id_row = GMap typeMapStringAny (Some [(GString (Ty 10) ''id'', GIface (Ty 13) (Some (GString (Ty 10) ''a'')))])"

definition id_values :: "Row list" where
  "id_values = [\<lparr>row_ID = ''u7'', row_Values = [(''id'', BString ''a'')]\<rparr>]"

definition bound_env :: "(LoadJobsWriter \<times> unit) env" where
  "bound_env = \<lparr>world = (\<lparr>flushRows = 0, bound_schema = Some id_schema, buf = [], pending = [], closed = False, wg = 0\<rparr>, ()),
     logs = [Compared [] [] [] 0, NeedsNoChange]\<rparr>"

lemmas id_eval = id_sinker_def chosen_strategy_def id_writer_def LoadJobs_RowsWriter_def id_declaration_eq inner_def
  outer_def

lemma id_started: "start_once call_once id_sinker id_env = (None, bound_env)"
  by (simp add: start_once_def retrying_def id_eval sinker_migrator_def migrate_eval outside_table_def on_snd_def id_table_def
      id_env_def diff_eval id_schema_def columns_of_def BindSchema_def bound_env_def plan_defs log_add_def log_all_def diff_Empty_def)

definition id_started_sinker :: "(LoadJobsWriter \<times> unit, resolved, unit retry_method \<times> unit) Sinker" where
  "id_started_sinker = id_sinker\<lparr>sk_startErr := Some None\<rparr>"

lemma id_batch: "batch_of (ge_types log_env) typeMapStringAny (Some id_row) = Inr [id_row]"
  by (simp add: batch_of_def rowsOf_def id_row_def batchRowType_def)

lemma id_prepared:
  "prepare_all log_env quiet_runtime id_started_sinker [id_row] env = (Inr id_values, env)"
  "prepare_all log_env quiet_runtime id_sinker [id_row] env = (Inr id_values, env)"
  by (simp_all add: prepare_def newID_def quiet_runtime_def fill_def id_started_sinker_def id_eval id_row_def plan_marshalRow_def
      map_row_simps id_plan_def id_schema_def type_simps log_env_def id_values_def)

lemma id_sent: "send call_once log_env quiet_runtime (Some id_row) id_sinker id_env
    = (Inr (Handed (1, None), 1), id_started_sinker, bound_env)"
proof -
  have "start call_once id_sinker id_env = (None, id_started_sinker, bound_env)"
    using id_started by (simp add: start_def id_started_sinker_def) (simp add: id_sinker_def)
  moreover have "sk_rowType id_sinker = typeMapStringAny" by (simp add: id_sinker_def)
  moreover have "send_rows log_env quiet_runtime id_started_sinker [id_row] bound_env = (Inr (Handed (1, None), 1), bound_env)"
    unfolding send_rows_def id_prepared
    by (simp add: id_started_sinker_def id_eval id_values_def load_jobs_write_def LoadJobsWriter_WriteRows_def
        WriteRows_enter_def WriteRows_direct_def ResolvedResult_def bound_env_def)
  ultimately show ?thesis by (simp add: send_def id_batch)
qed

lemma id_sunk: "Sink call_once log_env quiet_runtime (Some id_row) id_sinker id_env = ((1, None), id_started_sinker, bound_env)"
  by (simp add: Sink_def id_sent) (simp add: id_started_sinker_def id_eval)

lemma id_hypotheses: "leaves_writer quiet_runtime" "acts_through_calls call_once"
  by (simp_all add: leaves_writer_def quiet_runtime_def acts_through_calls_def call_once_def)

theorem Sink_accounts_for_every_row_witness: "\<exists>vs. batch_of log_types typeMapStringAny (Some id_row) = Inr vs \<and> length vs = 1"
  using Sink_accounts_for_every_row[OF id_sunk] by (simp add: log_env_def id_sinker_def)

theorem schema_is_bound_once_and_first_witness: "bound_schema (fst (world bound_env)) = Some id_schema"
proof -
  have "reached call_once log_env quiet_runtime (\<lambda>rows schema env. (None, env)) id_sinker id_env [] id_started_sinker bound_env"
    by (rule reached_Sink[OF reached_new id_sunk])
  from schema_is_bound_once_and_first[OF id_sinker_made[unfolded id_writer_def] _ id_hypotheses this]
  show ?thesis by (simp add: id_env_def id_started_sinker_def id_declaration_eq)
qed

theorem Sink_means_loaded_witness: "\<exists>vs. batch_of log_types typeMapStringAny (Some id_row) = Inr vs"
proof -
  from Sink_means_loaded[OF id_sinker_made[unfolded id_writer_def] _ _ id_hypotheses reached_new id_sunk]
  show ?thesis by (simp add: id_env_def log_env_def id_sinker_def) blast
qed

theorem failed_start_is_final_witness:
  "fst (Sink call_once log_env quiet_runtime (Some id_row) (id_sinker\<lparr>sk_startErr := Some (Some (EMsg (WriterSite SchemaAlreadyBound)))\<rparr>)
      id_env) = (0, Some (EMsg (WriterSite SchemaAlreadyBound)))"
proof -
  have started: "start_once call_once id_sinker bound_env = (Some (EMsg (WriterSite SchemaAlreadyBound)),
      bound_env\<lparr>logs := [Compared [] [] [] 0, NeedsNoChange, Compared [] [] [] 0, NeedsNoChange]\<rparr>)"
    by (simp add: start_once_def retrying_def id_eval sinker_migrator_def migrate_eval outside_table_def on_snd_def id_table_def
        bound_env_def diff_eval id_schema_def columns_of_def BindSchema_def plan_defs log_add_def log_all_def diff_Empty_def)
  have fresh: "sk_startErr id_sinker = None" and rows: "batch_of (ge_types log_env) (sk_rowType id_sinker) (Some id_row) = Inr (id_row # [])"
    using id_batch by (simp_all add: id_sinker_def)
  show ?thesis using failed_start_is_final[OF fresh started rows] by simp
qed

theorem prepared_rows_have_declared_columns_witness: "fst ` set (row_Values (hd id_values)) \<subseteq> fs_Name ` set id_schema"
  using prepared_rows_have_declared_columns[OF disjI2[OF id_declaration_def] id_sinker_made id_prepared(2)]
  by (simp add: id_values_def id_sinker_def id_declaration_eq)

text \<open>A writer that is not connected to BigQuery.\<close>

definition offline_writer :: "(LoadJobsWriter \<times> unit, resolved) RowsWriter" where
  "offline_writer = id_writer\<lparr>rw_Client := None\<rparr>"

theorem no_client_no_migration_witness:
  "start_once call_once (new_Sinker no_retries offline_writer id_declaration typeMapStringAny
     \<lparr>cfg_strategy = Some (Builtin (NoneStrategy \<lparr>none_CreateIfMissing = False\<rparr>)), cfg_migrationRetry = None,
      cfg_logger = None\<rparr> ''u7'' \<lparr>gt_nanos = 0, gt_offset = 0\<rparr>) id_env
   = rw_BindSchema offline_writer id_schema id_env"
proof -
  let ?s = "new_Sinker no_retries offline_writer id_declaration typeMapStringAny
     \<lparr>cfg_strategy = Some (Builtin (NoneStrategy \<lparr>none_CreateIfMissing = False\<rparr>)), cfg_migrationRetry = None,
      cfg_logger = None\<rparr> ''u7'' \<lparr>gt_nanos = 0, gt_offset = 0\<rparr>"
  have "NewSinker quiet_runtime no_retries (Some offline_writer) id_declaration id_options id_env
      = (Inr ?s, log_add NeverChecked id_env)"
    by (simp add: NewSinker_def check_new_def id_declaration_eq id_options_def offline_writer_def id_writer_def
        LoadJobs_RowsWriter_def validate_relation_def id_relation_def WithMigrationStrategy_def validateStrategy_def
        empty_config_def newID_def quiet_runtime_def chosen_strategy_def checkStrategyWithoutAClient_def)
  from no_client_no_migration[OF this] show ?thesis by (simp add: offline_writer_def id_declaration_eq)
qed

end
