(* ===== verification/StorageWrite.thy ===== *)
theory StorageWrite
  imports SinkerRuns
begin

text \<open>
  storagewrite.go: the transport that sends rows through the Storage Write API. The settings
  and the writer made from them, opening a stream once the schema is settled, appends, and
  closing. What the client library and the protocol buffers packages do is a record of
  functions; their values (descriptors, clients, streams, pending appends) are of one type.
\<close>

section \<open>The client library\<close>

text \<open>\<open>managedwriter.StreamType\<close>: the zero value, the library's constants, and any other text.\<close>

datatype StreamType = NoStreamType | DefaultStream | CommittedStream | PendingStream | BufferedStream | OtherStream string

text \<open>The constants of \<open>storagepb.TableFieldSchema_Type\<close> the sources name.\<close>

datatype storage_type = StorageNUMERIC | StorageBIGNUMERIC | StorageDATETIME | StorageDATE | StorageTIME

datatype proto_type = TYPE_STRING

datatype conversion_option = WithProtoMapping storage_type proto_type

text \<open>The options of a stream, the caller's among them; \<open>CallerOption\<close> is any the sources do not name.\<close>

datatype 'x writer_option =
    WithStreamName string
  | WithType StreamType
  | WithDestinationTable string
  | WithSchemaDescriptor 'x
  | EnableWriteRetries bool
  | CallerOption 'x

record rowError =
  re_Index :: int
  re_Code :: string
  re_Message :: string

text \<open>
  \<open>sl_FullResponse\<close> gives the row errors of the response, none where it is nil, and the error.
\<close>

record ('w, 'x) storage_lib =
  sl_json :: json_lib
  sl_BQSchemaToStorageTableSchema :: "Schema \<Rightarrow> gerr + 'x"
  sl_StorageSchemaToProtoDescriptor :: "'x \<Rightarrow> string \<Rightarrow> conversion_option list \<Rightarrow> gerr + 'x"
  sl_AsMessageDescriptor :: "'x \<Rightarrow> 'x option"
  sl_NormalizeDescriptor :: "'x \<Rightarrow> gerr + 'x"
  sl_Unmarshal :: "string \<Rightarrow> 'x \<Rightarrow> gerr + 'x"
  sl_Marshal :: "'x \<Rightarrow> gerr + string"
  sl_TableParentFromStreamName :: "string \<Rightarrow> string"
  sl_TableParentFromParts :: "string \<Rightarrow> string \<Rightarrow> string \<Rightarrow> string"
  sl_NewClient :: "string \<Rightarrow> 'x list \<Rightarrow> 'w \<Rightarrow> (gerr + 'x) \<times> 'w"
  sl_NewManagedStream :: "'x \<Rightarrow> 'x writer_option list \<Rightarrow> 'w \<Rightarrow> (gerr + 'x) \<times> 'w"
  sl_StreamName :: "'x \<Rightarrow> string"
  sl_AppendRows :: "'x \<Rightarrow> string list \<Rightarrow> 'w \<Rightarrow> (gerr + 'x) \<times> 'w"
  sl_FullResponse :: "'x \<Rightarrow> 'w \<Rightarrow> (rowError list \<times> gerr option) \<times> 'w"
  sl_CloseStream :: "'x \<Rightarrow> 'w \<Rightarrow> gerr option \<times> 'w"
  sl_CloseClient :: "'x \<Rightarrow> 'w \<Rightarrow> gerr option \<times> 'w"

text \<open>\<open>io.EOF\<close>, and \<open>errors.Is(err, io.EOF)\<close>.\<close>

definition io_EOF :: gerr where
  "io_EOF = EOther ''EOF''"

definition is_EOF :: "gerr \<Rightarrow> bool" where
  "is_EOF e \<longleftrightarrow> io_EOF \<in> set (error_chain e)"

section \<open>The proto message of a row\<close>

definition textualTypes :: "storage_type list" where
  "textualTypes = [StorageNUMERIC, StorageBIGNUMERIC, StorageDATETIME, StorageDATE, StorageTIME]"

definition rowDescriptor :: "('w, 'x) storage_lib \<Rightarrow> Schema \<Rightarrow> gerr + 'x" where
  "rowDescriptor L schema =
     and_then (map_error (EWrap (WriterSite ConvertSchema)) (sl_BQSchemaToStorageTableSchema L schema)) (\<lambda>storageSchema.
     and_then (map_error (EWrap (WriterSite DeriveDescriptor))
                 (sl_StorageSchemaToProtoDescriptor L storageSchema ''Row''
                    (map (\<lambda>t. WithProtoMapping t TYPE_STRING) textualTypes))) (\<lambda>desc.
       case sl_AsMessageDescriptor L desc of
         None \<Rightarrow> Inl (EMsg (WriterSite NotAMessageDescriptor))
       | Some md \<Rightarrow> Inr md))"

section \<open>Settings\<close>

record 'x StorageWrite =
  set_StreamType :: StreamType
  set_StreamName :: string
  set_DisableWriteRetries :: bool
  set_ClientOptions :: "'x list"
  set_WriterOptions :: "'x writer_option list"

fun type_problem :: "StreamType \<Rightarrow> gerr option" where
  "type_problem NoStreamType = None"
| "type_problem DefaultStream = None"
| "type_problem CommittedStream = None"
| "type_problem PendingStream = Some (EMsg (WriterSite (StreamTypeUnsupported ''PENDING'')))"
| "type_problem BufferedStream = Some (EMsg (WriterSite (StreamTypeUnsupported ''BUFFERED'')))"
| "type_problem (OtherStream s) = Some (EMsg (WriterSite (StreamTypeUnknown s)))"

definition StorageWrite_Validate :: "'x StorageWrite \<Rightarrow> gerr option" where
  "StorageWrite_Validate w =
     (if set_StreamName w \<noteq> [] \<and> set_StreamType w \<noteq> NoStreamType then Some (EMsg (WriterSite StreamNameAndType))
      else type_problem (set_StreamType w))"

section \<open>The writer\<close>

text \<open>A \<open>*bigquery.Client\<close>: its project, and the table and query runner it gives.\<close>

type_synonym 'w bq_client = "string \<times> (Relation \<Rightarrow> 'w tableAPI)"

record ('w, 'x) StorageWriter =
  sw_relation :: Relation
  sw_client :: "'w bq_client"
  sw_streamName :: string
  sw_streamType :: StreamType
  sw_disableWriteRetries :: bool
  sw_clientOptions :: "'x list"
  sw_writerOpts :: "'x writer_option list"
  sw_schema :: Schema
  sw_descriptor :: "'x option"
  sw_mwClient :: "'x option"
  sw_stream :: "'x option"
  sw_closed :: bool

text \<open>The relation with its project filled in from the client.\<close>

definition in_project :: "string \<Rightarrow> Relation \<Rightarrow> Relation" where
  "in_project p r = (if ProjectID r = [] then r\<lparr>ProjectID := p\<rparr> else r)"

definition check_stream_name :: "('w, 'x) storage_lib \<Rightarrow> string \<Rightarrow> Relation \<Rightarrow> gerr option" where
  "check_stream_name L streamName relation =
     (if streamName = [] then None
      else case parseTableParent (sl_TableParentFromStreamName L streamName) of
             Inl e \<Rightarrow> Some (EWrap (WriterSite (StreamNameSite streamName)) e)
           | Inr streamRelation \<Rightarrow>
               if streamRelation \<noteq> relation
               then Some (EMsg (WriterSite (StreamBelongsElsewhere streamName
                      (relation_String streamRelation) (relation_String relation))))
               else None)"

definition StorageWrite_NewWriter :: "('w, 'x) storage_lib \<Rightarrow> 'x StorageWrite \<Rightarrow> 'w bq_client option \<Rightarrow> Relation \<Rightarrow>
    gerr + ('w, 'x) StorageWriter" where
  "StorageWrite_NewWriter L w client relation =
     (case client of
        None \<Rightarrow> Inl (EMsg (WriterSite ClientIsNil))
      | Some c \<Rightarrow>
          guarded (validate_relation relation)
            (let relation = in_project (fst c) relation
             in guarded (map_option (EWrap (WriterSite InNewWriter)) (StorageWrite_Validate w))
                  (guarded (check_stream_name L (set_StreamName w) relation)
                    (Inr \<lparr>sw_relation = relation, sw_client = c, sw_streamName = set_StreamName w,
                       sw_streamType = set_StreamType w, sw_disableWriteRetries = set_DisableWriteRetries w,
                       sw_clientOptions = set_ClientOptions w, sw_writerOpts = set_WriterOptions w,
                       sw_schema = [], sw_descriptor = None, sw_mwClient = None, sw_stream = None, sw_closed = False\<rparr>))))"

section \<open>Opening the stream\<close>

definition writerOptions :: "('w, 'x) storage_lib \<Rightarrow> ('w, 'x) StorageWriter \<Rightarrow> 'x \<Rightarrow> 'x writer_option list" where
  "writerOptions L w descriptor =
     sw_writerOpts w
     @ (if sw_streamName w \<noteq> [] then [WithStreamName (sw_streamName w)]
        else [WithType (if sw_streamType w = NoStreamType then DefaultStream else sw_streamType w),
              WithDestinationTable (sl_TableParentFromParts L (ProjectID (sw_relation w))
                (DatasetID (sw_relation w)) (TableID (sw_relation w)))])
     @ [WithSchemaDescriptor descriptor]
     @ (if sw_disableWriteRetries w then [] else [EnableWriteRetries True])"

definition storage_closed :: gerr where
  "storage_closed = EWrap (WriterSite InStorageWriter) (ESentinel ErrWriterClosed)"

text \<open>The client and the stream, or the client closed again where there is no stream.\<close>

definition open_stream :: "('w, 'x) storage_lib \<Rightarrow> ('w, 'x) StorageWriter \<Rightarrow> 'x \<Rightarrow> 'w env \<Rightarrow> (gerr + 'x \<times> 'x) \<times> 'w env" where
  "open_stream L w normalized env =
     (case on_world (sl_NewClient L (ProjectID (sw_relation w)) (sw_clientOptions w)) env of
        (Inl e, env1) \<Rightarrow> (Inl (EWrap (WriterSite (OpenClient (ProjectID (sw_relation w)))) e), env1)
      | (Inr client, env1) \<Rightarrow>
          (case on_world (sl_NewManagedStream L client (writerOptions L w normalized)) env1 of
             (Inl e, env2) \<Rightarrow>
               (case on_world (sl_CloseClient L client) env2 of
                  (Some cerr, env3) \<Rightarrow> (Inl (EWrap (WriterSite (OpenStreamAndClose (relation_String (sw_relation w)))) e), env3)
                | (None, env3) \<Rightarrow> (Inl (EWrap (WriterSite (OpenStream (relation_String (sw_relation w)))) e), env3))
           | (Inr stream, env2) \<Rightarrow> (Inr (client, stream), log_add (OpenedStream (sl_StreamName L stream)) env2)))"

definition StorageWriter_BindSchema :: "('w, 'x) storage_lib \<Rightarrow> Schema \<Rightarrow> ('w, 'x) StorageWriter \<Rightarrow> 'w env \<Rightarrow>
    gerr option \<times> ('w, 'x) StorageWriter \<times> 'w env" where
  "StorageWriter_BindSchema L schema w env =
     (if schema = [] then (Some (EMsg (WriterSite NoColumnsInSchema)), w, env)
      else if sw_closed w then (Some storage_closed, w, env)
      else if sw_stream w \<noteq> None then (Some (EMsg (WriterSite SchemaAlreadyBound)), w, env)
      else case and_then (rowDescriptor L schema) (\<lambda>descriptor.
                  and_then (map_error (EWrap (WriterSite NormalizeDescriptor)) (sl_NormalizeDescriptor L descriptor)) (\<lambda>normalized.
                    Inr (descriptor, normalized))) of
             Inl e \<Rightarrow> (Some e, w, env)
           | Inr (descriptor, normalized) \<Rightarrow>
               (case open_stream L w normalized env of
                  (Inl e, env1) \<Rightarrow> (Some e, w, env1)
                | (Inr (client, stream), env1) \<Rightarrow>
                    (None, w\<lparr>sw_schema := schema, sw_descriptor := Some descriptor, sw_mwClient := Some client,
                             sw_stream := Some stream\<rparr>, env1)))"

section \<open>Appending\<close>

text \<open>\<open>storageResult\<close>, and what \<open>WriteRows\<close> returns for no rows.\<close>

datatype 'x storage_result = Resolved resolved | Pending 'x "Row list" string

definition marshalStorageWriteRow :: "('w, 'x) storage_lib \<Rightarrow> row_values \<Rightarrow> Schema \<Rightarrow> 'x \<Rightarrow> gerr + string" where
  "marshalStorageWriteRow L row schema descriptor =
     and_then (encodeStorageWriteRow (sl_json L) row schema) (\<lambda>text.
     and_then (map_error (EWrap (WriterSite FitRow)) (sl_Unmarshal L text descriptor)) (\<lambda>message.
       map_error (EWrap (WriterSite MarshalTheRow)) (sl_Marshal L message)))"

text \<open>A stream that is open has its descriptor set.\<close>

definition StorageWriter_WriteRows :: "('w, 'x) storage_lib \<Rightarrow> Row list \<Rightarrow> ('w, 'x) StorageWriter \<Rightarrow> 'w env \<Rightarrow>
    (gerr + 'x storage_result) \<times> 'w env" where
  "StorageWriter_WriteRows L rows w env =
     (if rows = [] then (Inr (Resolved (ResolvedResult 0 None)), env)
      else if sw_closed w then (Inl storage_closed, env)
      else case (sw_stream w, sw_descriptor w) of
             (Some stream, Some descriptor) \<Rightarrow>
               (case traverse (\<lambda>r. marshalStorageWriteRow L (row_Values r) (sw_schema w) descriptor) rows of
                  Inl e \<Rightarrow> (Inl e, env)
                | Inr rowData \<Rightarrow>
                    (case on_world (sl_AppendRows L stream rowData) env of
                       (Inl e, env1) \<Rightarrow> (Inl (EWrap (WriterSite (AppendRowsSite (length rows) (sl_StreamName L stream))) e), env1)
                     | (Inr result, env1) \<Rightarrow> (Inr (Pending result rows (sl_StreamName L stream)), env1)))
           | _ \<Rightarrow> (Inl (EMsg (WriterSite NoSchemaBound)), env))"

definition describe_row_error :: "Row list \<Rightarrow> rowError \<Rightarrow> string \<times> string \<times> string" where
  "describe_row_error rows rowErr =
     ((if 0 \<le> re_Index rowErr \<and> re_Index rowErr < int (length rows) then row_ID (rows ! nat (re_Index rowErr))
       else ''unknown row''), re_Code rowErr, re_Message rowErr)"

definition describeRowErrors :: "rowError list \<Rightarrow> Row list \<Rightarrow> (string \<times> string \<times> string) list" where
  "describeRowErrors rowErrors rows = map (describe_row_error rows) rowErrors"

fun storageResult_Wait :: "('w, 'x) storage_lib \<Rightarrow> 'x storage_result \<Rightarrow> 'w env \<Rightarrow> (int \<times> gerr option) \<times> 'w env" where
  "storageResult_Wait L (Resolved r) env = resolved_wait r env"
| "storageResult_Wait L (Pending result rows streamName) env =
     (case on_world (sl_FullResponse L result) env of
        ((rowErrors, Some e), env1) \<Rightarrow>
          ((0, Some (EWrap (WriterSite (RowsRejected (length rows) streamName (describeRowErrors rowErrors rows))) e)), env1)
      | ((rowErrors, None), env1) \<Rightarrow> ((int (length rows), None), log_add (AppendedRows (length rows)) env1))"

section \<open>Closing\<close>

text \<open>
  The two calls and what becomes of their errors; the client is there whenever the stream is.
\<close>

definition close_both :: "('w, 'x) storage_lib \<Rightarrow> 'x \<Rightarrow> 'x \<Rightarrow> 'w env \<Rightarrow> gerr option \<times> 'w env" where
  "close_both L stream client env =
     (let (serr, env1) = on_world (sl_CloseStream L stream) env;
          err = (case serr of
                   Some e \<Rightarrow> if is_EOF e then None else Some (EWrap (WriterSite CloseStream) e)
                 | None \<Rightarrow> None);
          (cerr, env2) = on_world (sl_CloseClient L client) env1
      in (case cerr of
            None \<Rightarrow> (err, env2)
          | Some e \<Rightarrow>
              if err = None then (Some (EWrap (WriterSite CloseClient) e), env2)
              else (err, log_add (CouldNotCloseClient e) env2)))"

definition StorageWriter_Close :: "('w, 'x) storage_lib \<Rightarrow> ('w, 'x) StorageWriter \<Rightarrow> 'w env \<Rightarrow>
    gerr option \<times> ('w, 'x) StorageWriter \<times> 'w env" where
  "StorageWriter_Close L w env =
     (if sw_closed w then (None, w, env)
      else (let w1 = w\<lparr>sw_closed := True\<rparr>
            in case (sw_stream w, sw_mwClient w) of
                 (Some stream, Some client) \<Rightarrow> (let (err, env1) = close_both L stream client env in (err, w1, env1))
               | _ \<Rightarrow> (None, w1, env)))"

end
