(* ===== verification/StorageRuns.thy ===== *)
theory StorageRuns
  imports StorageWrite
begin

text \<open>
  What the Storage Write API writer promises: where its rows go, that an append carries a whole
  batch or nothing, what a Sinker's nil error then means, that no connection is left open, and
  that closing hides no failure.
\<close>

section \<open>Where the rows go\<close>

text \<open>
  What the client library's documentation says of its options: a later one replaces an earlier
  one of its kind, and a stream name makes it ignore the stream type and the destination table.
\<close>

fun stream_name_of :: "'x writer_option \<Rightarrow> string option" where
  "stream_name_of (WithStreamName s) = Some s"
| "stream_name_of x = None"

fun table_of :: "'x writer_option \<Rightarrow> string option" where
  "table_of (WithDestinationTable t) = Some t"
| "table_of x = None"

fun descriptor_of :: "'x writer_option \<Rightarrow> 'x option" where
  "descriptor_of (WithSchemaDescriptor d) = Some d"
| "descriptor_of x = None"

fun retries_of :: "'x writer_option \<Rightarrow> bool option" where
  "retries_of (EnableWriteRetries b) = Some b"
| "retries_of x = None"

definition last_option :: "('x writer_option \<Rightarrow> 'a option) \<Rightarrow> 'x writer_option list \<Rightarrow> 'a option" where
  "last_option f opts = first_Some f (rev opts)"

definition destination_of :: "('w, 'x) storage_lib \<Rightarrow> 'x writer_option list \<Rightarrow> string option" where
  "destination_of L opts =
     (case last_option stream_name_of opts of
        Some s \<Rightarrow> Some (sl_TableParentFromStreamName L s)
      | None \<Rightarrow> last_option table_of opts)"

text \<open>\<open>TableParentFromParts\<close> writes the resource name its documentation gives.\<close>

definition parents_documented :: "('w, 'x) storage_lib \<Rightarrow> bool" where
  "parents_documented L \<longleftrightarrow> (\<forall>p d t. sl_TableParentFromParts L p d t = go_join ''/'' [''projects'', p, ''datasets'', d, ''tables'', t])"

definition table_parent :: "Relation \<Rightarrow> string" where
  "table_parent r = go_join ''/'' [''projects'', ProjectID r, ''datasets'', DatasetID r, ''tables'', TableID r]"

lemma last_option_append: "last_option f (xs @ ys) = (case last_option f ys of Some y \<Rightarrow> Some y | None \<Rightarrow> last_option f xs)"
proof -
  have "first_Some f (xs @ ys) = (case first_Some f xs of Some y \<Rightarrow> Some y | None \<Rightarrow> first_Some f ys)" for xs ys
    by (induction xs) (simp_all split: option.split)
  then show ?thesis unfolding last_option_def by simp
qed

lemma last_option_simps [simp]:
  "last_option f [] = None"
  "last_option f (x # xs) = (case last_option f xs of Some y \<Rightarrow> Some y | None \<Rightarrow> f x)"
  using last_option_append[of f "[x]" xs] by (simp_all add: last_option_def split: option.split)

lemma NewWriter_Inr:
  assumes "StorageWrite_NewWriter L settings client relation = Inr w"
  obtains c where "client = Some c" "validate_relation relation = None" "sw_relation w = in_project (fst c) relation"
    "StorageWrite_Validate settings = None" "check_stream_name L (set_StreamName settings) (sw_relation w) = None"
    "sw_streamName w = set_StreamName settings" "sw_streamType w = set_StreamType settings"
    "sw_disableWriteRetries w = set_DisableWriteRetries settings" "sw_writerOpts w = set_WriterOptions settings"
    "sw_client w = c" "sw_stream w = None" "sw_mwClient w = None" "sw_descriptor w = None" "\<not> sw_closed w"
proof (cases client)
  case None
  with assms show ?thesis by (simp add: StorageWrite_NewWriter_def)
next
  case (Some c)
  with assms show ?thesis
    by (intro that[of c]) (simp_all add: StorageWrite_NewWriter_def guarded_Inr Let_def, auto)
qed

lemma check_stream_name_None:
  assumes "check_stream_name L s r = None" and "s \<noteq> []"
  shows "sl_TableParentFromStreamName L s = table_parent r"
proof -
  from assms have parsed: "parseTableParent (sl_TableParentFromStreamName L s) = Inr r"
    by (simp add: check_stream_name_def split: sum.splits if_splits)
  have "go_join ''/'' (go_split CHR ''/'' (sl_TableParentFromStreamName L s)) = sl_TableParentFromStreamName L s"
    by (rule go_join_split)
  then show ?thesis using parsed[unfolded parseTableParent_Inr] by (simp add: table_parent_def)
qed

text \<open>
  C15: where the rows go. Whatever options the caller adds, the stream is opened with the
  declared schema's descriptor and, unless they are turned off, with retries, and its table is
  the one the writer names as its relation; the one exception is a stream name among the
  caller's options, which the settings leave standing when they name no stream themselves.
\<close>

theorem stream_is_the_relations:
  assumes "StorageWrite_NewWriter L settings client relation = Inr w" and "parents_documented L"
  shows "destination_of L (writerOptions L w d) =
      Some (if set_StreamName settings \<noteq> [] then table_parent (sw_relation w)
            else case last_option stream_name_of (set_WriterOptions settings) of
                   Some s \<Rightarrow> sl_TableParentFromStreamName L s
                 | None \<Rightarrow> table_parent (sw_relation w))
    \<and> last_option descriptor_of (writerOptions L w d) = Some d
    \<and> (\<not> set_DisableWriteRetries settings \<longrightarrow> last_option retries_of (writerOptions L w d) = Some True)
    \<and> validate_relation (sw_relation w) = None"
  using assms(1)
proof (rule NewWriter_Inr)
  fix c
  assume valid: "validate_relation relation = None" "sw_relation w = in_project (fst c) relation"
    and name: "check_stream_name L (set_StreamName settings) (sw_relation w) = None"
    and eqs: "sw_streamName w = set_StreamName settings" "sw_disableWriteRetries w = set_DisableWriteRetries settings"
      "sw_writerOpts w = set_WriterOptions settings"
  have "validate_relation (sw_relation w) = None"
    using valid by (simp add: validate_relation_def in_project_def split: if_splits)
  moreover have "sl_TableParentFromParts L (ProjectID (sw_relation w)) (DatasetID (sw_relation w)) (TableID (sw_relation w))
      = table_parent (sw_relation w)"
    unfolding table_parent_def using assms(2) by (simp only: parents_documented_def)
  moreover note check_stream_name_None[OF name]
  ultimately show ?thesis
    by (cases "set_StreamName settings = []"; cases "set_DisableWriteRetries settings")
      (simp_all add: writerOptions_def eqs destination_of_def last_option_append split: option.split)
qed

section \<open>One append for one batch\<close>

text \<open>
  \<open>appended\<close>: the batch was handed to the stream in one request, a payload for each row in
  order, made from the row under the schema and the descriptor of the stream.
\<close>

definition appended :: "('w, 'x) storage_lib \<Rightarrow> ('w, 'x) StorageWriter \<Rightarrow> Row list \<Rightarrow> 'x \<Rightarrow> 'w env \<Rightarrow> 'w env \<Rightarrow> bool" where
  "appended L w rows result env env' \<longleftrightarrow>
     (\<exists>stream descriptor payloads. sw_stream w = Some stream \<and> sw_descriptor w = Some descriptor
        \<and> list_all2 (\<lambda>r p. marshalStorageWriteRow L (row_Values r) (sw_schema w) descriptor = Inr p) rows payloads
        \<and> on_world (sl_AppendRows L stream payloads) env = (Inr result, env'))"

lemma WriteRows_cases:
  assumes "StorageWriter_WriteRows L rows w env = (r, env')"
  obtains (empty) "rows = []" "r = Inr (Resolved (ResolvedResult 0 None))" "env' = env"
    | (refused) e where "rows \<noteq> []" "r = Inl e" "env' = env"
        "sw_closed w \<or> sw_stream w = None \<or> sw_descriptor w = None \<or>
          (\<exists>row\<in>set rows. \<exists>d. sw_descriptor w = Some d \<and> marshalStorageWriteRow L (row_Values row) (sw_schema w) d = Inl e)"
    | (rejected) e stream payloads where "rows \<noteq> []" "\<not> sw_closed w" "sw_stream w = Some stream"
        "on_world (sl_AppendRows L stream payloads) env = (Inl e, env')"
        "r = Inl (EWrap (WriterSite (AppendRowsSite (length rows) (sl_StreamName L stream))) e)"
    | (sent) result name where "rows \<noteq> []" "\<not> sw_closed w" "r = Inr (Pending result rows name)" "appended L w rows result env env'"
proof (cases "rows = [] \<or> sw_closed w \<or> sw_stream w = None \<or> sw_descriptor w = None")
  case True
  show ?thesis
  proof (cases "rows = []")
    case True
    with assms empty show ?thesis by (simp add: StorageWriter_WriteRows_def)
  next
    case False
    with assms True have "r = Inl (if sw_closed w then storage_closed else EMsg (WriterSite NoSchemaBound)) \<and> env' = env"
      by (auto simp: StorageWriter_WriteRows_def split: option.splits)
    with True False show ?thesis by (intro refused) auto
  qed
next
  case False
  then obtain stream d where open_: "sw_stream w = Some stream" "sw_descriptor w = Some d" and ne: "rows \<noteq> []" "\<not> sw_closed w"
    by auto
  let ?m = "\<lambda>r. marshalStorageWriteRow L (row_Values r) (sw_schema w) d"
  show ?thesis
  proof (cases "traverse ?m rows")
    case (Inl e)
    with assms open_ ne have "r = Inl e" "env' = env" by (simp_all add: StorageWriter_WriteRows_def)
    moreover from Inl have "\<exists>row\<in>set rows. ?m row = Inl e" by (rule traverse_error)
    ultimately show ?thesis using ne open_ by (intro refused[of e]) auto
  next
    case (Inr payloads)
    obtain x env1 where x: "on_world (sl_AppendRows L stream payloads) env = (x, env1)" by force
    show ?thesis
    proof (cases x)
      case (Inl e)
      with assms open_ ne Inr x show ?thesis
        by (intro rejected[of stream payloads e]) (simp_all add: StorageWriter_WriteRows_def)
    next
      case (Inr result)
      from \<open>traverse ?m rows = Inr payloads\<close>
      have "list_all2 (\<lambda>r p. ?m r = Inr p) rows payloads" by (simp add: traverse_Inr_iff)
      with assms open_ ne Inr x \<open>traverse ?m rows = Inr payloads\<close> show ?thesis
        by (intro sent[of result "sl_StreamName L stream"]) (auto simp: StorageWriter_WriteRows_def appended_def)
    qed
  qed
qed

text \<open>
  What \<open>Wait\<close> tells of a pending append, by the response: all of its rows, or none with the
  error of the response and an entry for each row error, in order. An entry repeats the code and
  the message, and names the row by the ID of the one that stands at the error's index in the
  batch, or says that it does not know the row where the batch has no such index.
\<close>

definition names_row :: "Row list \<Rightarrow> rowError \<Rightarrow> string \<times> string \<times> string \<Rightarrow> bool" where
  "names_row rows rowErr entry \<longleftrightarrow>
     snd entry = (re_Code rowErr, re_Message rowErr)
     \<and> (\<forall>i<length rows. re_Index rowErr = int i \<longrightarrow> fst entry = row_ID (rows ! i))
     \<and> (re_Index rowErr < 0 \<or> int (length rows) \<le> re_Index rowErr \<longrightarrow> fst entry = ''unknown row'')"

definition honest_wait :: "('w, 'x) storage_lib \<Rightarrow> 'x \<Rightarrow> Row list \<Rightarrow> string \<Rightarrow> 'w env \<Rightarrow> bool" where
  "honest_wait L result rows name env \<longleftrightarrow>
     (case storageResult_Wait L (Pending result rows name) env of
        ((n, None), env3) \<Rightarrow> n = int (length rows) \<and> snd (fst (sl_FullResponse L result (world env))) = None
      | ((n, Some err), env3) \<Rightarrow> n = 0 \<and> (\<exists>e named. snd (fst (sl_FullResponse L result (world env))) = Some e
          \<and> err = EWrap (WriterSite (RowsRejected (length rows) name named)) e
          \<and> list_all2 (names_row rows) (fst (fst (sl_FullResponse L result (world env)))) named))"

lemma describes_rows: "list_all2 (names_row rows) rowErrors (describeRowErrors rowErrors rows)"
  by (auto simp: describeRowErrors_def list_all2_map2 describe_row_error_def names_row_def intro!: list_all2_refl)

lemma waits_honestly: "honest_wait L result rows name env"
proof -
  obtain rowErrors err w1 where response: "sl_FullResponse L result (world env) = ((rowErrors, err), w1)"
    by (cases "sl_FullResponse L result (world env)") (auto simp del: split_paired_Ex)
  with describes_rows[of rows rowErrors] show ?thesis
    by (cases err) (simp_all add: honest_wait_def on_world_def)
qed

text \<open>
  C13: an append is all or nothing. A batch is refused without being sent, or by the client
  library, or it goes out in one request with a payload for each of its rows; then \<open>Wait\<close>
  counts all of the rows or none, following the response, and names each malformed row by the ID
  of the row at the index the response gives.
\<close>

theorem append_is_all_or_nothing:
  assumes "StorageWriter_WriteRows L rows w env = (r, env1)"
  shows "case r of
      Inl e \<Rightarrow> env1 = env \<or> (\<exists>stream payloads e'. sw_stream w = Some stream \<and> e = EWrap (WriterSite (AppendRowsSite (length rows) (sl_StreamName L stream))) e'
        \<and> on_world (sl_AppendRows L stream payloads) env = (Inl e', env1))
    | Inr (Resolved x) \<Rightarrow> rows = [] \<and> x = (0, None) \<and> env1 = env
    | Inr (Pending result held name) \<Rightarrow> held = rows \<and> \<not> sw_closed w \<and> appended L w rows result env env1
        \<and> (\<forall>env2. honest_wait L result held name env2)"
  using assms
proof (cases rule: WriteRows_cases)
  case (rejected e stream payloads)
  then show ?thesis by auto
next
  case (sent result name)
  have "\<forall>env2. honest_wait L result rows name env2" by (blast intro: waits_honestly)
  with sent show ?thesis by simp
qed (simp_all add: ResolvedResult_def)

section \<open>The writer's promise to a Sinker\<close>

definition storage_write :: "('w, 'x) storage_lib \<Rightarrow> Row list \<Rightarrow> ('w, 'x) StorageWriter \<times> 'w env \<Rightarrow>
    (gerr + 'x storage_result option) \<times> ('w, 'x) StorageWriter \<times> 'w env" where
  "storage_write L rows ws =
     (let (r, e) = StorageWriter_WriteRows L rows (fst ws) (snd ws) in (and_then r (\<lambda>x. Inr (Some x)), fst ws, e))"

definition storage_wait :: "('w, 'x) storage_lib \<Rightarrow> 'x storage_result \<Rightarrow> ('w, 'x) StorageWriter \<times> 'w env \<Rightarrow>
    (int \<times> gerr option) \<times> ('w, 'x) StorageWriter \<times> 'w env" where
  "storage_wait L r ws = (let (x, e) = storageResult_Wait L r (snd ws) in (x, fst ws, e))"

fun storage_for :: "'x storage_result \<Rightarrow> nat \<Rightarrow> bool" where
  "storage_for (Resolved r) n \<longleftrightarrow> resolved_for r n"
| "storage_for (Pending result rows name) n \<longleftrightarrow> length rows = n"

interpretation storage: rows_writer "storage_write L" "storage_wait L" storage_for for L
proof unfold_locales
  show "fst (storage_write L rows s) \<noteq> Inr None" for rows s
    by (simp add: storage_write_def and_then_Inr case_prod_beta Let_def)
next
  fix rows s r s'
  assume "storage_write L rows s = (Inr (Some r), s')"
  moreover obtain x e where x: "StorageWriter_WriteRows L rows (fst s) (snd s) = (x, e)" by force
  ultimately have "x = Inr r" by (cases x) (simp_all add: storage_write_def)
  from x show "storage_for r (length rows)"
    by (cases rule: WriteRows_cases) (use \<open>x = Inr r\<close> in \<open>simp_all add: ResolvedResult_def resolved_for_def\<close>)
next
  fix r :: "'b storage_result" and n s k err
  assume promise: "storage_for r n" and wait: "fst (storage_wait L r s) = (k, err)"
  show "0 \<le> k \<and> k \<le> int n \<and> (k = int n \<or> err \<noteq> None)"
  proof (cases r)
    case (Resolved x)
    with promise wait show ?thesis by (auto simp: storage_wait_def resolved_for_def)
  next
    case (Pending result rows name)
    with promise wait waits_honestly[of L result rows name "snd s"] show ?thesis
      by (auto simp: honest_wait_def storage_wait_def case_prod_beta Let_def split: option.splits)
  qed
qed

text \<open>What the interface promises, for both transports.\<close>

lemma storage_counts_all:
  "storage_write L rows s = (Inr (Some r), s1) \<Longrightarrow> storage_wait L r s2 = ((k, None), s3) \<Longrightarrow> k = int (length rows)"
  by (rule storage.nil_error_counts_all)

lemma load_jobs_count_all:
  fixes ws ws2 ws3 :: "LoadJobsWriter \<times> 's"
  shows "load_jobs_write ld rows ws = (Inr (Some r), ws1) \<Longrightarrow> resolved_wait r ws2 = ((k, None), ws3) \<Longrightarrow> k = int (length rows)"
  using load_jobs.nil_error_counts_all[of ld rows ws r ws1 ws2 k] by simp

section \<open>A Sinker over the Storage Write API\<close>

definition Storage_RowsWriter :: "('v, 'x) storage_lib \<Rightarrow> Relation \<Rightarrow> (Relation \<Rightarrow> 'v tableAPI) \<Rightarrow>
    (('v, 'x) StorageWriter \<times> 'v, 'x storage_result) RowsWriter" where
  "Storage_RowsWriter L relation client =
     \<lparr>rw_Relation = relation,
      rw_Client = Some (\<lambda>r. outside_table (client r)),
      rw_BindSchema = (\<lambda>schema env.
        let (w, e) = inner env; (err, ws) = StorageWriter_BindSchema L schema w e in (err, outer ws)),
      rw_WriteRows = (\<lambda>rows env. let (r, ws) = storage_write L rows (inner env) in (r, outer ws)),
      rw_Wait = (\<lambda>r env. let (x, ws) = storage_wait L r (inner env) in (x, outer ws)),
      rw_BindLogger = Some (\<lambda>l env. env)\<rparr>"

text \<open>The writer holds the declared schema once \<open>start\<close> has succeeded.\<close>

definition storage_in_step :: "('v, 'x) storage_lib \<Rightarrow> Relation \<Rightarrow> (Relation \<Rightarrow> 'v tableAPI) \<Rightarrow>
    (('v, 'x) StorageWriter \<times> 'v, 'x storage_result, 'p) Sinker \<Rightarrow> (('v, 'x) StorageWriter \<times> 'v) env \<Rightarrow> bool" where
  "storage_in_step L relation client s env \<longleftrightarrow>
     sk_writer s = Storage_RowsWriter L relation client
     \<and> (sk_api s = None \<or> sk_api s = Some (outside_table (client relation)))
     \<and> (sk_startErr s = Some None \<longrightarrow> sw_schema (fst (world env)) = sk_schema s)"

lemma storage_BindSchema_None:
  assumes "StorageWriter_BindSchema L schema w env = (None, w', env')"
  shows "sw_schema w' = schema"
  using assms by (auto simp: StorageWriter_BindSchema_def split: if_splits sum.splits prod.splits)

lemma start_storage:
  assumes "storage_in_step L relation client s env" and "acts_through_calls invoke"
    and "start invoke s env = (err, s1, env1)"
  shows "storage_in_step L relation client s1 env1" and "err = None \<Longrightarrow> sw_schema (fst (world env1)) = sk_schema s"
    and "sk_rowType s1 = sk_rowType s" and "sk_schema s1 = sk_schema s"
proof -
  have writer: "sk_writer s = Storage_RowsWriter L relation client"
    and api: "sk_api s = None \<or> (\<exists>A. sk_api s = Some (outside_table A))"
    using assms(1) by (auto simp: storage_in_step_def)
  have "storage_in_step L relation client s1 env1 \<and> (err = None \<longrightarrow> sw_schema (fst (world env1)) = sk_schema s)
      \<and> sk_rowType s1 = sk_rowType s \<and> sk_schema s1 = sk_schema s"
  proof (cases "sk_startErr s")
    case (Some cached)
    with assms(3) have eqs: "err = cached" "s1 = s" "env1 = env" by (simp_all add: start_def)
    with assms(1) Some show ?thesis by (simp add: storage_in_step_def)
  next
    case None
    obtain e env2 where once: "start_once invoke s env = (e, env2)" by force
    have "start invoke s env = (e, s\<lparr>sk_startErr := Some e\<rparr>, env2)" by (simp add: start_def None once)
    with assms(3) have eqs: "e = err" "env2 = env1" and s1: "s1 = s\<lparr>sk_startErr := Some err\<rparr>" by auto
    have "err = None \<longrightarrow> sw_schema (fst (world env1)) = sk_schema s"
      using api assms(2) once[unfolded eqs]
    proof (cases rule: start_once_cases)
      case (bound env0)
      obtain be w' e' where bind: "StorageWriter_BindSchema L (sk_schema s) (fst (inner env0)) (snd (inner env0)) = (be, w', e')"
        by (cases "StorageWriter_BindSchema L (sk_schema s) (fst (inner env0)) (snd (inner env0))")
      with bound(2) writer have "be = err" "env1 = outer (w', e')"
        by (simp_all add: Storage_RowsWriter_def case_prod_beta Let_def)
      with storage_BindSchema_None[of L "sk_schema s" "fst (inner env0)" "snd (inner env0)" w' e'] bind
      show ?thesis by (simp add: fst_outer)
    qed simp
    with assms(1) show ?thesis by (simp add: s1 storage_in_step_def)
  qed
  then show "storage_in_step L relation client s1 env1" "err = None \<Longrightarrow> sw_schema (fst (world env1)) = sk_schema s"
    "sk_rowType s1 = sk_rowType s" "sk_schema s1 = sk_schema s" by simp_all
qed

lemma new_storage:
  assumes "NewSinker R d (Some (Storage_RowsWriter L relation client)) decl opts env = (Inr s, env')"
  shows "storage_in_step L relation client s env'"
  using assms
proof (rule NewSinker_Inr)
  fix writer rt c i t
  assume checks: "check_new (Some (Storage_RowsWriter L relation client)) decl opts = Inr (writer, rt, c)"
    and s: "s = new_Sinker d writer decl rt c i t"
  from check_new_Inr(1)[OF checks] have "writer = Storage_RowsWriter L relation client" by simp
  then show ?thesis unfolding s by (simp add: storage_in_step_def Storage_RowsWriter_def)
qed

lemma storage_moves:
  assumes "storage_in_step L relation client s env" and "sw_schema (fst (world env')) = sw_schema (fst (world env))"
  shows "storage_in_step L relation client s env'"
  using assms by (simp add: storage_in_step_def)

lemma send_rows_storage:
  assumes "storage_in_step L relation client s env" and "leaves_writer R"
  shows "storage_in_step L relation client s (snd (send_rows G R s vs env))"
proof -
  obtain prepared env1 where p: "prepare_all G R s vs env = (prepared, env1)" by force
  with prepare_all_leaves[OF assms(2), of G s vs env] have left: "fst (world env1) = fst (world env)" by simp
  have "fst (world (snd (send_rows G R s vs env))) = fst (world env)"
  proof (cases prepared)
    case (Inl e)
    with p left show ?thesis by (simp add: send_rows_def)
  next
    case (Inr out)
    obtain r e where w: "StorageWriter_WriteRows L out (fst (inner env1)) (snd (inner env1)) = (r, e)" by (rule prod.exhaust)
    have "sk_writer s = Storage_RowsWriter L relation client" using assms(1) by (simp add: storage_in_step_def)
    with p Inr w have "snd (send_rows G R s vs env) = outer (fst (inner env1), e)"
      by (cases r) (simp_all add: send_rows_def Storage_RowsWriter_def storage_write_def)
    with left show ?thesis by (simp add: fst_outer fst_inner)
  qed
  then show ?thesis by (intro storage_moves[OF assms(1)]) simp
qed

lemma send_storage:
  assumes "storage_in_step L relation client s env" and "leaves_writer R" and "acts_through_calls invoke"
    and "send invoke G R rows s env = (x, s', env')"
  shows "storage_in_step L relation client s' env'"
proof (cases "batch_of (ge_types G) (sk_rowType s) rows")
  case (Inl e)
  with assms(1,4) show ?thesis by (simp add: send_def)
next
  case (Inr vs)
  show ?thesis
  proof (cases vs)
    case Nil
    with assms(1,4) Inr show ?thesis by (simp add: send_def)
  next
    case (Cons v vs')
    obtain err s1 env1 where started: "start invoke s env = (err, s1, env1)" by (cases "start invoke s env")
    note step = start_storage(1)[OF assms(1,3) started]
    obtain y env2 where y: "send_rows G R s1 vs env1 = (y, env2)" by force
    with send_rows_storage[OF step assms(2), of G vs] have step2: "storage_in_step L relation client s1 env2" by simp
    have "send invoke G R rows s env = (case err of Some e \<Rightarrow> (Inl e, s1, env1) | None \<Rightarrow> (y, s1, env2))"
      using Inr Cons started y by (cases err) (simp_all add: send_def)
    with assms(4) step step2 show ?thesis by (cases err) simp_all
  qed
qed

lemma wait_storage:
  "sk_writer s = Storage_RowsWriter L relation client \<Longrightarrow> fst (world (snd (sent_Wait (sk_writer s) r env))) = fst (world env)"
  by (cases r) (simp_all add: Storage_RowsWriter_def storage_wait_def case_prod_beta Let_def fst_outer fst_inner)

lemma Sink_storage:
  assumes "storage_in_step L relation client s env" and "leaves_writer R" and "acts_through_calls invoke"
    and "Sink invoke G R rows s env = (r, s', env')"
  shows "storage_in_step L relation client s' env'"
proof -
  obtain x s1 env1 where sent: "send invoke G R rows s env = (x, s1, env1)" by (cases "send invoke G R rows s env")
  note step = send_storage[OF assms(1-3) sent]
  then have writer: "sk_writer s1 = Storage_RowsWriter L relation client" by (simp add: storage_in_step_def)
  show ?thesis
  proof (cases x)
    case (Inl e)
    have "Sink invoke G R rows s env = ((0, Some e), s1, env1)" by (simp add: Sink_def sent Inl)
    with assms(4) step show ?thesis by simp
  next
    case (Inr rm)
    obtain res m where rm: "rm = (res, m)" by (cases rm)
    have "snd (Sink invoke G R rows s env) = (s1, snd (sent_Wait (sk_writer s1) res env1))"
      by (simp add: Sink_def sent Inr rm case_prod_beta Let_def)
    with assms(4) have "s' = s1" "env' = snd (sent_Wait (sk_writer s1) res env1)" by simp_all
    then show ?thesis using storage_moves[OF step] wait_storage[OF writer] by simp
  qed
qed

text \<open>
  The calls of an application: \<open>Sink\<close>, \<open>SinkAsync\<close> and \<open>Start\<close> of the Sinker, \<open>Wait\<close> on any
  result, and \<open>Close\<close> of the writer it holds itself, in any order and number.
\<close>

inductive sunk :: "(nat \<times> gerr option \<times> (('v, 'x) StorageWriter \<times> 'v) env, 'q) invoker \<Rightarrow> go_env \<Rightarrow>
    (('v, 'x) StorageWriter \<times> 'v) runtime \<Rightarrow> ('v, 'x) storage_lib \<Rightarrow>
    (('v, 'x) StorageWriter \<times> 'v, 'x storage_result, 'q retry_method \<times> 'q) Sinker \<Rightarrow> (('v, 'x) StorageWriter \<times> 'v) env \<Rightarrow>
    (('v, 'x) StorageWriter \<times> 'v, 'x storage_result, 'q retry_method \<times> 'q) Sinker \<Rightarrow> (('v, 'x) StorageWriter \<times> 'v) env \<Rightarrow> bool"
  for invoke G R L s0 env0 where
  sunk_new: "sunk invoke G R L s0 env0 s0 env0"
| sunk_Sink: "sunk invoke G R L s0 env0 s env \<Longrightarrow> Sink invoke G R rows s env = (r, s', env') \<Longrightarrow>
    sunk invoke G R L s0 env0 s' env'"
| sunk_SinkAsync: "sunk invoke G R L s0 env0 s env \<Longrightarrow> SinkAsync invoke G R rows s env = (x, s', env') \<Longrightarrow>
    sunk invoke G R L s0 env0 s' env'"
| sunk_Start: "sunk invoke G R L s0 env0 s env \<Longrightarrow> Start invoke s env = (err, s', env') \<Longrightarrow> sunk invoke G R L s0 env0 s' env'"
| sunk_Wait: "sunk invoke G R L s0 env0 s env \<Longrightarrow> sent_Wait (sk_writer s) r env = (n, env') \<Longrightarrow> sunk invoke G R L s0 env0 s env'"
| sunk_Close: "sunk invoke G R L s0 env0 s env \<Longrightarrow> StorageWriter_Close L (fst (inner env)) (snd (inner env)) = (c, ws) \<Longrightarrow>
    sunk invoke G R L s0 env0 s (outer ws)"

lemma Close_schema: "sw_schema (fst (snd (StorageWriter_Close L w e))) = sw_schema w"
  by (simp add: StorageWriter_Close_def Let_def case_prod_beta split: option.split)

lemma sunk_storage:
  assumes "sunk invoke G R L s0 env0 s env" and "storage_in_step L relation client s0 env0"
    and "leaves_writer R" and "acts_through_calls invoke"
  shows "storage_in_step L relation client s env"
  using assms(1)
proof (induction rule: sunk.induct)
  case sunk_new
  show ?case by (rule assms(2))
next
  case (sunk_Sink s env rows r s' env')
  show ?case by (rule Sink_storage[OF sunk_Sink.IH assms(3,4) sunk_Sink(2)])
next
  case (sunk_SinkAsync s env rows x s' env')
  obtain y s1 env1 where sent: "send invoke G R rows s env = (y, s1, env1)" by (cases "send invoke G R rows s env")
  have "SinkAsync invoke G R rows s env = (and_then y (\<lambda>(result, sent). Inr result), s1, env1)"
    by (simp add: SinkAsync_def sent)
  with sunk_SinkAsync(2) send_storage[OF sunk_SinkAsync.IH assms(3,4) sent] show ?case by simp
next
  case (sunk_Start s env err s' env')
  show ?case by (rule start_storage(1)[OF sunk_Start.IH assms(4) sunk_Start(2)[unfolded Start_def]])
next
  case (sunk_Wait s env r n env')
  then have "sk_writer s = Storage_RowsWriter L relation client" by (simp add: storage_in_step_def)
  from wait_storage[OF this, of r env] sunk_Wait(2) show ?case by (intro storage_moves[OF sunk_Wait.IH]) simp
next
  case (sunk_Close s env c ws)
  with Close_schema[of L "fst (inner env)" "snd (inner env)"] show ?case
    by (intro storage_moves[OF sunk_Close.IH]) (simp add: fst_outer fst_inner)
qed

lemma start_schema: "start invoke s env = (err, s1, env1) \<Longrightarrow> sk_schema s1 = sk_schema s"
  by (auto simp: start_def case_prod_beta Let_def split: option.splits)

lemma send_schema:
  assumes "send invoke G R rows s env = (x, s', env')"
  shows "sk_schema s' = sk_schema s"
proof -
  obtain err s1 env1 where started: "start invoke s env = (err, s1, env1)" by (cases "start invoke s env")
  obtain y env2 where y: "send_rows G R s1 (projr (batch_of (ge_types G) (sk_rowType s) rows)) env1 = (y, env2)" by force
  have "s' = s \<or> s' = s1"
    using assms started y
    by (cases "batch_of (ge_types G) (sk_rowType s) rows"; cases "projr (batch_of (ge_types G) (sk_rowType s) rows)"; cases err)
      (simp_all add: send_def)
  with start_schema[OF started] show ?thesis by auto
qed

lemma sunk_schema:
  assumes "sunk invoke G R L s0 env0 s env"
  shows "sk_schema s = sk_schema s0"
  using assms
proof (induction rule: sunk.induct)
  case (sunk_Sink s env rows r s' env')
  obtain y s1 env1 where sent: "send invoke G R rows s env = (y, s1, env1)" by (cases "send invoke G R rows s env")
  have "fst (snd (Sink invoke G R rows s env)) = s1"
    by (cases y) (simp_all add: Sink_def sent case_prod_beta Let_def)
  with sunk_Sink send_schema[OF sent] show ?case by simp
next
  case (sunk_SinkAsync s env rows x s' env')
  obtain y s1 env1 where sent: "send invoke G R rows s env = (y, s1, env1)" by (cases "send invoke G R rows s env")
  have "fst (snd (SinkAsync invoke G R rows s env)) = s1" by (simp add: SinkAsync_def sent)
  with sunk_SinkAsync send_schema[OF sent] show ?case by simp
next
  case (sunk_Start s env err s' env')
  with start_schema[of invoke s env err s' env'] show ?case by (simp add: Start_def)
qed simp_all

lemma new_schema:
  assumes "NewSinker R d w decl opts env = (Inr s, env')"
  shows "sk_schema s = decl_schema decl"
  using assms by (rule NewSinker_Inr) simp

text \<open>
  C4: what a nil error means through the Storage Write API. Whatever calls were made before on
  the Sinker, on the results it gave and on its writer: when \<open>Sink\<close> returns a nil error for a
  batch with rows, exactly the rows the batch was converted to went out in one append, rendered
  under the declared schema, BigQuery's response to that append carried no error, and the count
  is theirs.
\<close>

theorem Sink_means_appended:
  assumes "NewSinker R d (Some (Storage_RowsWriter L relation client)) decl opts env00 = (Inr s0, env0)"
    and "leaves_writer R" and "acts_through_calls invoke" and "sunk invoke G R L s0 env0 s env"
    and "Sink invoke G R rows s env = ((n, None), s', env')" and "n \<noteq> 0"
  shows "\<exists>vs out result env1 env2 e. batch_of (ge_types G) (sk_rowType s) rows = Inr vs
    \<and> prepare_all G R s' vs env1 = (Inr out, env2) \<and> n = int (length out)
    \<and> appended L (fst (world env2)) out result (snd (inner env2)) e
    \<and> sw_schema (fst (world env2)) = decl_schema decl
    \<and> snd (fst (sl_FullResponse L result (world e))) = None"
  using assms(5,6)
proof (rule Sink_nil_error)
  fix vs env1 out env2 r env3
  assume batch: "batch_of (ge_types G) (sk_rowType s) rows = Inr vs" and start: "start invoke s env = (None, s', env1)"
    and out: "prepare_all G R s' vs env1 = (Inr out, env2)" "out \<noteq> []" "n = int (length out)"
    and put: "rw_WriteRows (sk_writer s') out env2 = (Inr (Some r), env3)" "rw_Wait (sk_writer s') r env3 = ((n, None), env')"
  note step = sunk_storage[OF assms(4) new_storage[OF assms(1)] assms(2,3)]
  note started = start_storage[OF step assms(3) start]
  then have writer: "sk_writer s' = Storage_RowsWriter L relation client" by (simp add: storage_in_step_def)
  have fst2: "fst (world env2) = fst (world env1)"
    using prepare_all_leaves[OF assms(2), of G s' vs env1] out(1) by simp
  let ?w = "fst (world env2)"
  obtain y e where y: "StorageWriter_WriteRows L out ?w (snd (inner env2)) = (y, e)" by (rule prod.exhaust)
  with put(1) writer have "y = Inr r" and env3: "env3 = outer (?w, e)"
    by (cases y; simp add: Storage_RowsWriter_def storage_write_def fst_inner)+
  from y obtain result name where r: "r = Pending result out name" and app: "appended L ?w out result (snd (inner env2)) e"
    by (cases rule: WriteRows_cases) (use \<open>y = Inr r\<close> out(2) in simp_all)
  obtain k err e4 where waited: "storageResult_Wait L (Pending result out name) e = ((k, err), e4)"
    by (metis surj_pair)
  with put(2) have nil: "err = None" "env' = outer (?w, e4)"
    by (simp_all add: writer r Storage_RowsWriter_def storage_wait_def env3)
  have "snd (fst (sl_FullResponse L result (world e))) = None"
    using waits_honestly[of L result out name e] waited nil(1) by (simp add: honest_wait_def)
  moreover have "sw_schema ?w = decl_schema decl"
    using started(2) fst2 sunk_schema[OF assms(4)] new_schema[OF assms(1)] by simp
  ultimately show ?thesis
    using batch out app
    by (intro exI[of _ vs] exI[of _ out] exI[of _ result] exI[of _ env1] exI[of _ env2] exI[of _ e]) simp
qed

section \<open>Connections\<close>

text \<open>
  \<open>conns\<close> gives the clients of the writer that were opened and not closed: \<open>NewClient\<close> opens
  one, \<open>Close\<close> ends it, whatever it reports, and nothing else opens or closes any.
\<close>

definition connections :: "('w, 'x) storage_lib \<Rightarrow> ('w \<Rightarrow> 'x set) \<Rightarrow> bool" where
  "connections L conns \<longleftrightarrow>
     (\<forall>p os w. conns (snd (sl_NewClient L p os w))
        = (case fst (sl_NewClient L p os w) of Inl e \<Rightarrow> conns w | Inr c \<Rightarrow> insert c (conns w)))
     \<and> (\<forall>c os w. conns (snd (sl_NewManagedStream L c os w)) = conns w)
     \<and> (\<forall>s ps w. conns (snd (sl_AppendRows L s ps w)) = conns w)
     \<and> (\<forall>r w. conns (snd (sl_FullResponse L r w)) = conns w)
     \<and> (\<forall>s w. conns (snd (sl_CloseStream L s w)) = conns w)
     \<and> (\<forall>c w. conns (snd (sl_CloseClient L c w)) = conns w - {c})"

text \<open>
  The calls of the writer's operations, one after another, in any order and number; and what
  else happens to the world.
\<close>

inductive storage_calls :: "('w, 'x) storage_lib \<Rightarrow> ('w \<Rightarrow> 'x set) \<Rightarrow> ('w, 'x) StorageWriter \<Rightarrow> 'w env \<Rightarrow>
    ('w, 'x) StorageWriter \<Rightarrow> 'w env \<Rightarrow> bool" for L conns w0 e0 where
  calls_new: "storage_calls L conns w0 e0 w0 e0"
| calls_BindSchema: "storage_calls L conns w0 e0 w e \<Longrightarrow> StorageWriter_BindSchema L schema w e = (err, w', e') \<Longrightarrow>
    storage_calls L conns w0 e0 w' e'"
| calls_WriteRows: "storage_calls L conns w0 e0 w e \<Longrightarrow> StorageWriter_WriteRows L rows w e = (r, e') \<Longrightarrow>
    storage_calls L conns w0 e0 w e'"
| calls_Wait: "storage_calls L conns w0 e0 w e \<Longrightarrow> storageResult_Wait L r e = (x, e') \<Longrightarrow> storage_calls L conns w0 e0 w e'"
| calls_Close: "storage_calls L conns w0 e0 w e \<Longrightarrow> StorageWriter_Close L w e = (err, w', e') \<Longrightarrow>
    storage_calls L conns w0 e0 w' e'"
| elsewhere: "storage_calls L conns w0 e0 w e \<Longrightarrow> conns (world e') = conns (world e) \<Longrightarrow> storage_calls L conns w0 e0 w e'"

definition connected :: "('w \<Rightarrow> 'x set) \<Rightarrow> ('w, 'x) StorageWriter \<Rightarrow> 'w env \<Rightarrow> bool" where
  "connected conns w e \<longleftrightarrow>
     conns (world e) = (if sw_closed w then {} else set_option (sw_mwClient w))
     \<and> (sw_stream w = None \<longleftrightarrow> sw_mwClient w = None) \<and> (sw_stream w = None \<longleftrightarrow> sw_descriptor w = None)"

lemma on_world_apply: "on_world f env = (fst (f (world env)), env\<lparr>world := snd (f (world env))\<rparr>)"
  by (simp add: on_world_def case_prod_beta Let_def)

lemma open_stream_connects:
  assumes "connections L conns" and "open_stream L w normalized e = (r, e')" and "conns (world e) = {}"
  shows "conns (world e') = (case r of Inl x \<Rightarrow> {} | Inr cs \<Rightarrow> {fst cs})"
proof -
  note laws = assms(1)[unfolded connections_def]
  obtain c w1 where c: "sl_NewClient L (ProjectID (sw_relation w)) (sw_clientOptions w) (world e) = (c, w1)" by force
  have opened: "conns w1 = (case c of Inl x \<Rightarrow> conns (world e) | Inr c \<Rightarrow> insert c (conns (world e)))"
    using laws[THEN conjunct1, rule_format, of "ProjectID (sw_relation w)" "sw_clientOptions w" "world e"] c by simp
  show ?thesis
  proof (cases c)
    case (Inl x)
    with assms(2,3) c opened show ?thesis by (auto simp: open_stream_def on_world_apply)
  next
    case (Inr client)
    obtain st w2 where st: "sl_NewManagedStream L client (writerOptions L w normalized) w1 = (st, w2)" by force
    then have kept: "conns w2 = {client}"
      using laws opened Inr assms(3) by (metis snd_conv sum.case(2))
    have closed: "conns (snd (sl_CloseClient L client w2)) = {}" using laws kept by simp
    show ?thesis
    proof (cases st)
      case (Inl x)
      with assms(2) c Inr st closed show ?thesis
        by (cases "fst (sl_CloseClient L client w2)") (auto simp: open_stream_def on_world_apply)
    next
      case (Inr stream)
      with assms(2) c \<open>c = Inr client\<close> st kept show ?thesis by (auto simp: open_stream_def on_world_apply)
    qed
  qed
qed

lemma BindSchema_connects:
  assumes "connections L conns" and "connected conns w e" and "StorageWriter_BindSchema L schema w e = (err, w', e')"
  shows "connected conns w' e'"
proof (cases "schema = [] \<or> sw_closed w \<or> sw_stream w \<noteq> None")
  case True
  with assms(2,3) show ?thesis by (auto simp: StorageWriter_BindSchema_def split: if_splits)
next
  case False
  then have none: "conns (world e) = {}" using assms(2) by (simp add: connected_def)
  let ?made = "and_then (rowDescriptor L schema) (\<lambda>descriptor.
    and_then (map_error (EWrap (WriterSite NormalizeDescriptor)) (sl_NormalizeDescriptor L descriptor)) (\<lambda>normalized.
      Inr (descriptor, normalized)))"
  show ?thesis
  proof (cases ?made)
    case (Inl x)
    with False assms(2,3) show ?thesis by (simp add: StorageWriter_BindSchema_def)
  next
    case (Inr dn)
    obtain d normalized where dn: "dn = (d, normalized)" by force
    obtain r e1 where r: "open_stream L w normalized e = (r, e1)" by force
    note connects = open_stream_connects[OF assms(1) r none]
    show ?thesis
    proof (cases r)
      case (Inl x)
      with False assms(2,3) Inr dn r connects show ?thesis
        by (simp add: StorageWriter_BindSchema_def connected_def)
    next
      case (Inr cs)
      with False assms(2,3) \<open>?made = Inr dn\<close> dn r connects show ?thesis
        by (cases cs) (auto simp: StorageWriter_BindSchema_def connected_def)
    qed
  qed
qed

lemma close_both_connects:
  assumes "connections L conns" and "close_both L stream client e = (err, e')"
  shows "conns (world e') = conns (world e) - {client}"
proof -
  obtain serr w1 where stream: "sl_CloseStream L stream (world e) = (serr, w1)" by force
  obtain cerr w2 where client: "sl_CloseClient L client w1 = (cerr, w2)" by force
  have "conns w1 = conns (world e)" "conns w2 = conns w1 - {client}"
    using assms(1) stream client by (metis connections_def snd_conv)+
  moreover have "world (snd (close_both L stream client e)) = w2"
    using stream client by (cases serr; cases cerr) (simp_all add: close_both_def on_world_apply)
  ultimately show ?thesis using assms(2) by simp
qed

lemma calls_connected:
  assumes "StorageWrite_NewWriter L settings client relation = Inr w0" and "connections L conns" and "conns (world e0) = {}"
    and "storage_calls L conns w0 e0 w e"
  shows "connected conns w e"
  using assms(4)
proof induction
  case calls_new
  from assms(1) show ?case by (rule NewWriter_Inr) (use assms(3) in \<open>simp add: connected_def\<close>)
next
  case (calls_BindSchema w e schema err w' e')
  from BindSchema_connects[OF assms(2) calls_BindSchema.IH calls_BindSchema.hyps(2)] show ?case .
next
  case (calls_WriteRows w e rows r e')
  have "conns (world e') = conns (world e)"
    using calls_WriteRows.hyps(2)
  proof (cases rule: WriteRows_cases)
    case (rejected x stream payloads)
    with assms(2) show ?thesis by (auto simp: on_world_apply connections_def)
  next
    case (sent result name)
    with assms(2) show ?thesis by (auto simp: appended_def on_world_apply connections_def)
  qed simp_all
  with calls_WriteRows.IH show ?case unfolding connected_def by argo
next
  case (calls_Wait w e r x e')
  have "conns (world e') = conns (world e)"
  proof (cases r)
    case (Resolved y)
    with calls_Wait.hyps(2) show ?thesis by simp
  next
    case (Pending result rows name)
    obtain rowErrors err w1 where response: "sl_FullResponse L result (world e) = ((rowErrors, err), w1)"
      by (metis surj_pair)
    have "conns w1 = conns (world e)" using assms(2) response by (metis connections_def snd_conv)
    moreover have "world (snd (storageResult_Wait L r e)) = w1"
      using response Pending by (cases err) (simp_all add: on_world_apply)
    ultimately show ?thesis using calls_Wait.hyps(2) by simp
  qed
  with calls_Wait.IH show ?case unfolding connected_def by argo
next
  case (calls_Close w e err w' e')
  show ?case
  proof (cases "sw_closed w \<or> sw_stream w = None")
    case True
    with calls_Close.IH calls_Close.hyps(2) show ?thesis
      by (auto simp: StorageWriter_Close_def connected_def split: if_splits option.splits)
  next
    case False
    with calls_Close.IH obtain st c where open_: "sw_stream w = Some st" "sw_mwClient w = Some c" "\<not> sw_closed w"
      by (auto simp: connected_def)
    obtain cerr e1 where closed: "close_both L st c e = (cerr, e1)" by force
    with close_both_connects[OF assms(2) closed] open_ calls_Close.IH calls_Close.hyps(2) show ?thesis
      by (auto simp: StorageWriter_Close_def connected_def)
  qed
next
  case (elsewhere w e e')
  then show ?case unfolding connected_def by argo
qed

text \<open>
  C14: no connection is left open. Whatever calls are made on a writer, at most one client is
  open at any time, the one the stream was opened with, and none once the writer is closed or
  where no schema could be bound; a closed writer takes neither a schema nor rows.
\<close>

theorem no_connection_is_left_open:
  assumes "StorageWrite_NewWriter L settings client relation = Inr w0" and "connections L conns" and "conns (world e0) = {}"
    and "storage_calls L conns w0 e0 w e"
  shows "conns (world e) = (if sw_closed w then {} else set_option (sw_mwClient w))
    \<and> (sw_mwClient w = None \<longleftrightarrow> sw_stream w = None)
    \<and> (sw_closed w \<and> rows \<noteq> [] \<longrightarrow> StorageWriter_WriteRows L rows w e = (Inl storage_closed, e))
    \<and> (sw_closed w \<and> schema \<noteq> [] \<longrightarrow> StorageWriter_BindSchema L schema w e = (Some storage_closed, w, e))"
  using calls_connected[OF assms]
  by (auto simp: connected_def StorageWriter_WriteRows_def StorageWriter_BindSchema_def)

section \<open>Closing\<close>

text \<open>
  Closing hides no failure. \<open>Close\<close> closes the stream and then the client, whatever the
  stream answered; it returns nil exactly when both went well, a stream's \<open>io.EOF\<close> being well;
  a failure of the stream is returned, one of the client is returned or logged; and closing
  again does nothing.
\<close>

theorem Close_hides_no_failure:
  assumes "\<not> sw_closed w" and "sw_stream w = Some stream" and "sw_mwClient w = Some client"
    and "sl_CloseStream L stream (world env) = (serr, w1)" and "sl_CloseClient L client w1 = (cerr, w2)"
    and "StorageWriter_Close L w env = (err, w', env')"
  shows "world env' = w2
    \<and> (err = None \<longleftrightarrow> (serr = None \<or> serr \<noteq> None \<and> is_EOF (the serr)) \<and> cerr = None)
    \<and> (\<forall>e. serr = Some e \<and> \<not> is_EOF e \<longrightarrow> err = Some (EWrap (WriterSite CloseStream) e))
    \<and> (\<forall>e. cerr = Some e \<longrightarrow> err = Some (EWrap (WriterSite CloseClient) e) \<or> last (logs env') = CouldNotCloseClient e)
    \<and> StorageWriter_Close L w' env' = (None, w', env')"
proof -
  have closed: "w' = w\<lparr>sw_closed := True\<rparr>" "close_both L stream client env = (err, env')"
    using assms(1-3,6) by (auto simp: StorageWriter_Close_def case_prod_beta Let_def)
  have "StorageWriter_Close L w' env' = (None, w', env')" by (simp add: closed(1) StorageWriter_Close_def)
  with closed(2) assms(4,5) show ?thesis
    by (cases serr; cases cerr) (auto simp: close_both_def on_world_apply log_add_def split: if_splits)
qed

section \<open>A library that keeps what is asked of it\<close>

text \<open>The world is the clients open at the moment; a row's payload is its JSON text.\<close>

definition plain_storage :: "(string list, string) storage_lib" where
  "plain_storage =
     \<lparr>sl_json = plain_json, sl_BQSchemaToStorageTableSchema = (\<lambda>s. Inr ''schema''),
      sl_StorageSchemaToProtoDescriptor = (\<lambda>s name os. Inr name), sl_AsMessageDescriptor = Some,
      sl_NormalizeDescriptor = Inr, sl_Unmarshal = (\<lambda>text d. Inr text), sl_Marshal = Inr,
      sl_TableParentFromStreamName = (\<lambda>s. go_join ''/'' (take 6 (go_split CHR ''/'' s))),
      sl_TableParentFromParts = (\<lambda>p d t. go_join ''/'' [''projects'', p, ''datasets'', d, ''tables'', t]),
      sl_NewClient = (\<lambda>p os w. (Inr p, p # w)), sl_NewManagedStream = (\<lambda>c os w. (Inr c, w)),
      sl_StreamName = (\<lambda>s. s), sl_AppendRows = (\<lambda>s ps w. (Inr s, w)), sl_FullResponse = (\<lambda>r w. (([], None), w)),
      sl_CloseStream = (\<lambda>s w. (Some io_EOF, w)), sl_CloseClient = (\<lambda>c w. (None, filter (\<lambda>d. d \<noteq> c) w))\<rparr>"

definition st_settings :: "string StorageWrite" where
  "st_settings = \<lparr>set_StreamType = NoStreamType, set_StreamName = [], set_DisableWriteRetries = False,
     set_ClientOptions = [], set_WriterOptions = []\<rparr>"

definition st_writer :: "(string list, string) StorageWriter" where
  "st_writer = \<lparr>sw_relation = id_relation, sw_client = (''p'', \<lambda>r. id_table), sw_streamName = [], sw_streamType = NoStreamType,
     sw_disableWriteRetries = False, sw_clientOptions = [], sw_writerOpts = [], sw_schema = [], sw_descriptor = None,
     sw_mwClient = None, sw_stream = None, sw_closed = False\<rparr>"

definition st_bound :: "(string list, string) StorageWriter" where
  "st_bound = st_writer\<lparr>sw_schema := id_schema, sw_descriptor := Some ''Row'', sw_mwClient := Some ''p'', sw_stream := Some ''p''\<rparr>"

lemma st_writer_made: "StorageWrite_NewWriter plain_storage st_settings (Some (''p'', \<lambda>r. id_table)) id_relation = Inr st_writer"
  by (simp add: StorageWrite_NewWriter_def st_settings_def validate_relation_def id_relation_def in_project_def
      StorageWrite_Validate_def check_stream_name_def st_writer_def)

lemma st_opened: "StorageWriter_BindSchema plain_storage id_schema st_writer \<lparr>world = [], logs = ls\<rparr>
    = (None, st_bound, \<lparr>world = [''p''], logs = ls @ [OpenedStream ''p'']\<rparr>)"
  by (simp add: StorageWriter_BindSchema_def id_schema_def st_writer_def rowDescriptor_def plain_storage_def open_stream_def
      on_world_def log_add_def id_relation_def st_bound_def)

lemma st_marshalled: "marshalStorageWriteRow plain_storage [(''id'', BString ''a'')] id_schema ''Row''
    = Inr (''{'' @ [CHR 0x22] @ ''id'' @ [CHR 0x22] @ '':'' @ [CHR 0x22] @ ''a'' @ [CHR 0x22] @ ''}'')"
  by (simp add: marshalStorageWriteRow_def encodeStorageWriteRow_def encodeRow_def jsonObject.simps jsonValue.simps
      jsonElement.simps index_by_def plain_storage_def plain_json_def strip_newlines_def id_schema_def)

lemma st_written: "StorageWriter_WriteRows plain_storage id_values st_bound env = (Inr (Pending ''p'' id_values ''p''), env)"
proof -
  have "sw_stream st_bound = Some ''p''" "sw_descriptor st_bound = Some ''Row''" "sw_schema st_bound = id_schema" "\<not> sw_closed st_bound"
    by (simp_all add: st_bound_def st_writer_def)
  then show ?thesis
    by (simp add: StorageWriter_WriteRows_def id_values_def st_marshalled) (simp add: plain_storage_def on_world_def)
qed

lemma st_parents: "parents_documented plain_storage"
  by (simp add: parents_documented_def plain_storage_def)

lemma st_connections: "connections plain_storage (\<lambda>w. set w)"
  by (auto simp: connections_def plain_storage_def)

theorem stream_is_the_relations_witness:
  "destination_of plain_storage (writerOptions plain_storage st_writer ''Row'') = Some ''projects/p/datasets/d/tables/t''"
  using stream_is_the_relations[OF st_writer_made st_parents, of "''Row''"]
  by (simp add: st_settings_def table_parent_def st_writer_def id_relation_def)

theorem append_is_all_or_nothing_witness:
  "appended plain_storage st_bound id_values ''p'' \<lparr>world = [''p''], logs = []\<rparr> \<lparr>world = [''p''], logs = []\<rparr>"
  using append_is_all_or_nothing[OF st_written, of "\<lparr>world = [''p''], logs = []\<rparr>"] by simp

lemma st_closed: "StorageWriter_Close plain_storage st_bound \<lparr>world = [''p''], logs = ls\<rparr>
    = (None, st_bound\<lparr>sw_closed := True\<rparr>, \<lparr>world = [], logs = ls\<rparr>)"
  by (simp add: StorageWriter_Close_def st_bound_def st_writer_def close_both_def plain_storage_def on_world_def is_EOF_def io_EOF_def)

theorem no_connection_is_left_open_witness:
  "StorageWriter_WriteRows plain_storage id_values (st_bound\<lparr>sw_closed := True\<rparr>) \<lparr>world = [], logs = [OpenedStream ''p'']\<rparr>
    = (Inl storage_closed, \<lparr>world = [], logs = [OpenedStream ''p'']\<rparr>)"
proof -
  have "storage_calls plain_storage set st_writer \<lparr>world = [], logs = []\<rparr> st_bound \<lparr>world = [''p''], logs = [OpenedStream ''p'']\<rparr>"
    using calls_BindSchema[OF calls_new st_opened[of "[]"]] by simp
  then have "storage_calls plain_storage set st_writer \<lparr>world = [], logs = []\<rparr> (st_bound\<lparr>sw_closed := True\<rparr>)
      \<lparr>world = [], logs = [OpenedStream ''p'']\<rparr>"
    by (rule calls_Close) (rule st_closed)
  from no_connection_is_left_open[OF st_writer_made st_connections _ this] show ?thesis by (simp add: id_values_def)
qed

theorem Close_hides_no_failure_witness:
  "fst (StorageWriter_Close plain_storage st_bound \<lparr>world = [''p''], logs = []\<rparr>) = None"
proof -
  obtain err w' env' where closed: "StorageWriter_Close plain_storage st_bound \<lparr>world = [''p''], logs = []\<rparr> = (err, w', env')"
    by (cases "StorageWriter_Close plain_storage st_bound \<lparr>world = [''p''], logs = []\<rparr>")
  have "\<not> sw_closed st_bound" "sw_stream st_bound = Some ''p''" "sw_mwClient st_bound = Some ''p''"
    "sl_CloseStream plain_storage ''p'' (world \<lparr>world = [''p''], logs = []\<rparr>) = (Some io_EOF, [''p''])"
    "sl_CloseClient plain_storage ''p'' [''p''] = (None, [])"
    by (simp_all add: st_bound_def st_writer_def plain_storage_def)
  from Close_hides_no_failure[OF this closed] closed show ?thesis by (simp add: is_EOF_def io_EOF_def)
qed

definition st_sinker :: "((string list, string) StorageWriter \<times> string list, string storage_result, unit retry_method \<times> unit) Sinker" where
  "st_sinker = new_Sinker no_retries (Storage_RowsWriter plain_storage id_relation (\<lambda>r. id_table)) id_declaration typeMapStringAny
     \<lparr>cfg_strategy = Some (Builtin (NoneStrategy \<lparr>none_CreateIfMissing = False\<rparr>)), cfg_migrationRetry = None,
      cfg_logger = None\<rparr> ''u7'' \<lparr>gt_nanos = 0, gt_offset = 0\<rparr>"

definition st_env :: "((string list, string) StorageWriter \<times> string list) env" where
  "st_env = \<lparr>world = (st_writer, []), logs = []\<rparr>"

definition st_env1 :: "((string list, string) StorageWriter \<times> string list) env" where
  "st_env1 = \<lparr>world = (st_bound, [''p'']), logs = [Compared [] [] [] 0, NeedsNoChange, OpenedStream ''p'']\<rparr>"

lemma st_sinker_sel: "sk_writer st_sinker = Storage_RowsWriter plain_storage id_relation (\<lambda>r. id_table)"
  "sk_api st_sinker = Some (outside_table id_table)" "sk_startErr st_sinker = None" "sk_rowType st_sinker = typeMapStringAny"
  "sk_schema st_sinker = id_schema" "sk_migrationRetry st_sinker = None"
  "sk_strategy st_sinker = Builtin (NoneStrategy \<lparr>none_CreateIfMissing = False\<rparr>)"
  by (simp_all add: st_sinker_def Storage_RowsWriter_def id_declaration_eq chosen_strategy_def)

lemma st_migrated: "migrate (sinker_migrator st_sinker (outside_table id_table)) st_env
    = (None, \<lparr>world = (st_writer, []), logs = [Compared [] [] [] 0, NeedsNoChange]\<rparr>)"
  by (simp add: sinker_migrator_def st_sinker_sel migrate_eval outside_table_def on_snd_def id_table_def
      st_env_def diff_eval id_schema_def columns_of_def plan_defs log_add_def log_all_def diff_Empty_def)

lemma st_started: "start call_once st_sinker st_env = (None, st_sinker\<lparr>sk_startErr := Some None\<rparr>, st_env1)"
  by (simp add: start_def start_once_def st_sinker_sel retrying_def st_migrated Storage_RowsWriter_def inner_def st_opened outer_def st_env1_def)

lemma st_sent: "send_rows log_env quiet_runtime (st_sinker\<lparr>sk_startErr := Some None\<rparr>) [id_row] st_env1
    = (Inr (Handed (Pending ''p'' id_values ''p''), 1), st_env1)"
proof -
  have "prepare_all log_env quiet_runtime (st_sinker\<lparr>sk_startErr := Some None\<rparr>) [id_row] st_env1 = (Inr id_values, st_env1)"
    by (simp add: prepare_def newID_def quiet_runtime_def fill_def st_sinker_def id_declaration_eq id_row_def plan_marshalRow_def
        map_row_simps id_plan_def id_schema_def type_simps log_env_def id_values_def)
  moreover have "length id_values = 1" by (simp add: id_values_def)
  ultimately show ?thesis
    by (simp add: send_rows_def st_sinker_sel Storage_RowsWriter_def storage_write_def inner_def st_env1_def st_written outer_def)
qed

lemma st_sunk: "fst (Sink call_once log_env quiet_runtime (Some id_row) st_sinker st_env) = (1, None)"
proof -
  have "send call_once log_env quiet_runtime (Some id_row) st_sinker st_env
      = (Inr (Handed (Pending ''p'' id_values ''p''), 1), st_sinker\<lparr>sk_startErr := Some None\<rparr>, st_env1)"
    by (simp add: send_def st_sinker_sel id_batch st_started st_sent)
  moreover have "length id_values = 1" by (simp add: id_values_def)
  ultimately show ?thesis
    by (simp add: Sink_def st_sinker_sel Storage_RowsWriter_def storage_wait_def plain_storage_def on_world_def)
qed

lemma st_sinker_made:
  "NewSinker quiet_runtime no_retries (Some (Storage_RowsWriter plain_storage id_relation (\<lambda>r. id_table))) id_declaration
     id_options st_env = (Inr st_sinker, st_env)"
  by (simp add: NewSinker_def check_new_def id_declaration_eq id_options_def Storage_RowsWriter_def
      validate_relation_def id_relation_def WithMigrationStrategy_def validateStrategy_def empty_config_def newID_def
      quiet_runtime_def st_sinker_def)

theorem Sink_means_appended_witness: "\<exists>vs. batch_of log_types typeMapStringAny (Some id_row) = Inr vs"
proof -
  obtain x s' env' where sunk: "Sink call_once log_env quiet_runtime (Some id_row) st_sinker st_env = (x, s', env')"
    by (cases "Sink call_once log_env quiet_runtime (Some id_row) st_sinker st_env")
  with st_sunk have sunk: "Sink call_once log_env quiet_runtime (Some id_row) st_sinker st_env = ((1, None), s', env')" by simp
  have "leaves_writer quiet_runtime" by (simp add: leaves_writer_def quiet_runtime_def)
  moreover have "acts_through_calls call_once" by (simp add: acts_through_calls_def call_once_def)
  ultimately show ?thesis using Sink_means_appended[OF st_sinker_made _ _ sunk_new sunk]
    by (simp add: st_sinker_sel log_env_def) blast
qed

end
