(* ===== verification/LoadJobsRuns.thy ===== *)
theory LoadJobsRuns
  imports LoadJobs
begin

text \<open>
  The calls of several goroutines on one \<open>LoadJobsWriter\<close>, interleaved wherever the lock is
  free: a step relation over the writer's state and what each goroutine is doing, with a record
  of what became of the rows. A load may end either way at any time.
\<close>

section \<open>Goroutines and configurations\<close>

datatype goroutine =
    Idle
  | Direct "Row list" Schema
  | Batch "Row list" "Row list" Schema
  | Recorded "Row list"
  | Flushing "Row list" Schema "gerr list"
  | Flushed resolved
  | Waiting "Row list" Schema
  | Waited "Row list" Schema
  | Closing "Row list" Schema "gerr list"

text \<open>What a call has returned; the rows are those given to \<open>WriteRows\<close>.\<close>

datatype returned =
    WroteRows "Row list" "gerr + resolved"
  | FlushedRows "gerr + resolved"
  | ClosedWriter "gerr option"

text \<open>
  Besides the writer and the goroutines: the rows taken so far, those whose load returned nil,
  those whose load failed, and what the calls returned.
\<close>

record config =
  writer :: LoadJobsWriter
  goroutines :: "goroutine list"
  taken :: "Row list"
  landed :: "Row list"
  failed :: "Row list"
  results :: "returned list"

definition settle :: "Row list \<Rightarrow> gerr option \<Rightarrow> config \<Rightarrow> config" where
  "settle rows err c =
     (case err of None \<Rightarrow> c\<lparr>landed := landed c @ rows\<rparr> | Some e \<Rightarrow> c\<lparr>failed := failed c @ rows\<rparr>)"

definition goes :: "nat \<Rightarrow> goroutine \<Rightarrow> LoadJobsWriter \<Rightarrow> config \<Rightarrow> config" where
  "goes i g w c = c\<lparr>writer := w, goroutines := (goroutines c)[i := g]\<rparr>"

definition returns :: "nat \<Rightarrow> returned \<Rightarrow> LoadJobsWriter \<Rightarrow> config \<Rightarrow> config" where
  "returns i r w c = (goes i Idle w c)\<lparr>results := results c @ [r]\<rparr>"

definition takes :: "Row list \<Rightarrow> config \<Rightarrow> config" where
  "takes rows c = c\<lparr>taken := taken c @ rows\<rparr>"

definition doing :: "config \<Rightarrow> nat \<Rightarrow> goroutine \<Rightarrow> bool" where
  "doing c i g \<longleftrightarrow> i < length (goroutines c) \<and> goroutines c ! i = g"

inductive step :: "config \<Rightarrow> config \<Rightarrow> bool" where
  bind: "doing c i Idle \<Longrightarrow> BindSchema schema (writer c) = (r, w) \<Longrightarrow> step c (goes i Idle w c)"
| write_refused: "doing c i Idle \<Longrightarrow> WriteRows_enter rows (writer c) = (WReturn (Inl e), w) \<Longrightarrow>
    step c (returns i (WroteRows rows (Inl e)) w c)"
| write_buffered: "doing c i Idle \<Longrightarrow> WriteRows_enter rows (writer c) = (WReturn (Inr r), w) \<Longrightarrow>
    step c (takes rows (returns i (WroteRows rows (Inr r)) w c))"
| write_direct: "doing c i Idle \<Longrightarrow> WriteRows_enter rows (writer c) = (WDirect schema, w) \<Longrightarrow>
    step c (takes rows (goes i (Direct rows schema) w c))"
| write_batch: "doing c i Idle \<Longrightarrow> WriteRows_enter rows (writer c) = (WBatch batch schema, w) \<Longrightarrow>
    step c (takes rows (goes i (Batch rows batch schema) w c))"
| direct_loaded: "doing c i (Direct rows schema) \<Longrightarrow>
    step c (settle rows err (returns i (WroteRows rows (Inr (WriteRows_direct rows err))) (writer c) c))"
| batch_loaded: "doing c i (Batch rows batch schema) \<Longrightarrow>
    step c (settle batch err (goes i (Recorded rows) (WriteRows_record batch err (writer c)) c))"
| batch_done: "doing c i (Recorded rows) \<Longrightarrow>
    step c (returns i (WroteRows rows (Inr (ResolvedResult (length rows) None))) (wg_Done (writer c)) c)"
| flush_refused: "doing c i Idle \<Longrightarrow> FlushRows_enter (writer c) = (Inl e, w) \<Longrightarrow>
    step c (returns i (FlushedRows (Inl e)) w c)"
| flush_nothing: "doing c i Idle \<Longrightarrow> FlushRows_enter (writer c) = (Inr ([], schema, held), w) \<Longrightarrow>
    step c (returns i (FlushedRows (Inr (FlushRows_result [] held None))) w c)"
| flush_batch: "doing c i Idle \<Longrightarrow> FlushRows_enter (writer c) = (Inr (batch, schema, held), w) \<Longrightarrow> batch \<noteq> [] \<Longrightarrow>
    step c (goes i (Flushing batch schema held) w c)"
| flush_loaded: "doing c i (Flushing batch schema held) \<Longrightarrow>
    step c (settle batch err (goes i (Flushed (FlushRows_result batch held err)) (writer c) c))"
| flush_done: "doing c i (Flushed r) \<Longrightarrow> step c (returns i (FlushedRows (Inr r)) (wg_Done (writer c)) c)"
| close_again: "doing c i Idle \<Longrightarrow> Close_enter (writer c) = (None, w) \<Longrightarrow>
    step c (returns i (ClosedWriter None) w c)"
| close_first: "doing c i Idle \<Longrightarrow> Close_enter (writer c) = (Some (batch, schema), w) \<Longrightarrow>
    step c (goes i (Waiting batch schema) w c)"
| close_wait: "doing c i (Waiting batch schema) \<Longrightarrow> wg (writer c) = 0 \<Longrightarrow>
    step c (goes i (Waited batch schema) (writer c) c)"
| close_collect: "doing c i (Waited batch schema) \<Longrightarrow> Close_collect (writer c) = (held, w) \<Longrightarrow>
    step c (goes i (Closing batch schema held) w c)"
| close_nothing: "doing c i (Closing [] schema held) \<Longrightarrow>
    step c (returns i (ClosedWriter (Close_result [] held None)) (writer c) c)"
| close_loaded: "doing c i (Closing batch schema held) \<Longrightarrow> batch \<noteq> [] \<Longrightarrow>
    step c (settle batch err (returns i (ClosedWriter (Close_result batch held err)) (writer c) c))"

text \<open>A new writer, and as many goroutines as one likes, none of them in a call.\<close>

definition new_LoadJobsWriter :: "int \<Rightarrow> LoadJobsWriter" where
  "new_LoadJobsWriter n =
     \<lparr>flushRows = n, bound_schema = None, buf = [], pending = [], closed = False, wg = 0\<rparr>"

definition start :: "int \<Rightarrow> nat \<Rightarrow> config" where
  "start n k = \<lparr>writer = new_LoadJobsWriter n, goroutines = replicate k Idle, taken = [],
     landed = [], failed = [], results = []\<rparr>"

inductive reachable :: "int \<Rightarrow> nat \<Rightarrow> config \<Rightarrow> bool" for n k where
  initial: "reachable n k (start n k)"
| later: "reachable n k c \<Longrightarrow> step c c' \<Longrightarrow> reachable n k c'"

section \<open>Sums over goroutines\<close>

definition sum_of :: "(goroutine \<Rightarrow> 'a::comm_monoid_add) \<Rightarrow> goroutine list \<Rightarrow> 'a" where
  "sum_of f gs = sum_list (map f gs)"

definition others :: "nat \<Rightarrow> 'a list \<Rightarrow> 'a list" where
  "others i xs = take i xs @ drop (Suc i) xs"

lemma sum_of_split:
  assumes "doing c i g"
  shows "sum_of f (goroutines c) = f g + sum_of f (others i (goroutines c))"
    and "sum_of f ((goroutines c)[i := g']) = f g' + sum_of f (others i (goroutines c))"
proof -
  have i: "i < length (goroutines c)" and g: "goroutines c ! i = g"
    using assms by (simp_all add: doing_def)
  have "sum_of f (goroutines c) = sum_of f (take i (goroutines c) @ goroutines c ! i # drop (Suc i) (goroutines c))"
    using i by (simp add: id_take_nth_drop[symmetric])
  then show "sum_of f (goroutines c) = f g + sum_of f (others i (goroutines c))"
    by (simp add: sum_of_def others_def g ac_simps)
  show "sum_of f ((goroutines c)[i := g']) = f g' + sum_of f (others i (goroutines c))"
    using i by (simp add: sum_of_def others_def upd_conv_take_nth_drop ac_simps)
qed

lemma sum_of_replicate: "f Idle = 0 \<Longrightarrow> sum_of f (replicate k Idle) = 0"
  by (induction k) (simp_all add: sum_of_def)

lemma config_updates [simp]:
  "writer (goes i g w c) = w" "goroutines (goes i g w c) = (goroutines c)[i := g]"
  "taken (goes i g w c) = taken c" "landed (goes i g w c) = landed c"
  "failed (goes i g w c) = failed c" "results (goes i g w c) = results c"
  "writer (returns i r w c) = w" "goroutines (returns i r w c) = (goroutines c)[i := Idle]"
  "taken (returns i r w c) = taken c" "landed (returns i r w c) = landed c"
  "failed (returns i r w c) = failed c" "results (returns i r w c) = results c @ [r]"
  "writer (takes rows c) = writer c" "goroutines (takes rows c) = goroutines c"
  "taken (takes rows c) = taken c @ rows" "landed (takes rows c) = landed c"
  "failed (takes rows c) = failed c" "results (takes rows c) = results c"
  "writer (settle rows err c) = writer c" "goroutines (settle rows err c) = goroutines c"
  "taken (settle rows err c) = taken c" "results (settle rows err c) = results c"
  "landed (settle rows err c) = landed c @ (if err = None then rows else [])"
  "failed (settle rows err c) = failed c @ (if err = None then [] else rows)"
  by (auto simp: goes_def returns_def takes_def settle_def split: option.splits)

section \<open>Where each row is\<close>

text \<open>The rows a goroutine is about to load, and the rows the errors it holds stand for.\<close>

fun inflight :: "goroutine \<Rightarrow> Row list" where
  "inflight (Direct rows schema) = rows"
| "inflight (Batch rows batch schema) = batch"
| "inflight (Flushing batch schema held) = batch"
| "inflight (Waiting batch schema) = batch"
| "inflight (Waited batch schema) = batch"
| "inflight (Closing batch schema held) = batch"
| "inflight g = []"

text \<open>How many rows an error says did not land.\<close>

fun undelivered :: "gerr \<Rightarrow> nat" where
  "undelivered (EWrap (WriterSite (RowsDidNotLand n)) e) = n"
| "undelivered (EJoin es) = sum_list (map undelivered es)"
| "undelivered e = 0"

definition undelivered_in :: "gerr option \<Rightarrow> nat" where
  "undelivered_in err = (case err of None \<Rightarrow> 0 | Some e \<Rightarrow> undelivered e)"

fun held_back :: "goroutine \<Rightarrow> nat" where
  "held_back (Flushing batch schema held) = sum_list (map undelivered held)"
| "held_back (Flushed r) = undelivered_in (snd r)"
| "held_back (Closing batch schema held) = sum_list (map undelivered held)"
| "held_back g = 0"

text \<open>How many rows a call's outcome says did not land.\<close>

fun reported :: "returned \<Rightarrow> nat" where
  "reported (WroteRows rows (Inr (n, err))) = length rows - n"
| "reported (FlushedRows (Inr (n, err))) = undelivered_in err"
| "reported (ClosedWriter err) = undelivered_in err"
| "reported r = 0"

lemma undelivered_in_simps [simp]:
  "undelivered_in None = 0" "undelivered_in (Some e) = undelivered e"
  by (simp_all add: undelivered_in_def)

lemma undelivered_did_not_land [simp]: "undelivered (did_not_land batch e) = length batch"
  by (simp add: did_not_land_def)

lemma undelivered_Join: "undelivered_in (errors_Join es) = sum_list (map undelivered_in es)"
proof -
  have "sum_list (map undelivered (List.map_filter id es)) = sum_list (map undelivered_in es)"
    by (induction es) (auto simp: List.map_filter_def split: option.splits)
  then show ?thesis
    by (cases "List.map_filter id es") (auto simp: errors_Join_def)
qed

lemma undelivered_flush:
  "undelivered_in (snd (FlushRows_result batch held err))
     = sum_list (map undelivered held) + (if err = None then 0 else length batch)"
  by (cases err) (auto simp: FlushRows_result_def ResolvedResult_def undelivered_Join o_def Let_def)

lemma undelivered_close:
  "undelivered_in (Close_result batch held err)
     = sum_list (map undelivered held) + (if err = None then 0 else length batch)"
  by (cases err) (auto simp: Close_result_def undelivered_Join o_def)

lemma undelivered_record:
  "sum_list (map undelivered (pending (WriteRows_record batch err w)))
     = sum_list (map undelivered (pending w)) + (if err = None then 0 else length batch)"
  by (cases err) (auto simp: WriteRows_record_def)

lemma reported_direct: "reported (WroteRows rows (Inr (WriteRows_direct rows err))) = (if err = None then 0 else length rows)"
  by (cases err) (auto simp: WriteRows_direct_def ResolvedResult_def)

lemma reported_flushed: "reported (FlushedRows (Inr r)) = undelivered_in (snd r)"
  by (cases r) simp

lemma record_sel [simp]:
  "buf (WriteRows_record batch err w) = buf w" "wg (WriteRows_record batch err w) = wg w"
  "closed (WriteRows_record batch err w) = closed w" "flushRows (WriteRows_record batch err w) = flushRows w"
  "bound_schema (WriteRows_record batch err w) = bound_schema w"
  "buf (wg_Done w) = buf w" "wg (wg_Done w) = wg w - 1" "closed (wg_Done w) = closed w"
  "flushRows (wg_Done w) = flushRows w" "pending (wg_Done w) = pending w" "bound_schema (wg_Done w) = bound_schema w"
  by (auto simp: WriteRows_record_def wg_Done_def split: option.splits)

text \<open>What the critical sections do, one outcome at a time.\<close>

lemma WriteRows_enter_WReturn:
  "WriteRows_enter rows w = (WReturn r, w') \<Longrightarrow>
     rows = [] \<and> r = Inr (0, None) \<and> w' = w
   \<or> rows \<noteq> [] \<and> closed w \<and> r = Inl writer_closed \<and> w' = w
   \<or> rows \<noteq> [] \<and> \<not> closed w \<and> bound_schema w = None \<and> r = Inl (EMsg (WriterSite NoSchemaBound)) \<and> w' = w
   \<or> rows \<noteq> [] \<and> \<not> closed w \<and> bound_schema w \<noteq> None \<and> flushRows w \<noteq> 0 \<and> int (length (buf w @ rows)) < flushRows w
       \<and> r = Inr (length rows, None) \<and> w' = w\<lparr>buf := buf w @ rows\<rparr>"
  by (auto simp: WriteRows_enter_def Let_def ResolvedResult_def split: if_splits)

lemma WriteRows_enter_WDirect:
  "WriteRows_enter rows w = (WDirect schema, w') \<longleftrightarrow>
     rows \<noteq> [] \<and> \<not> closed w \<and> bound_schema w = Some schema \<and> flushRows w = 0 \<and> w' = w"
  by (auto simp: WriteRows_enter_def Let_def schema_of_def)

lemma WriteRows_enter_WBatch:
  "WriteRows_enter rows w = (WBatch batch schema, w') \<longleftrightarrow>
     rows \<noteq> [] \<and> \<not> closed w \<and> bound_schema w = Some schema \<and> flushRows w \<noteq> 0
     \<and> flushRows w \<le> int (length (buf w @ rows)) \<and> batch = buf w @ rows \<and> w' = w\<lparr>buf := [], wg := wg w + 1\<rparr>"
  by (auto simp: WriteRows_enter_def Let_def schema_of_def)

lemma FlushRows_enter_Inr:
  "FlushRows_enter w = (Inr (batch, schema, held), w') \<longleftrightarrow>
     \<not> closed w \<and> batch = buf w \<and> schema = schema_of w \<and> held = pending w
     \<and> w' = w\<lparr>buf := [], pending := [], wg := (if buf w \<noteq> [] then wg w + 1 else wg w)\<rparr>"
  by (auto simp: FlushRows_enter_def)

lemma FlushRows_enter_Inl: "FlushRows_enter w = (Inl e, w') \<longleftrightarrow> closed w \<and> e = writer_closed \<and> w' = w"
  by (auto simp: FlushRows_enter_def)

lemma Close_enter_Some:
  "Close_enter w = (Some (batch, schema), w') \<longleftrightarrow>
     \<not> closed w \<and> batch = buf w \<and> schema = schema_of w \<and> w' = w\<lparr>closed := True, buf := []\<rparr>"
  by (auto simp: Close_enter_def)

lemma Close_enter_None: "Close_enter w = (None, w') \<longleftrightarrow> closed w \<and> w' = w"
  by (auto simp: Close_enter_def)

lemma Close_collect_eq: "Close_collect w = (held, w') \<longleftrightarrow> held = pending w \<and> w' = w\<lparr>pending := []\<rparr>"
  by (auto simp: Close_collect_def)

lemma BindSchema_eq:
  "BindSchema schema w = (r, w') \<Longrightarrow> buf w' = buf w \<and> pending w' = pending w \<and> wg w' = wg w
     \<and> closed w' = closed w \<and> flushRows w' = flushRows w"
  by (auto simp: BindSchema_def split: if_splits)

lemmas critical_sections = WriteRows_enter_WDirect WriteRows_enter_WBatch FlushRows_enter_Inr
  FlushRows_enter_Inl Close_enter_Some Close_enter_None Close_collect_eq

section \<open>Invariants\<close>

definition rows_accounted :: "config \<Rightarrow> bool" where
  "rows_accounted c \<longleftrightarrow>
     mset (taken c) = mset (buf (writer c)) + sum_of (\<lambda>g. mset (inflight g)) (goroutines c)
       + mset (landed c) + mset (failed c)"

definition failures_accounted :: "config \<Rightarrow> bool" where
  "failures_accounted c \<longleftrightarrow>
     length (failed c) = sum_list (map undelivered (pending (writer c))) + sum_of held_back (goroutines c)
       + sum_list (map reported (results c))"

lemma step_rows: "step c c' \<Longrightarrow> rows_accounted c \<Longrightarrow> rows_accounted c'"
proof (induction rule: step.induct)
  case (write_buffered c i rows r w)
  then show ?case
    by (auto simp: rows_accounted_def sum_of_split dest!: WriteRows_enter_WReturn)
next
  case (write_refused c i rows e w)
  then show ?case
    by (auto simp: rows_accounted_def sum_of_split dest!: WriteRows_enter_WReturn)
next
  case (bind c i schema r w)
  then show ?case by (auto simp: rows_accounted_def sum_of_split dest!: BindSchema_eq)
qed (auto simp: rows_accounted_def sum_of_split critical_sections)

lemma step_failures: "step c c' \<Longrightarrow> failures_accounted c \<Longrightarrow> failures_accounted c'"
proof (induction rule: step.induct)
  case (write_buffered c i rows r w)
  then show ?case
    by (auto simp: failures_accounted_def sum_of_split dest!: WriteRows_enter_WReturn)
next
  case (write_refused c i rows e w)
  then show ?case
    by (auto simp: failures_accounted_def sum_of_split dest!: WriteRows_enter_WReturn)
next
  case (bind c i schema r w)
  then show ?case by (auto simp: failures_accounted_def sum_of_split dest!: BindSchema_eq)
qed (auto simp: failures_accounted_def sum_of_split critical_sections undelivered_flush undelivered_close
    undelivered_record reported_direct reported_flushed ResolvedResult_def)

text \<open>
  Who counts as in flight for the wait group; who is closing, and how far: before the pending
  errors were collected, or past the wait.
\<close>

fun in_wg :: "goroutine \<Rightarrow> nat" where
  "in_wg (Batch rows batch schema) = 1"
| "in_wg (Recorded rows) = 1"
| "in_wg (Flushing batch schema held) = 1"
| "in_wg (Flushed r) = 1"
| "in_wg g = 0"

fun before_collect :: "goroutine \<Rightarrow> nat" where
  "before_collect (Waiting batch schema) = 1"
| "before_collect (Waited batch schema) = 1"
| "before_collect g = 0"

fun after_collect :: "goroutine \<Rightarrow> nat" where
  "after_collect (Closing batch schema held) = 1"
| "after_collect g = 0"

fun past_wait :: "goroutine \<Rightarrow> nat" where
  "past_wait (Waited batch schema) = 1"
| "past_wait (Closing batch schema held) = 1"
| "past_wait g = 0"

text \<open>
  The wait group counts the goroutines with a batch in flight; a closed writer holds no rows; at
  most one call of \<open>Close\<close> got past the flag; once it is past the wait nothing is in flight, and
  once it has collected, no error is pending; the buffer stays below its limit.
\<close>

definition writer_ok :: "config \<Rightarrow> bool" where
  "writer_ok c \<longleftrightarrow>
     (let w = writer c; gs = goroutines c; closers = sum_of before_collect gs in
       wg w = sum_of in_wg gs
       \<and> 0 \<le> flushRows w
       \<and> (flushRows w = 0 \<longrightarrow> buf w = []) \<and> (flushRows w > 0 \<longrightarrow> int (length (buf w)) < flushRows w)
       \<and> (closed w \<longrightarrow> buf w = [])
       \<and> closers + sum_of after_collect gs \<le> 1
       \<and> (\<not> closed w \<longrightarrow> closers + sum_of after_collect gs = 0 \<and> sum_of past_wait gs = 0)
       \<and> (sum_of past_wait gs > 0 \<longrightarrow> wg w = 0)
       \<and> (closed w \<and> closers = 0 \<longrightarrow> wg w = 0 \<and> pending w = []))"

lemma step_writer: "step c c' \<Longrightarrow> writer_ok c \<Longrightarrow> writer_ok c'"
proof (induction rule: step.induct)
  case (write_buffered c i rows r w)
  then show ?case
    by (auto simp: writer_ok_def Let_def sum_of_split dest!: WriteRows_enter_WReturn)
next
  case (write_refused c i rows e w)
  then show ?case
    by (auto simp: writer_ok_def Let_def sum_of_split dest!: WriteRows_enter_WReturn)
next
  case (bind c i schema r w)
  then show ?case by (auto simp: writer_ok_def Let_def sum_of_split dest!: BindSchema_eq)
qed (auto simp: writer_ok_def Let_def sum_of_split critical_sections)

lemma start_ok: "0 \<le> n \<Longrightarrow> rows_accounted (start n k) \<and> failures_accounted (start n k) \<and> writer_ok (start n k)"
  by (simp add: start_def new_LoadJobsWriter_def rows_accounted_def failures_accounted_def writer_ok_def sum_of_replicate)

lemma reachable_ok:
  assumes "reachable n k c" and "0 \<le> n"
  shows "rows_accounted c \<and> failures_accounted c \<and> writer_ok c"
  using assms
  by (induction rule: reachable.induct) (use start_ok step_rows step_failures step_writer in blast)+

lemma step_flushRows: "step c c' \<Longrightarrow> flushRows (writer c') = flushRows (writer c)"
  by (induction rule: step.induct)
    (auto simp: critical_sections dest!: WriteRows_enter_WReturn BindSchema_eq)

lemma reachable_flushRows: "reachable n k c \<Longrightarrow> flushRows (writer c) = n"
  by (induction rule: reachable.induct) (auto simp: start_def new_LoadJobsWriter_def step_flushRows)

lemma step_goroutines: "step c c' \<Longrightarrow> length (goroutines c') = length (goroutines c)"
  by (induction rule: step.induct) auto

lemma sum_of_zero: "sum_of f gs = (0::nat) \<longleftrightarrow> (\<forall>g\<in>set gs. f g = 0)"
  by (induction gs) (auto simp: sum_of_def)

lemma sum_of_idle: "\<forall>g\<in>set gs. g = Idle \<Longrightarrow> f Idle = 0 \<Longrightarrow> sum_of f gs = 0"
  by (induction gs) (auto simp: sum_of_def)

lemma doing_mem: "doing c i g \<Longrightarrow> g \<in> set (goroutines c)"
  by (auto simp: doing_def)

lemma mem_doing: "g \<in> set (goroutines c) \<Longrightarrow> \<exists>i. doing c i g"
  by (auto simp: doing_def in_set_conv_nth)

abbreviation steps :: "config \<Rightarrow> config \<Rightarrow> bool" where
  "steps \<equiv> step\<^sup>*\<^sup>*"

lemma reachable_steps: "steps c c' \<Longrightarrow> reachable n k c \<Longrightarrow> reachable n k c'"
  by (induction rule: rtranclp_induct) (auto intro: reachable.later)

text \<open>
  Only a writer without a buffer loads rows on the spot. Once no call of \<open>Close\<close> waits any more
  on a closed writer, none ever will again.
\<close>

fun on_the_spot :: "goroutine \<Rightarrow> bool" where
  "on_the_spot (Direct rows schema) \<longleftrightarrow> True"
| "on_the_spot g \<longleftrightarrow> False"

fun waits :: "goroutine \<Rightarrow> bool" where
  "waits (Waiting batch schema) \<longleftrightarrow> True"
| "waits g \<longleftrightarrow> False"

definition directs_ok :: "config \<Rightarrow> bool" where
  "directs_ok c \<longleftrightarrow> (\<forall>g\<in>set (goroutines c). on_the_spot g \<longrightarrow> flushRows (writer c) = 0)"

definition past_close :: "config \<Rightarrow> bool" where
  "past_close c \<longleftrightarrow> closed (writer c) \<and> (\<forall>g\<in>set (goroutines c). \<not> waits g)"

lemma set_updated: "x \<in> set (xs[i := y]) \<Longrightarrow> x = y \<or> x \<in> set xs"
  using set_update_subset_insert by fastforce

lemma step_directs:
  assumes "step c c'" and "directs_ok c"
  shows "directs_ok c'"
proof -
  have kept: "flushRows (writer c') = flushRows (writer c)" by (rule step_flushRows[OF assms(1)])
  from assms(1,2) have "\<forall>g\<in>set (goroutines c'). on_the_spot g \<longrightarrow> flushRows (writer c) = 0"
    by (induction rule: step.induct)
      (auto simp: directs_ok_def critical_sections dest!: set_updated)
  with kept show ?thesis by (simp add: directs_ok_def)
qed

lemma reachable_directs: "reachable n k c \<Longrightarrow> directs_ok c"
  by (induction rule: reachable.induct) (simp add: start_def directs_ok_def, rule step_directs)

lemma step_past_close: "step c c' \<Longrightarrow> past_close c \<Longrightarrow> past_close c'"
  by (induction rule: step.induct)
    (auto simp: past_close_def critical_sections dest!: set_updated WriteRows_enter_WReturn BindSchema_eq)

lemma steps_past_close: "steps c c' \<Longrightarrow> past_close c \<Longrightarrow> past_close c'"
  by (induction rule: rtranclp_induct) (auto intro: step_past_close)

lemma past_close_wg:
  assumes "writer_ok c" and "past_close c"
  shows "wg (writer c) = 0" and "sum_of in_wg (goroutines c) = 0" and "buf (writer c) = []"
proof -
  have "wg (writer c) = 0"
  proof (cases "sum_of past_wait (goroutines c) > 0")
    case True
    with assms show ?thesis by (simp add: writer_ok_def Let_def)
  next
    case False
    then have "\<forall>g\<in>set (goroutines c). past_wait g = 0 \<and> \<not> waits g"
      using assms(2) by (simp add: sum_of_zero past_close_def)
    moreover have "past_wait g = 0 \<Longrightarrow> \<not> waits g \<Longrightarrow> before_collect g = 0" for g by (cases g) simp_all
    ultimately have "\<forall>g\<in>set (goroutines c). before_collect g = 0" by blast
    then have "sum_of before_collect (goroutines c) = 0" by (simp add: sum_of_zero)
    with assms show ?thesis by (simp add: writer_ok_def Let_def past_close_def)
  qed
  with assms show "wg (writer c) = 0" "sum_of in_wg (goroutines c) = 0" "buf (writer c) = []"
    by (simp_all add: writer_ok_def Let_def past_close_def)
qed

text \<open>A call of \<open>Close\<close> past its wait: it is the only one at work, and nobody waits.\<close>

lemma closing_alone:
  assumes "writer_ok c" and "doing c i g" and "past_wait g = 1"
  shows "past_close c" and "doing c j h \<Longrightarrow> j \<noteq> i \<Longrightarrow> before_collect h = 0 \<and> after_collect h = 0"
proof -
  have i: "i < length (goroutines c)" "goroutines c ! i = g" using assms(2) by (simp_all add: doing_def)
  let ?f = "\<lambda>g. before_collect g + after_collect g"
  have "sum_of ?f (goroutines c) = sum_of before_collect (goroutines c) + sum_of after_collect (goroutines c)"
    unfolding sum_of_def by (rule sum_list_addf)
  then have "sum_of ?f (goroutines c) \<le> 1" using assms(1) by (simp add: writer_ok_def Let_def)
  moreover have "?f g = 1" using assms(3) by (cases g) simp_all
  ultimately have "sum_of ?f (others i (goroutines c)) = 0" by (simp add: sum_of_split[OF assms(2)])
  then have rest: "\<forall>h\<in>set (others i (goroutines c)). ?f h = 0" by (simp add: sum_of_zero)
  have other: "before_collect h = 0 \<and> after_collect h = 0" if "doing c j h" "j \<noteq> i" for j h
  proof -
    have j: "j < length (goroutines c)" "goroutines c ! j = h" using that(1) by (simp_all add: doing_def)
    have "h \<in> set (others i (goroutines c))"
    proof (cases "j < i")
      case True
      then have "take i (goroutines c) ! j = h" "j < length (take i (goroutines c))" using i j by simp_all
      then show ?thesis unfolding others_def by (metis nth_mem set_append UnI1)
    next
      case False
      with that(2) have "drop (Suc i) (goroutines c) ! (j - Suc i) = h" "j - Suc i < length (drop (Suc i) (goroutines c))"
        using i j by simp_all
      then show ?thesis unfolding others_def by (metis nth_mem set_append UnI2)
    qed
    with rest show ?thesis by auto
  qed
  then show "doing c j h \<Longrightarrow> j \<noteq> i \<Longrightarrow> before_collect h = 0 \<and> after_collect h = 0" .
  have "sum_of past_wait (goroutines c) > 0" using assms(3) by (simp add: sum_of_split[OF assms(2)])
  then have "closed (writer c)" using assms(1) by (auto simp: writer_ok_def Let_def)
  moreover have "\<not> waits h" if h: "h \<in> set (goroutines c)" for h
  proof -
    obtain j where j: "doing c j h" using mem_doing[OF h] ..
    show ?thesis
    proof (cases "j = i")
      case True
      with j i have "h = g" by (simp add: doing_def)
      with assms(3) show ?thesis by (cases g) simp_all
    next
      case False
      with other[OF j] show ?thesis by (cases h) simp_all
    qed
  qed
  ultimately show "past_close c" by (simp add: past_close_def)
qed

section \<open>Properties\<close>

text \<open>
  C2: whatever the interleaving, a closed writer that no goroutine is in any more has lost no
  row without a word: every row it took has either landed or failed, and the rows that failed
  are as many as the calls' errors say, each counted by exactly one of them; nothing is left in
  the buffer, in flight or unreported.
\<close>

theorem closed_writer_reported_every_row:
  assumes "reachable n k c" and "0 \<le> n" and "closed (writer c)" and "\<forall>g\<in>set (goroutines c). g = Idle"
  shows "mset (taken c) = mset (landed c) + mset (failed c)
    \<and> length (failed c) = sum_list (map reported (results c))
    \<and> buf (writer c) = [] \<and> pending (writer c) = [] \<and> wg (writer c) = 0"
  using reachable_ok[OF assms(1,2)] assms(3)
  by (auto simp: rows_accounted_def failures_accounted_def writer_ok_def Let_def sum_of_idle[OF assms(4)])

text \<open>
  C17: while a call of \<open>Close\<close> is past its wait, no submission that a full buffer or \<open>FlushRows\<close>
  started is in flight, and none ever will be again: the writer is closed, its buffer is empty,
  what \<open>Close\<close> is about to report is final, and every other goroutine is out of its call. The one
  exception is a writer that buffers nothing: there \<open>WriteRows\<close> may still be loading the rows of
  its own call, which \<open>Close\<close> does not wait for and whose outcome that call returns.
\<close>

theorem Close_outlasts_submissions:
  assumes "reachable n k c" and "0 \<le> n" and "doing c i (Waited batch schema) \<or> doing c i (Closing batch schema held)"
  shows "wg (writer c) = 0 \<and> closed (writer c) \<and> buf (writer c) = []
    \<and> (doing c i (Closing batch schema held) \<longrightarrow> pending (writer c) = [])
    \<and> (\<forall>j g. doing c j g \<and> j \<noteq> i \<longrightarrow> g = Idle \<or> n = 0 \<and> (\<exists>rows schema. g = Direct rows schema))
    \<and> (\<forall>c' g. steps c c' \<and> g \<in> set (goroutines c') \<longrightarrow> in_wg g = 0)"
proof -
  note ok = reachable_ok[OF assms(1,2), THEN conjunct2, THEN conjunct2]
  obtain g where g: "doing c i g" "past_wait g = 1" using assms(3) by fastforce
  note alone = closing_alone[OF ok g]
  note quiet = past_close_wg[OF ok alone(1)]
  have pending: "pending (writer c) = []" if "doing c i (Closing batch schema held)"
    using ok that alone(1) by (auto simp: writer_ok_def Let_def past_close_def sum_of_split[OF that])
  have others: "h = Idle \<or> n = 0 \<and> (\<exists>rows schema. h = Direct rows schema)" if h: "doing c j h" "j \<noteq> i" for j h
  proof -
    have "in_wg h = 0" using quiet(2) doing_mem[OF h(1)] by (simp add: sum_of_zero)
    moreover have "on_the_spot h \<longrightarrow> n = 0"
      using reachable_directs[OF assms(1)] reachable_flushRows[OF assms(1)] doing_mem[OF h(1)] by (auto simp: directs_ok_def)
    ultimately show ?thesis using alone(2)[OF h] by (cases h) simp_all
  qed
  have later: "in_wg h = 0" if "steps c c'" "h \<in> set (goroutines c')" for c' h
  proof -
    have "writer_ok c'" using reachable_ok[OF reachable_steps[OF that(1) assms(1)] assms(2)] by blast
    from past_close_wg(2)[OF this steps_past_close[OF that(1) alone(1)]] that(2) show ?thesis by (simp add: sum_of_zero)
  qed
  show ?thesis using quiet alone(1) pending others later unfolding past_close_def by blast
qed

section \<open>Whole operations as runs\<close>

text \<open>A configuration reached by steps whose last effect is that a call returned.\<close>

definition returned_to :: "config \<Rightarrow> returned \<Rightarrow> LoadJobsWriter \<Rightarrow> config \<Rightarrow> bool" where
  "returned_to c r w c' \<longleftrightarrow>
     steps c c' \<and> writer c' = w \<and> goroutines c' = goroutines c \<and> results c' = results c @ [r]"

lemma doing_goes: "doing c i g \<Longrightarrow> doing (goes i g' w c) i g'"
  by (simp add: doing_def)

lemma doing_settle [simp]: "doing (settle rows err c) i g \<longleftrightarrow> doing c i g"
  and doing_takes [simp]: "doing (takes rows c) i g \<longleftrightarrow> doing c i g"
  by (simp_all add: doing_def)

lemma idle_back: "doing c i Idle \<Longrightarrow> (goroutines c)[i := Idle] = goroutines c"
  by (metis doing_def list_update_id)

lemma run_WriteRows:
  assumes i: "doing c i Idle" and op: "LoadJobsWriter_WriteRows ld rows (writer c, s) = (r, w', s')"
  shows "\<exists>c'. returned_to c (WroteRows rows r) w' c'"
proof (cases "WriteRows_enter rows (writer c)")
  case (Pair entered w)
  show ?thesis
  proof (cases entered)
    case (WReturn r')
    with op Pair have eq: "r' = r" "w = w'" by (simp_all add: LoadJobsWriter_WriteRows_def)
    show ?thesis
    proof (cases r)
      case (Inl e)
      with step.write_refused[OF i, of rows e w] Pair WReturn eq i show ?thesis
        by (intro exI[of _ "returns i (WroteRows rows (Inl e)) w c"]) (auto simp: returned_to_def idle_back)
    next
      case (Inr res)
      with step.write_buffered[OF i, of rows res w] Pair WReturn eq i show ?thesis
        by (intro exI[of _ "takes rows (returns i (WroteRows rows (Inr res)) w c)"]) (auto simp: returned_to_def idle_back)
    qed
  next
    case (WDirect schema)
    obtain err s1 where ld: "ld rows schema s = (err, s1)" by force
    with op Pair WDirect have eq: "r = Inr (WriteRows_direct rows err)" "w' = w"
      by (simp_all add: LoadJobsWriter_WriteRows_def)
    let ?c1 = "takes rows (goes i (Direct rows schema) w c)"
    have "step c ?c1" using step.write_direct[OF i] Pair WDirect by simp
    moreover have "step ?c1 (settle rows err (returns i (WroteRows rows r) w ?c1))"
      using step.direct_loaded[of ?c1 i rows schema err] i eq by (simp add: doing_goes)
    ultimately have "steps c (settle rows err (returns i (WroteRows rows r) w ?c1))" by simp
    then show ?thesis using eq i by (auto simp: returned_to_def idle_back)
  next
    case (WBatch batch schema)
    obtain err s1 where ld: "ld batch schema s = (err, s1)" by force
    with op Pair WBatch have eq: "r = Inr (ResolvedResult (length rows) None)"
      "w' = wg_Done (WriteRows_record batch err w)"
      by (simp_all add: LoadJobsWriter_WriteRows_def)
    let ?c1 = "takes rows (goes i (Batch rows batch schema) w c)"
    let ?c2 = "settle batch err (goes i (Recorded rows) (WriteRows_record batch err w) ?c1)"
    have "step c ?c1" using step.write_batch[OF i] Pair WBatch by simp
    moreover have "step ?c1 ?c2"
      using step.batch_loaded[of ?c1 i rows batch schema err] i by (simp add: doing_goes)
    moreover have "doing ?c1 i (Batch rows batch schema)" using i by (simp add: doing_goes)
    then have "step ?c2 (returns i (WroteRows rows r) w' ?c2)"
      using step.batch_done[of ?c2 i rows] eq doing_goes by simp
    ultimately have "steps c (returns i (WroteRows rows r) w' ?c2)" by simp
    then show ?thesis using i by (auto simp: returned_to_def idle_back)
  qed
qed

lemma run_FlushRows:
  assumes i: "doing c i Idle" and op: "LoadJobsWriter_FlushRows ld (writer c, s) = (r, w', s')"
  shows "\<exists>c'. returned_to c (FlushedRows r) w' c'"
proof (cases "FlushRows_enter (writer c)")
  case (Pair entered w)
  show ?thesis
  proof (cases entered)
    case (Inl e)
    with op Pair have "r = Inl e" "w' = w" by (simp_all add: LoadJobsWriter_FlushRows_def)
    with step.flush_refused[OF i, of e w] Pair Inl i show ?thesis
      by (intro exI[of _ "returns i (FlushedRows (Inl e)) w c"]) (auto simp: returned_to_def idle_back)
  next
    case (Inr taken)
    obtain batch schema held where taken: "taken = (batch, schema, held)" by (cases taken)
    show ?thesis
    proof (cases "batch = []")
      case True
      with op Pair Inr taken have "r = Inr (FlushRows_result [] held None)" "w' = w"
        by (simp_all add: LoadJobsWriter_FlushRows_def)
      with step.flush_nothing[OF i, of schema held w] Pair Inr taken True i show ?thesis
        by (intro exI[of _ "returns i (FlushedRows r) w c"]) (auto simp: returned_to_def idle_back)
    next
      case False
      obtain err s1 where ld: "ld batch schema s = (err, s1)" by force
      with op Pair Inr taken False have eq: "r = Inr (FlushRows_result batch held err)" "w' = wg_Done w"
        by (simp_all add: LoadJobsWriter_FlushRows_def)
      let ?c1 = "goes i (Flushing batch schema held) w c"
      let ?c2 = "settle batch err (goes i (Flushed (FlushRows_result batch held err)) w ?c1)"
      have "step c ?c1" using step.flush_batch[OF i] Pair Inr taken False by simp
      moreover have "step ?c1 ?c2"
        using step.flush_loaded[of ?c1 i batch schema held err] i by (simp add: doing_goes)
      moreover have "doing ?c1 i (Flushing batch schema held)" using i by (simp add: doing_goes)
      then have "step ?c2 (returns i (FlushedRows r) w' ?c2)"
        using step.flush_done[of ?c2 i "FlushRows_result batch held err"] eq doing_goes by simp
      ultimately have "steps c (returns i (FlushedRows r) w' ?c2)" by simp
      then show ?thesis using i by (auto simp: returned_to_def idle_back)
    qed
  qed
qed

lemma run_Close:
  assumes i: "doing c i Idle" and quiet: "wg (writer c) = 0"
    and op: "LoadJobsWriter_Close ld (writer c, s) = (r, w', s')"
  shows "\<exists>c'. returned_to c (ClosedWriter r) w' c'"
proof (cases "closed (writer c)")
  case True
  with op have "Close_enter (writer c) = (None, w')" "r = None"
    by (simp_all add: LoadJobsWriter_Close_def Close_enter_def)
  with step.close_again[OF i, of w'] i show ?thesis
    by (intro exI[of _ "returns i (ClosedWriter None) w' c"]) (auto simp: returned_to_def idle_back)
next
  case False
  define w where "w = writer c\<lparr>closed := True, buf := []\<rparr>"
  let ?b = "buf (writer c)" and ?s = "schema_of (writer c)" and ?h = "pending (writer c)"
  obtain err s1 where ld: "ld ?b ?s s = (err, s1)" by force
  have eq: "w' = w\<lparr>pending := []\<rparr>" "r = Close_result ?b ?h (if ?b = [] then None else err)"
    using op False ld
    by (auto simp: LoadJobsWriter_Close_def Close_enter_def Close_collect_def w_def split: if_splits)
  let ?c1 = "goes i (Waiting ?b ?s) w c"
  let ?c2 = "goes i (Waited ?b ?s) w ?c1"
  let ?c3 = "goes i (Closing ?b ?s ?h) w' ?c2"
  have d1: "doing ?c1 i (Waiting ?b ?s)" using i by (rule doing_goes)
  have d2: "doing ?c2 i (Waited ?b ?s)" using d1 by (rule doing_goes)
  have d3: "doing ?c3 i (Closing ?b ?s ?h)" using d2 by (rule doing_goes)
  have "step c ?c1"
    using step.close_first[OF i] False by (simp add: Close_enter_def w_def)
  moreover have "step ?c1 ?c2" using step.close_wait[OF d1] quiet by (simp add: w_def)
  moreover have "step ?c2 ?c3"
    using step.close_collect[OF d2] eq(1) by (simp add: Close_collect_def w_def)
  ultimately have "steps c ?c3" by simp
  moreover have "\<exists>c'. step ?c3 c' \<and> writer c' = w' \<and> goroutines c' = goroutines c \<and> results c' = results c @ [ClosedWriter r]"
  proof (cases "?b = []")
    case True
    then show ?thesis using step.close_nothing[of ?c3 i ?s ?h] d3 eq i
      by (intro exI[of _ "returns i (ClosedWriter r) w' ?c3"]) (auto simp: idle_back)
  next
    case False
    then show ?thesis using step.close_loaded[OF d3 False, of err] eq i
      by (intro exI[of _ "settle ?b err (returns i (ClosedWriter r) w' ?c3)"]) (auto simp: idle_back)
  qed
  ultimately obtain c' where "steps c ?c3" "step ?c3 c'" and c': "writer c' = w'" "goroutines c' = goroutines c"
    "results c' = results c @ [ClosedWriter r]" by blast
  then have "steps c c'" by (metis rtranclp.rtrancl_into_rtrancl)
  with c' show ?thesis unfolding returned_to_def by blast
qed

text \<open>
  Each operation, as one goroutine runs it with nothing in between, is a run of the
  interleaved semantics with the same effect on the writer and the same result.
\<close>

theorem operations_are_runs:
  assumes "doing c i Idle"
  shows "(\<forall>ld s rows r w s'. LoadJobsWriter_WriteRows ld rows (writer c, s) = (r, w, s')
        \<longrightarrow> (\<exists>c'. returned_to c (WroteRows rows r) w c'))
    \<and> (\<forall>ld s r w s'. LoadJobsWriter_FlushRows ld (writer c, s) = (r, w, s')
        \<longrightarrow> (\<exists>c'. returned_to c (FlushedRows r) w c'))
    \<and> (\<forall>ld s r w s'. wg (writer c) = 0 \<and> LoadJobsWriter_Close ld (writer c, s) = (r, w, s')
        \<longrightarrow> (\<exists>c'. returned_to c (ClosedWriter r) w c'))"
  by (auto intro: run_WriteRows[OF assms] run_FlushRows[OF assms] run_Close[OF assms])

text \<open>A run: two rows fill a buffer of two, their load fails, and \<open>Close\<close> reports them.\<close>

definition failing_load :: "Row list \<Rightarrow> Schema \<Rightarrow> unit \<Rightarrow> gerr option \<times> unit" where
  "failing_load rows schema s = (Some (EApi 400), s)"

definition sample_rows :: "Row list" where
  "sample_rows = [\<lparr>row_ID = ''1'', row_Values = []\<rparr>, \<lparr>row_ID = ''2'', row_Values = []\<rparr>]"

definition sample_schema :: Schema where
  "sample_schema = [FieldSchema ''a'' StringFieldType False False [] 0 []]"

definition bound :: config where
  "bound = goes 0 Idle ((new_LoadJobsWriter 2)\<lparr>bound_schema := Some sample_schema\<rparr>) (start 2 1)"

lemma bound_reachable: "reachable 2 1 bound"
proof -
  have "step (start 2 1) bound"
    unfolding bound_def
    by (rule step.bind[where schema = sample_schema and r = None])
      (simp_all add: doing_def start_def BindSchema_def sample_schema_def new_LoadJobsWriter_def)
  then show ?thesis by (rule reachable.later[OF reachable.initial])
qed

lemma bound_sel: "writer bound = (new_LoadJobsWriter 2)\<lparr>bound_schema := Some sample_schema\<rparr>"
  "goroutines bound = [Idle]" "results bound = []"
  by (simp_all add: bound_def start_def)

lemma sample_write:
  "LoadJobsWriter_WriteRows failing_load sample_rows (writer bound, ())
     = (Inr (2, None), (writer bound)\<lparr>pending := [did_not_land sample_rows (EApi 400)]\<rparr>, ())"
  by (simp add: LoadJobsWriter_WriteRows_def WriteRows_enter_def bound_sel new_LoadJobsWriter_def
      sample_rows_def failing_load_def WriteRows_record_def wg_Done_def ResolvedResult_def)

lemma sample_close:
  "LoadJobsWriter_Close failing_load ((writer bound)\<lparr>pending := [did_not_land sample_rows (EApi 400)]\<rparr>, ())
     = (Some (EJoin [did_not_land sample_rows (EApi 400)]), (writer bound)\<lparr>closed := True\<rparr>, ())"
  by (simp add: LoadJobsWriter_Close_def Close_enter_def Close_collect_def Close_result_def bound_sel
      new_LoadJobsWriter_def errors_Join_def List.map_filter_def)

lemma sample_run:
  "\<exists>c. reachable 2 1 c \<and> closed (writer c) \<and> goroutines c = [Idle]
     \<and> results c = [WroteRows sample_rows (Inr (2, None)), ClosedWriter (Some (EJoin [did_not_land sample_rows (EApi 400)]))]"
proof -
  have "doing bound 0 Idle" by (simp add: doing_def bound_sel)
  from run_WriteRows[OF this sample_write] obtain c1 where c1: "steps bound c1" "goroutines c1 = [Idle]"
    "writer c1 = (writer bound)\<lparr>pending := [did_not_land sample_rows (EApi 400)]\<rparr>"
    "results c1 = [WroteRows sample_rows (Inr (2, None))]"
    by (auto simp: returned_to_def bound_sel)
  then have "doing c1 0 Idle" "wg (writer c1) = 0" by (simp_all add: doing_def bound_sel new_LoadJobsWriter_def)
  from run_Close[OF this sample_close[folded c1(3)]] obtain c2 where c2: "steps c1 c2" "goroutines c2 = [Idle]"
    "writer c2 = (writer bound)\<lparr>closed := True\<rparr>"
    "results c2 = [WroteRows sample_rows (Inr (2, None)), ClosedWriter (Some (EJoin [did_not_land sample_rows (EApi 400)]))]"
    by (auto simp: returned_to_def c1)
  have "reachable 2 1 c2"
    using reachable_steps[OF c2(1) reachable_steps[OF c1(1) bound_reachable]] .
  with c2 show ?thesis by auto
qed

theorem closed_writer_reported_every_row_witness:
  "\<exists>c. reachable 2 1 c \<and> length (failed c) = 2 \<and> buf (writer c) = []"
proof -
  obtain c where c: "reachable 2 1 c" "closed (writer c)" "\<forall>g\<in>set (goroutines c). g = Idle"
    "results c = [WroteRows sample_rows (Inr (2, None)), ClosedWriter (Some (EJoin [did_not_land sample_rows (EApi 400)]))]"
    using sample_run by auto
  from closed_writer_reported_every_row[OF c(1) _ c(2,3)] c(1,4) show ?thesis
    by (auto simp: sample_rows_def)
qed

text \<open>
  Two goroutines on a writer without a buffer: one loads its rows, the other is in \<open>Close\<close>, past
  the wait. The load is no submission \<open>Close\<close> waits for.
\<close>

definition unbuffered :: LoadJobsWriter where
  "unbuffered = (new_LoadJobsWriter 0)\<lparr>bound_schema := Some sample_schema\<rparr>"

definition loading :: config where
  "loading = takes sample_rows (goes 0 (Direct sample_rows sample_schema) unbuffered
     (goes 0 Idle unbuffered (start 0 2)))"

definition closing_while_loading :: config where
  "closing_while_loading = goes 1 (Closing [] sample_schema []) (unbuffered\<lparr>closed := True\<rparr>)
     (goes 1 (Waited [] sample_schema) (unbuffered\<lparr>closed := True\<rparr>)
       (goes 1 (Waiting [] sample_schema) (unbuffered\<lparr>closed := True\<rparr>) loading))"

lemma loading_reachable: "reachable 0 2 loading"
proof -
  let ?b = "goes 0 Idle unbuffered (start 0 2)"
  have "step (start 0 2) ?b"
    by (rule step.bind[where schema = sample_schema and r = None])
      (simp_all add: doing_def start_def BindSchema_def sample_schema_def new_LoadJobsWriter_def unbuffered_def)
  moreover have "step ?b loading"
    unfolding loading_def
    by (rule step.write_direct)
      (simp_all add: doing_def start_def WriteRows_enter_WDirect unbuffered_def new_LoadJobsWriter_def sample_rows_def)
  ultimately show ?thesis by (blast intro: reachable.later reachable.initial)
qed

lemma closing_while_loading_reachable: "reachable 0 2 closing_while_loading"
proof -
  let ?w = "unbuffered\<lparr>closed := True\<rparr>"
  let ?c1 = "goes 1 (Waiting [] sample_schema) ?w loading"
  let ?c2 = "goes 1 (Waited [] sample_schema) ?w ?c1"
  have d: "doing loading 1 Idle" by (simp add: doing_def loading_def start_def)
  have "step loading ?c1"
    by (rule step.close_first[OF d])
      (simp add: Close_enter_Some loading_def unbuffered_def new_LoadJobsWriter_def schema_of_def)
  moreover have "step ?c1 ?c2"
    using step.close_wait[OF doing_goes[OF d]] by (simp add: unbuffered_def new_LoadJobsWriter_def)
  moreover have "step ?c2 closing_while_loading"
    unfolding closing_while_loading_def
    by (rule step.close_collect[OF doing_goes[OF doing_goes[OF d]]])
      (simp add: Close_collect_eq unbuffered_def new_LoadJobsWriter_def)
  ultimately show ?thesis using loading_reachable by (blast intro: reachable.later)
qed

theorem Close_outlasts_submissions_witness:
  "wg (writer closing_while_loading) = 0 \<and> pending (writer closing_while_loading) = []
    \<and> doing closing_while_loading 0 (Direct sample_rows sample_schema)"
proof -
  have closing: "doing closing_while_loading 1 (Closing [] sample_schema [])"
    and direct: "doing closing_while_loading 0 (Direct sample_rows sample_schema)"
    by (simp_all add: closing_while_loading_def loading_def doing_def start_def)
  from Close_outlasts_submissions[OF closing_while_loading_reachable _ disjI2[OF closing]] closing direct
  show ?thesis by simp
qed

theorem operations_are_runs_witness:
  "\<exists>c. returned_to bound (WroteRows sample_rows (Inr (2, None))) ((writer bound)\<lparr>pending := [did_not_land sample_rows (EApi 400)]\<rparr>) c"
proof -
  have idle: "doing bound 0 Idle" by (simp add: doing_def bound_sel)
  show ?thesis using operations_are_runs[OF idle, THEN conjunct1, rule_format, OF sample_write] .
qed

text \<open>
  The rows a writer holds back stay below its limit, at every moment: fewer than
  \<open>FlushRows\<close> where it is set, and none where it is not.
\<close>

theorem buffer_below_limit:
  assumes "reachable n k c" and "0 \<le> n"
  shows "int (length (buf (writer c))) < max n 1"
  using reachable_ok[OF assms] reachable_flushRows[OF assms(1)] assms(2)
  by (cases "n = 0") (auto simp: writer_ok_def Let_def)

theorem buffer_below_limit_witness: "int (length (buf (writer bound))) < 2"
  using buffer_below_limit[OF bound_reachable] by simp

section \<open>Every call can return\<close>

fun work :: "goroutine \<Rightarrow> nat" where
  "work Idle = 0"
| "work (Direct rows schema) = 1"
| "work (Batch rows batch schema) = 2"
| "work (Recorded rows) = 1"
| "work (Flushing batch schema held) = 2"
| "work (Flushed r) = 1"
| "work (Waiting batch schema) = 3"
| "work (Waited batch schema) = 2"
| "work (Closing batch schema held) = 1"

lemma decreases:
  assumes "doing c i g" and "step c c'" and "goroutines c' = (goroutines c)[i := g']" and "work g' < work g"
  shows "\<exists>c'. step c c' \<and> sum_of work (goroutines c') < sum_of work (goroutines c)"
  using assms(2-4) by (intro exI[of _ c'] conjI) (simp_all add: sum_of_split[OF assms(1)])

lemma progress:
  assumes ok: "writer_ok c" and "\<exists>g\<in>set (goroutines c). g \<noteq> Idle"
  shows "\<exists>c'. step c c' \<and> sum_of work (goroutines c') < sum_of work (goroutines c)"
proof (cases "\<exists>g\<in>set (goroutines c). g \<noteq> Idle \<and> \<not> (\<exists>b s. g = Waiting b s)")
  case True
  then obtain i g where i: "doing c i g" and g: "g \<noteq> Idle" "\<not> (\<exists>b s. g = Waiting b s)"
    using mem_doing by blast
  show ?thesis
  proof (cases g)
    case (Direct rows schema)
    show ?thesis by (rule decreases[OF i step.direct_loaded[OF i[unfolded Direct], of None]]) (simp, simp add: Direct)
  next
    case (Batch rows batch schema)
    show ?thesis by (rule decreases[OF i step.batch_loaded[OF i[unfolded Batch], of None]]) (simp, simp add: Batch)
  next
    case (Recorded rows)
    show ?thesis by (rule decreases[OF i step.batch_done[OF i[unfolded Recorded]]]) (simp, simp add: Recorded)
  next
    case (Flushing batch schema held)
    show ?thesis by (rule decreases[OF i step.flush_loaded[OF i[unfolded Flushing], of None]]) (simp, simp add: Flushing)
  next
    case (Flushed r)
    show ?thesis by (rule decreases[OF i step.flush_done[OF i[unfolded Flushed]]]) (simp, simp add: Flushed)
  next
    case (Waited batch schema)
    show ?thesis by (rule decreases[OF i step.close_collect[OF i[unfolded Waited] prod.collapse[symmetric]]])
      (simp, simp add: Waited)
  next
    case (Closing batch schema held)
    show ?thesis
    proof (cases "batch = []")
      case True
      note i' = i[unfolded Closing True]
      show ?thesis by (rule decreases[OF i' step.close_nothing[OF i']]) (simp, simp)
    next
      case False
      show ?thesis by (rule decreases[OF i step.close_loaded[OF i[unfolded Closing] False, of None]]) (simp, simp add: Closing)
    qed
  qed (use g in auto)
next
  case False
  then have "\<forall>g\<in>set (goroutines c). in_wg g = 0" by force
  then have wg: "wg (writer c) = 0"
    using ok by (simp add: writer_ok_def Let_def sum_of_zero)
  from False assms(2) obtain i b s where i: "doing c i (Waiting b s)" using mem_doing by metis
  show ?thesis by (rule decreases[OF i step.close_wait[OF i wg]]) (simp, simp)
qed

text \<open>
  C18: no call blocks for ever, as long as the loads it makes end: from every reachable
  configuration all goroutines, those waiting in \<open>Close\<close> included, can finish their calls.
\<close>

theorem every_call_can_return:
  assumes "reachable n k c" and "0 \<le> n"
  shows "\<exists>c'. steps c c' \<and> (\<forall>g\<in>set (goroutines c'). g = Idle)"
  using assms(1)
proof (induction "sum_of work (goroutines c)" arbitrary: c rule: less_induct)
  case less
  show ?case
  proof (cases "\<exists>g\<in>set (goroutines c). g \<noteq> Idle")
    case True
    with progress reachable_ok[OF less.prems assms(2)] obtain c1 where
      c1: "step c c1" "sum_of work (goroutines c1) < sum_of work (goroutines c)" by blast
    with less.hyps[OF c1(2)] less.prems obtain c2 where "steps c1 c2" "\<forall>g\<in>set (goroutines c2). g = Idle"
      using reachable.later by blast
    with c1(1) show ?thesis by (meson converse_rtranclp_into_rtranclp)
  qed auto
qed

text \<open>From the middle of a load, with \<open>Close\<close> not yet through either.\<close>

theorem every_call_can_return_witness:
  "\<exists>c'. steps closing_while_loading c' \<and> (\<forall>g\<in>set (goroutines c'). g = Idle)"
  using every_call_can_return[OF closing_while_loading_reachable] by simp

end
