(* ===== verification/LoadSettings.thy ===== *)
theory LoadSettings
  imports LoadJobsRuns StorageWrite
begin

text \<open>
  The settings of write.go a \<open>LoadJobsWriter\<close> is made from, their check, and \<open>NewWriter\<close>.
\<close>

text \<open>
  \<open>lj_Staging\<close> is nil, or a stager with what its \<open>Validate\<close> returns where it has one.
\<close>

record ('w, 'p) LoadJobs =
  lj_Staging :: "('w stager \<times> gerr option option) option"
  lj_RetryPolicy :: "'p option"
  lj_FlushRows :: int

definition retryPolicy :: "'p \<Rightarrow> ('w, 'p) LoadJobs \<Rightarrow> 'p" where
  "retryPolicy defaultPolicy w = (case lj_RetryPolicy w of None \<Rightarrow> defaultPolicy | Some p \<Rightarrow> p)"

definition LoadJobs_Validate :: "('w, 'p) LoadJobs \<Rightarrow> gerr option" where
  "LoadJobs_Validate w =
     (if lj_FlushRows w < 0 then Some (EMsg (WriterSite (NegativeFlushRows (lj_FlushRows w))))
      else case lj_Staging w of
             Some (stage, Some (Some err)) \<Rightarrow> Some (EWrap (WriterSite InLoadJobs) err)
           | _ \<Rightarrow> None)"

text \<open>
  What \<open>NewWriter\<close> fixes for good, and the writer's state, which the operations change.
\<close>

record ('w, 'p) made_LoadJobsWriter =
  lw_relation :: Relation
  lw_client :: "'w bq_client"
  lw_loader :: "'w jobLoader"
  lw_retryPolicy :: 'p
  lw_state :: LoadJobsWriter

definition LoadJobs_NewWriter :: "'p \<Rightarrow> ('w, 'p) LoadJobs \<Rightarrow> ('w bq_client \<times> (Relation \<Rightarrow> ('w, 'j) load_client)) option \<Rightarrow>
    Relation \<Rightarrow> gerr + ('w, 'p) made_LoadJobsWriter" where
  "LoadJobs_NewWriter defaultPolicy w client relation =
     (case client of
        None \<Rightarrow> Inl (EMsg (WriterSite ClientIsNil))
      | Some (c, loads) \<Rightarrow>
          guarded (validate_relation relation)
            (let relation = in_project (fst c) relation
             in guarded (map_option (EWrap (WriterSite InNewWriter)) (LoadJobs_Validate w))
                  (Inr \<lparr>lw_relation = relation, lw_client = c,
                     lw_loader = (case lj_Staging w of
                        None \<Rightarrow> tableLoader_load (loads relation)
                      | Some (stage, v) \<Rightarrow> stagedLoader_load (loads relation) stage),
                     lw_retryPolicy = retryPolicy defaultPolicy w,
                     lw_state = new_LoadJobsWriter (lj_FlushRows w)\<rparr>)))"

text \<open>The same relation for both transports.\<close>

lemma in_project_valid: "validate_relation (in_project p r) = validate_relation r"
  by (simp add: validate_relation_def in_project_def)

text \<open>
  A writer is made with checked settings only. The writer's relation is a valid one in the
  client's project, where the caller named none, the buffer's limit is a number of rows, and the
  configurations its calls reach are those the writer's own guarantees speak of; and whatever
  stops it is reported before anything is made.
\<close>

theorem LoadJobs_NewWriter_checks:
  "case LoadJobs_NewWriter defaultPolicy settings client relation of
     Inr w \<Rightarrow> validate_relation (lw_relation w) = None
       \<and> lw_relation w = in_project (fst (lw_client w)) relation
       \<and> writer (LoadJobsRuns.start (lj_FlushRows settings) k) = lw_state w \<and> 0 \<le> lj_FlushRows settings
   | Inl e \<Rightarrow> client = None \<or> validate_relation relation = Some e
       \<or> (\<exists>err. LoadJobs_Validate settings = Some err \<and> e = EWrap (WriterSite InNewWriter) err)"
proof (cases client)
  case None
  then show ?thesis by (simp add: LoadJobs_NewWriter_def)
next
  case (Some cl)
  obtain c loads where cl: "cl = (c, loads)" by (cases cl)
  have limit: "0 \<le> lj_FlushRows settings" if "LoadJobs_Validate settings = None"
    using that by (simp add: LoadJobs_Validate_def split: if_splits)
  show ?thesis
    by (cases "validate_relation relation"; cases "LoadJobs_Validate settings")
      (simp_all add: LoadJobs_NewWriter_def Some cl in_project_valid Let_def limit LoadJobsRuns.start_def new_LoadJobsWriter_def)
qed

end
