(* ===== verification/Staging.thy ===== *)
theory Staging
  imports LoadSettings
begin

text \<open>
  bqgcs/staging.go: rows staged as an object in a bucket, read by a load job from its URI, and
  removed when the job is over.
\<close>

section \<open>Cloud Storage\<close>

text \<open>
  The client library: a writer for an object with its content type, writing to it, closing it,
  and deleting an object; and the clock, read in nanoseconds.
\<close>

record ('v, 'h) gcs =
  gcs_NewWriter :: "string \<Rightarrow> string \<Rightarrow> string \<Rightarrow> 'v \<Rightarrow> 'h \<times> 'v"
  gcs_Write :: "'h \<Rightarrow> string \<Rightarrow> 'v \<Rightarrow> gerr option \<times> 'v"
  gcs_CloseWriter :: "'h \<Rightarrow> 'v \<Rightarrow> gerr option \<times> 'v"
  gcs_Delete :: "string \<Rightarrow> string \<Rightarrow> 'v \<Rightarrow> gerr option \<times> 'v"

text \<open>\<open>errors.Is(err, storage.ErrObjectNotExist)\<close>.\<close>

definition is_ErrObjectNotExist :: "gerr \<Rightarrow> bool" where
  "is_ErrObjectNotExist e \<longleftrightarrow> EOther ''storage: object doesn't exist'' \<in> set (error_chain e)"

section \<open>The staging\<close>

text \<open>
  The settings. The counter is an \<open>atomic.Uint64\<close>, part of what a call changes.
\<close>

record ('v, 'h) Staging =
  stg_Client :: "('v, 'h) gcs option"
  stg_Bucket :: string
  stg_Prefix :: string
  stg_Keep :: bool

definition Staging_Validate :: "('v, 'h) Staging \<Rightarrow> gerr option" where
  "Staging_Validate s =
     (if stg_Client s = None then Some (EMsg (StagingSite StagingClientNil))
      else if stg_Bucket s = [] then Some (EMsg (StagingSite StagingBucketEmpty))
      else if has_prefix ''gs://'' (stg_Bucket s) then Some (EMsg (StagingSite (StagingBucketScheme (stg_Bucket s))))
      else None)"

definition objectName :: "string \<Rightarrow> int \<Rightarrow> 64 word \<Rightarrow> string \<times> 64 word" where
  "objectName pre now counter =
     (let counter = counter + 1;
          name = show_int now @ ''-'' @ show_nat (unat counter) @ ''.json''
      in (if pre = [] then name else trim_suffix pre ''/'' @ ''/'' @ name, counter))"

definition object_uri :: "string \<Rightarrow> string \<Rightarrow> string" where
  "object_uri bucket name = ''gs://'' @ bucket @ ''/'' @ name"

definition staging_cleanup :: "('v, 'h) Staging \<Rightarrow> ('v, 'h) gcs \<Rightarrow> string \<Rightarrow> 'v \<Rightarrow> gerr option \<times> 'v" where
  "staging_cleanup s K name v =
     (if stg_Keep s then (None, v)
      else case gcs_Delete K (stg_Bucket s) name v of
             (Some e, v1) \<Rightarrow>
               ((if is_ErrObjectNotExist e then None
                 else Some (EWrap (StagingSite (DeleteObject (object_uri (stg_Bucket s) name))) e)), v1)
           | (None, v1) \<Rightarrow> (None, v1))"

text \<open>\<open>Stage\<close>, with the clock; the error of closing after a failed write is dropped.\<close>

definition Stage :: "('v \<Rightarrow> int \<times> 'v) \<Rightarrow> ('v, 'h) Staging \<Rightarrow> (64 word \<times> 'v) stager" where
  "Stage now s rows = (\<lambda>(counter, v).
     case Staging_Validate s of
       Some e \<Rightarrow> (Inl e, counter, v)
     | None \<Rightarrow>
         (let K = the (stg_Client s);
              (t, v1) = now v;
              (name, counter1) = objectName (stg_Prefix s) t counter;
              uri = object_uri (stg_Bucket s) name;
              (h, v2) = gcs_NewWriter K (stg_Bucket s) name ''application/json'' v1
          in (case gcs_Write K h rows v2 of
                (Some e, v3) \<Rightarrow>
                  (let (cerr, v4) = gcs_CloseWriter K h v3
                   in (Inl (EWrap (StagingSite (WriteObject uri)) e), counter1, v4))
              | (None, v3) \<Rightarrow>
                  (case gcs_CloseWriter K h v3 of
                     (Some e, v4) \<Rightarrow> (Inl (EWrap (StagingSite (FinishObject uri)) e), counter1, v4)
                   | (None, v4) \<Rightarrow> (Inr (uri, Some (on_snd (staging_cleanup s K name))), counter1, v4)))))"

section \<open>Names\<close>

text \<open>The names of calls that read the clock one after another, as the counter goes on.\<close>

fun object_names :: "string \<Rightarrow> int list \<Rightarrow> 64 word \<Rightarrow> string list" where
  "object_names pre [] counter = []"
| "object_names pre (t # ts) counter =
     (let (name, counter1) = objectName pre t counter in name # object_names pre ts counter1)"

lemma dash_digits_inj:
  assumes "s @ ''-'' @ show_nat m @ ''.json'' = t @ ''-'' @ show_nat n @ ''.json''"
  shows "m = n"
proof -
  have digits: "\<forall>c\<in>set (rev (show_nat k)). c \<noteq> CHR ''-''" for k
    using show_nat_digits not_digit by auto
  have cut: "takeWhile (\<lambda>c. c \<noteq> CHR ''-'') (rev (u @ ''-'' @ show_nat k)) = rev (show_nat k)" for u k
    using digits[of k] takeWhile_append2[of "rev (show_nat k)" "\<lambda>c. c \<noteq> CHR ''-''" "CHR ''-'' # rev u"] by simp
  from assms have "s @ ''-'' @ show_nat m = t @ ''-'' @ show_nat n" by simp
  then have "takeWhile (\<lambda>c. c \<noteq> CHR ''-'') (rev (s @ ''-'' @ show_nat m)) = takeWhile (\<lambda>c. c \<noteq> CHR ''-'') (rev (t @ ''-'' @ show_nat n))"
    by (rule arg_cong)
  then have "rev (show_nat m) = rev (show_nat n)" unfolding cut .
  then have "read_nat (show_nat m) = read_nat (show_nat n)" by simp
  then show ?thesis by simp
qed

lemma objectName_counter:
  assumes "fst (objectName pre t c) = fst (objectName pre u d)"
  shows "c = d"
proof -
  have "(show_int t @ ''-'' @ show_nat (unat (c + 1)) @ ''.json'') = (show_int u @ ''-'' @ show_nat (unat (d + 1)) @ ''.json'')"
    using assms by (simp add: objectName_def Let_def split: if_splits)
  from dash_digits_inj[OF this] have "c + 1 = d + 1" by (rule word_unat_eq_iff[THEN iffD2])
  then show ?thesis by simp
qed

lemma object_names_eq:
  "object_names pre ts c = map (\<lambda>i. fst (objectName pre (ts ! i) (c + of_nat i))) [0..<length ts]"
proof (induction ts arbitrary: c)
  case (Cons t ts)
  have "snd (objectName pre t c) = c + 1" by (simp add: objectName_def Let_def)
  then have "object_names pre (t # ts) c = fst (objectName pre t c) # object_names pre ts (c + 1)"
    by (cases "objectName pre t c") simp
  also have "\<dots> = map (\<lambda>i. fst (objectName pre ((t # ts) ! i) (c + of_nat i))) (0 # map Suc [0..<length ts])"
    by (simp add: Cons.IH comp_def ac_simps)
  finally show ?case by (simp add: map_Suc_upt upt_conv_Cons del: upt_Suc)
qed simp

text \<open>
  C20: staged objects never collide. Whatever the clock says, even where it stands still or goes
  back, the objects of one staging have different names as long as its 64-bit counter has not
  come round.
\<close>

theorem object_names_distinct:
  assumes "length ts \<le> 2 ^ 64"
  shows "distinct (object_names pre ts c)"
proof -
  have "i = j" if "i < length ts" "j < length ts"
    "fst (objectName pre (ts ! i) (c + of_nat i)) = fst (objectName pre (ts ! j) (c + of_nat j))" for i j
  proof -
    from objectName_counter[OF that(3)] have "(of_nat i :: 64 word) = of_nat j" by simp
    moreover have "i < 2 ^ 64" "j < 2 ^ 64" using that(1,2) assms by simp_all
    ultimately show "i = j" by (simp add: word_of_nat_eq_iff take_bit_nat_eq_self)
  qed
  then show ?thesis by (auto simp: object_names_eq distinct_map inj_on_def)
qed

theorem object_names_distinct_witness: "distinct (object_names ''staged/'' [5, 5, 4] (- 1))"
  by (rule object_names_distinct) simp

section \<open>The life of a staged object\<close>

text \<open>
  What Cloud Storage's documentation promises, with \<open>objs\<close> the objects there are: an object
  appears, with what was written, when its writer is closed without an error; deleting without
  an error removes it, and deleting what does not exist says so.
\<close>

definition gcs_contract :: "('v, 'h) gcs \<Rightarrow> ('v \<Rightarrow> string \<times> string \<Rightarrow> string option) \<Rightarrow> bool" where
  "gcs_contract K objs \<longleftrightarrow>
     (\<forall>b n ct v. objs (snd (gcs_NewWriter K b n ct v)) = objs v)
     \<and> (\<forall>h d v. objs (snd (gcs_Write K h d v)) = objs v)
     \<and> (\<forall>b n ct v d v2 v3. gcs_Write K (fst (gcs_NewWriter K b n ct v)) d (snd (gcs_NewWriter K b n ct v)) = (None, v2) \<longrightarrow>
          gcs_CloseWriter K (fst (gcs_NewWriter K b n ct v)) v2 = (None, v3) \<longrightarrow> objs v3 = (objs v2)((b, n) \<mapsto> d))
     \<and> (\<forall>b n v v1. gcs_Delete K b n v = (None, v1) \<longrightarrow> objs v1 = (objs v)((b, n) := None))
     \<and> (\<forall>b n v v1 e. gcs_Delete K b n v = (Some e, v1) \<longrightarrow> is_ErrObjectNotExist e \<longrightarrow> objs v1 = objs v \<and> objs v (b, n) = None)"

text \<open>Load jobs and the clock leave the objects alone.\<close>

definition leaves_objects :: "('v \<Rightarrow> string \<times> string \<Rightarrow> string option) \<Rightarrow> ('v \<Rightarrow> int \<times> 'v) \<Rightarrow> (64 word \<times> 'v, 'j) load_client \<Rightarrow> bool" where
  "leaves_objects objs now C \<longleftrightarrow> (\<forall>v. objs (snd (now v)) = objs v)
     \<and> (\<forall>src w. objs (snd (snd (lc_Run C src w))) = objs (snd w)) \<and> (\<forall>j w. objs (snd (snd (lc_Wait C j w))) = objs (snd w))"

lemma runLoader_leaves:
  assumes "leaves_objects objs now C" and "runLoader C src schema env = (err, env')"
  shows "objs (snd (world env')) = objs (snd (world env))"
proof -
  let ?source = "\<lparr>ls_data = src, ls_json = True, ls_schema = schema, ls_WriteDisposition = WriteAppend, ls_CreateDisposition = CreateNever\<rparr>"
  obtain r w1 where r: "lc_Run C ?source (world env) = (r, w1)" by (rule prod.exhaust)
  with assms(1) have run: "objs (snd w1) = objs (snd (world env))" by (metis leaves_objects_def snd_conv)
  show ?thesis
  proof (cases r)
    case (Inl e)
    have "world (snd (runLoader C src schema env)) = w1" using r Inl by (simp add: runLoader_def on_world_def)
    with assms(2) run show ?thesis by simp
  next
    case (Inr j)
    obtain st w2 where st: "lc_Wait C j w1 = (st, w2)" by (rule prod.exhaust)
    with assms(1) run have wait: "objs (snd w2) = objs (snd (world env))" by (metis leaves_objects_def snd_conv)
    have "world (snd (runLoader C src schema env)) = w2"
      using r Inr st by (cases st rule: sum.exhaust; cases "projr st") (simp_all add: runLoader_def on_world_def)
    with assms(2) wait show ?thesis by simp
  qed
qed

lemma Stage_Inr:
  assumes "gcs_contract K objs" and "\<And>v. objs (snd (now v)) = objs v" and "stg_Client s = Some K"
    and "Stage now s rows w = (Inr (uri, cleanup), w')"
  obtains name where "uri = object_uri (stg_Bucket s) name" "cleanup = Some (on_snd (staging_cleanup s K name))"
    "objs (snd w') = (objs (snd w))((stg_Bucket s, name) \<mapsto> rows)"
proof -
  obtain counter v where w: "w = (counter, v)" by (cases w)
  obtain t v1 where t: "now v = (t, v1)" by force
  obtain name counter1 where name: "objectName (stg_Prefix s) t counter = (name, counter1)" by force
  obtain h v2 where h: "gcs_NewWriter K (stg_Bucket s) name ''application/json'' v1 = (h, v2)" by force
  obtain werr v3 where wr: "gcs_Write K h rows v2 = (werr, v3)" by force
  obtain cerr v4 where cl: "gcs_CloseWriter K h v3 = (cerr, v4)" by force
  have ok: "Staging_Validate s = None" using assms(4) w by (cases "Staging_Validate s") (simp_all add: Stage_def)
  have none: "werr = None" "cerr = None"
    using assms(4) by (cases werr; cases cerr; simp add: Stage_def w ok assms(3) t name h wr cl)+
  have eqs: "uri = object_uri (stg_Bucket s) name" "cleanup = Some (on_snd (staging_cleanup s K name))" "w' = (counter1, v4)"
    using assms(4) by (simp_all add: Stage_def w ok assms(3) t name h wr cl none)
  have "objs v1 = objs v" using assms(2)[of v] t by simp
  moreover have "objs v2 = objs v1"
    using assms(1)[unfolded gcs_contract_def, THEN conjunct1, rule_format, of "stg_Bucket s" name "''application/json''" v1] h by simp
  moreover have "objs v3 = objs v2"
    using assms(1)[unfolded gcs_contract_def, THEN conjunct2, THEN conjunct1, rule_format, of h rows v2] wr by simp
  moreover have "objs v4 = (objs v3)((stg_Bucket s, name) \<mapsto> rows)"
    using assms(1)[unfolded gcs_contract_def, THEN conjunct2, THEN conjunct2, THEN conjunct1, rule_format,
        of "stg_Bucket s" name "''application/json''" v1 rows v3 v4] h wr cl none by simp
  ultimately show ?thesis using eqs w by (intro that[of name]) simp_all
qed

lemma staging_cleanup_removes:
  assumes "gcs_contract K objs" and "staging_cleanup s K name v = (err, v')"
  shows "if stg_Keep s then err = None \<and> v' = v else err \<noteq> None \<or> objs v' = (objs v)((stg_Bucket s, name) := None)"
proof -
  obtain derr v1 where d: "gcs_Delete K (stg_Bucket s) name v = (derr, v1)" by force
  note laws = assms(1)[unfolded gcs_contract_def, THEN conjunct2, THEN conjunct2, THEN conjunct2]
  show ?thesis
  proof (cases derr)
    case None
    with laws d have "objs v1 = (objs v)((stg_Bucket s, name) := None)" by blast
    with assms(2) d None show ?thesis by (auto simp: staging_cleanup_def split: if_splits)
  next
    case (Some e)
    have "objs v1 = (objs v)((stg_Bucket s, name) := None)" if "is_ErrObjectNotExist e"
    proof -
      from laws d Some that have "objs v1 = objs v" "objs v (stg_Bucket s, name) = None" by blast+
      then show ?thesis by (simp add: fun_upd_idem)
    qed
    with assms(2) d Some show ?thesis by (auto simp: staging_cleanup_def split: if_splits)
  qed
qed

text \<open>
  C19: a staged object lives for one load. Either staging fails, and no job is submitted; or the
  job runs while the object its URI names holds exactly the rows, and when the load is over,
  however it ended, the object is gone again, unless it is to be kept or its removal failed,
  which is then logged with the URI.
\<close>

theorem staged_object_lives_for_one_load:
  assumes "gcs_contract K objs" and "leaves_objects objs now C" and "stg_Client s = Some K"
    and "stagedLoader_load C (Stage now s) rows schema env = (err, env')"
  shows "(\<exists>e. err = Some (EWrap (WriterSite StageRows) e) \<and> logs env' = logs env)
    \<or> (\<exists>name env1 env2. runLoader C (AtURI (object_uri (stg_Bucket s) name)) schema env1 = (err, env2)
        \<and> objs (snd (world env1)) = (objs (snd (world env)))((stg_Bucket s, name) \<mapsto> rows)
        \<and> objs (snd (world env2)) = objs (snd (world env1))
        \<and> (if stg_Keep s then env' = env2
           else objs (snd (world env')) = (objs (snd (world env)))((stg_Bucket s, name) := None)
             \<or> (\<exists>e. logs env' = logs env2 @ [CouldNotRemoveStaged (object_uri (stg_Bucket s) name) e])))"
proof -
  obtain staged w1 where staged: "Stage now s rows (world env) = (staged, w1)" by (rule prod.exhaust)
  show ?thesis
  proof (cases staged)
    case (Inl e)
    have "stagedLoader_load C (Stage now s) rows schema env = (Some (EWrap (WriterSite StageRows) e), env\<lparr>world := w1\<rparr>)"
      by (simp add: stagedLoader_load_def on_world_def staged Inl)
    with assms(4) have "err = Some (EWrap (WriterSite StageRows) e)" "env' = env\<lparr>world := w1\<rparr>" by simp_all
    then show ?thesis by simp
  next
    case (Inr uc)
    obtain uri cleanup where uc: "uc = (uri, cleanup)" by (cases uc)
    have now: "objs (snd (now v)) = objs v" for v using assms(2) by (simp add: leaves_objects_def)
    from Stage_Inr[where objs=objs, OF assms(1) now assms(3) staged[unfolded Inr uc]]
    obtain name where name: "uri = object_uri (stg_Bucket s) name" "cleanup = Some (on_snd (staging_cleanup s K name))"
      "objs (snd w1) = (objs (snd (world env)))((stg_Bucket s, name) \<mapsto> rows)" .
    let ?env1 = "log_add (StagedRows uri (length rows)) (env\<lparr>world := w1\<rparr>)"
    obtain err2 env2 where loaded: "runLoader C (AtURI uri) schema ?env1 = (err2, env2)" by force
    note kept = runLoader_leaves[OF assms(2) loaded]
    obtain cerr v2 where cleaned: "staging_cleanup s K name (snd (world env2)) = (cerr, v2)" by force
    let ?env3 = "env2\<lparr>world := (fst (world env2), v2)\<rparr>"
    have "run_cleanup uri cleanup env2 = (case cerr of None \<Rightarrow> ?env3 | Some e \<Rightarrow> log_add (CouldNotRemoveStaged uri e) ?env3)"
      using name(2) cleaned by (simp add: run_cleanup_def on_world_def on_snd_def split: option.split)
    moreover have "stagedLoader_load C (Stage now s) rows schema env = (err2, run_cleanup uri cleanup env2)"
      by (simp add: stagedLoader_load_def on_world_def staged Inr uc loaded)
    ultimately have env': "err = err2" "env' = (case cerr of None \<Rightarrow> ?env3 | Some e \<Rightarrow> log_add (CouldNotRemoveStaged uri e) ?env3)"
      using assms(4) by simp_all
    have "if stg_Keep s then env' = env2
           else objs (snd (world env')) = (objs (snd (world env)))((stg_Bucket s, name) := None)
             \<or> (\<exists>e. logs env' = logs env2 @ [CouldNotRemoveStaged uri e])"
    proof (cases cerr)
      case None
      with staging_cleanup_removes[OF assms(1) cleaned] env'(2) kept name(3) show ?thesis by (auto simp: log_add_def)
    next
      case (Some e)
      with staging_cleanup_removes[OF assms(1) cleaned] env'(2) show ?thesis
        by (cases "stg_Keep s") (simp_all add: log_add_def)
    qed
    with env'(1) loaded name kept show ?thesis
      by - (rule disjI2, rule exI[of _ name], rule exI[of _ ?env1], rule exI[of _ env2], cases "stg_Keep s", simp_all)
  qed
qed

text \<open>Cloud Storage as a map, whose writers are the objects with what was written so far.\<close>

definition map_gcs :: "(((string \<times> string) \<Rightarrow> string option) \<times> ((string \<times> string) \<Rightarrow> string), string \<times> string) gcs" where
  "map_gcs = \<lparr>gcs_NewWriter = (\<lambda>b n ct (m, d). ((b, n), m, d((b, n) := []))),
     gcs_Write = (\<lambda>h s (m, d). (None, m, d(h := d h @ s))),
     gcs_CloseWriter = (\<lambda>h (m, d). (None, m(h \<mapsto> d h), d)),
     gcs_Delete = (\<lambda>b n (m, d). if m (b, n) = None then (Some (EOther ''storage: object doesn't exist''), m, d)
       else (None, m((b, n) := None), d))\<rparr>"

definition map_staging :: "(((string \<times> string) \<Rightarrow> string option) \<times> ((string \<times> string) \<Rightarrow> string), string \<times> string) Staging" where
  "map_staging = \<lparr>stg_Client = Some map_gcs, stg_Bucket = ''b'', stg_Prefix = [], stg_Keep = False\<rparr>"

definition done_load :: "('w, unit) load_client" where
  "done_load = \<lparr>lc_Run = (\<lambda>src w. (Inr (), w)), lc_Wait = (\<lambda>j w. (Inr None, w)), lc_ID = (\<lambda>j. ''job'')\<rparr>"

lemma map_gcs_contract: "gcs_contract map_gcs fst"
  by (auto simp: gcs_contract_def map_gcs_def is_ErrObjectNotExist_def split: if_splits)

theorem staged_object_lives_for_one_load_witness:
  "fst (snd (world (snd (stagedLoader_load done_load (Stage (\<lambda>v. (7, v)) map_staging) ''x'' id_schema
     \<lparr>world = (0, Map.empty, \<lambda>_. []), logs = []\<rparr>)))) = Map.empty"
proof -
  let ?env = "\<lparr>world = (0 :: 64 word, Map.empty, \<lambda>_. []), logs = []\<rparr>"
  obtain name c where name: "objectName [] 7 0 = (name, c)" by force
  obtain err env' where loaded: "stagedLoader_load done_load (Stage (\<lambda>v. (7, v)) map_staging) ''x'' id_schema ?env = (err, env')"
    by force
  have staged: "Stage (\<lambda>v. (7, v)) map_staging ''x'' (0, Map.empty, \<lambda>_. [])
      = (Inr (object_uri ''b'' name, Some (on_snd (staging_cleanup map_staging map_gcs name))), c, [(''b'', name) \<mapsto> ''x''], (\<lambda>_. [])((''b'', name) := ''x''))"
    by (simp add: Stage_def map_staging_def Staging_Validate_def has_prefix_def name) (simp add: map_gcs_def)
  have "\<exists>w. stagedLoader_load done_load (Stage (\<lambda>v. (7, v)) map_staging) ''x'' id_schema ?env
      = (None, \<lparr>world = w, logs = [StagedRows (object_uri ''b'' name) 1, SubmittedLoadJob ''job'', LoadJobFinished ''job'']\<rparr>)"
    by (simp add: stagedLoader_load_def on_world_def staged runLoader_def done_load_def run_cleanup_def on_snd_def log_add_def)
      (simp add: staging_cleanup_def map_staging_def map_gcs_def)
  with loaded have "err = None \<and> logs env' = [StagedRows (object_uri ''b'' name) 1, SubmittedLoadJob ''job'', LoadJobFinished ''job'']"
    by auto
  moreover have "leaves_objects fst (\<lambda>v. (7, v)) (done_load :: (64 word \<times> _, unit) load_client)"
    by (simp add: leaves_objects_def done_load_def)
  moreover have "stg_Client map_staging = Some map_gcs" "\<not> stg_Keep map_staging" by (simp_all add: map_staging_def)
  ultimately show ?thesis
    using staged_object_lives_for_one_load[OF map_gcs_contract _ _ loaded] loaded by auto
qed

end
