(* ===== verification/Spec2Isabelle.thy ===== *)
theory Spec2Isabelle
  imports StorageRuns Staging
begin

text \<open>
  A model of bqsink, a Go package that writes rows of one declared type to one BigQuery table.
  A row type (or table metadata given at run time) declares the table; a \<open>Sinker\<close> brings the real
  table in line with the declaration before the first batch, converts each batch to columns, and
  hands the columns to a \<open>RowsWriter\<close>, which sends them through load jobs, possibly staged in
  Cloud Storage, or through the Storage Write API.

  The parts, with the theories that model them:

  \<^item> relation.go: \<open>Relations\<close> (a reference, its parser, its texts, a stream's table parent).
  \<^item> migration.go: \<open>Schemas\<close> (the client's data the sources read), \<open>Migration\<close> (what two schemas
    differ in, what each strategy asks for, the schema a patch sends), \<open>Strategies\<close> (the interface
    \<open>MigrationStrategy\<close> as the locale \<open>migration_strategy\<close>, interpreted on all three strategies),
    \<open>Retry\<close> (what is retried and how often, with \<open>retrying\<close> of bqsink.go), \<open>Apply\<close> (the effects on
    the table: creating, patching, dropping columns).
  \<^item> schema.go: \<open>GoTypes\<close> (package reflect's view of types), \<open>Tags\<close> (every parser of a struct tag).
  \<^item> fields.go: \<open>StructFields\<close> (the walk over embedded structs and the rule for equal names).
  \<^item> marshal.go and plan.go: \<open>Values\<close> (Go values and column values), \<open>Marshal\<close> (registered
    marshalers, a type's own), \<open>RowPlan\<close> (plans and their schema), \<open>Layout\<close> (partitioning,
    clustering, when building a plan ends), \<open>RowValues\<close> (a struct becomes a row), \<open>RowRendering\<close> and
    \<open>RowTyping\<close> (what that guarantees).
  \<^item> maprow.go: \<open>MapPlan\<close> (a map becomes a row of a schema known at run time).
  \<^item> jsonrow.go: \<open>JsonRow\<close> (a row as JSON, in the dialect of either transport).
  \<^item> bqsink.go, option.go, fill.go: \<open>Converters\<close> (\<open>rowConverter\<close> as the locale \<open>row_converter\<close>,
    interpreted on both kinds of plan and on their union), \<open>Declarations\<close>, \<open>Sinker\<close> (construction,
    \<open>start\<close>, batches), \<open>SinkerRuns\<close> (what a caller may rely on; \<open>RowsWriter\<close> and \<open>WriteResult\<close> as
    the locale \<open>rows_writer\<close>, interpreted on both transports).
  \<^item> write.go: \<open>LoadJobs\<close> (one load job, and the writer's operations split where they take and
    release the lock), \<open>LoadJobsRuns\<close> (their interleavings as a step relation), \<open>LoadSettings\<close>
    (the settings and \<open>NewWriter\<close>).
  \<^item> storagewrite.go: \<open>StorageWrite\<close> (settings, writer, operations), \<open>StorageRuns\<close>.
  \<^item> bqgcs/staging.go: \<open>Staging\<close>.

  \<open>Prelude\<close> and \<open>GoErrors\<close> are shared: Go's pair of a value and an error is \<open>gerr + 'a\<close>, an error
  is a tree of wrapped errors whose messages are constructors holding what they print, slices are
  lists, maps are functions or lists of entries, \<open>int64\<close> and \<open>uint64\<close> values that may wrap are
  words. What lies outside the program is a type variable, the \<open>world\<close> of a record \<open>env\<close> that also
  holds the log.

  What the groups of lemmas show. Migrations: differences are empty exactly for equal schemas, a
  patch never loses or narrows a column, a nil migration leaves every declared column even when
  other processes change the table, refused ones touch nothing, names cannot escape their quotes.
  Retries: at most five runs. Row types: the walk and the plans end, the columns are those of
  encoding/json's rule, tags are consistent, schemas are well formed, rows have exactly their
  schema's columns, conversions of well-typed values fail for the caller's own reasons only (or
  panic on an embedded struct of an unexported type that is a column), rendering never fails for
  structure but where a marshaler's answer does not fit its column, and structs and maps give the
  same value for the same column, JSON text apart. Writers: under every interleaving a closed \<open>LoadJobsWriter\<close> has landed or reported every
  row, no call blocks for ever; an append of a \<open>StorageWriter\<close> is all or nothing, its stream
  belongs to its relation, no connection is left open; staged objects never collide and live for
  one load. Sinkers: the writer is given the schema once and only after a migration that succeeded, a nil error of \<open>Sink\<close> means
  that the rows were loaded or appended, a failed start is final.

  Bounds. The walk over embedded structs is a \<open>partial_function\<close>, proved to return. Plans recurse
  into RECORD structs within a number of levels given as fuel; \<open>Layout\<close> proves that where no struct
  is a RECORD inside itself some number is enough and more change nothing, and that for a struct
  inside itself none is, as the program does not return either. Everything else is total.

  Parameters, each with its documented behaviour as a named hypothesis where a property needs it
  and a concrete instance in the witness: the BigQuery client (\<open>table_contract\<close>), \<open>gax.Invoke\<close>
  (\<open>gax_contract\<close>, \<open>acts_through_calls\<close>), the texts of encoding/json (\<open>json_contract\<close>), the methods
  of the caller's types, the managed writer and protocol buffers libraries (\<open>parents_documented\<close>,
  \<open>connections\<close>), Cloud Storage (\<open>gcs_contract\<close>), the clock and UUIDs (\<open>leaves_writer\<close>).

  Not modelled. The wording of messages; time (pauses between retries, deadlines and cancellation
  of a context, how long a job took); which logger a writer logs to; pointers shared between a
  caller and the package, so one pointer given twice in a batch whose \<open>FillRow\<close> keeps state is two
  values, and a \<open>FieldSchema\<close> changed after a declaration was made is not seen; concurrent calls of
  a Sinker beyond the order \<open>sync.Once\<close> gives to the first ones, and of a \<open>StorageWriter\<close>, whose
  calls are taken one after another; doc.go, which holds comments only; \<open>Relation.table\<close>, which only
  makes a handle of the client.
\<close>

end
